(* ===== verification/Prelude.thy ===== *)
theory Prelude
  imports Main "HOL-Library.Multiset" "HOL-Library.List_Lexorder"
    "HOL-Library.Product_Lexorder" "HOL-Library.Char_ord"
begin

text \<open>
  Generic material shared by every component: the rule collections of the development, the
  search for the first successful element of a list (used for the traversal of wrapped
  errors), the wrap-around of Go's 64-bit integers, and the SQL primitives (an update, a
  delete and an ordered, limited selection on a table held as a list of rows) with the facts
  the repository proofs use.
\<close>

named_theorems outbox_defs \<open>definitions of the model unfolded together\<close>
named_theorems table_simps \<open>rewriting of table primitives\<close>

section \<open>Searching a list\<close>

fun first_some :: "('a \<Rightarrow> 'b option) \<Rightarrow> 'a list \<Rightarrow> 'b option" where
  "first_some f [] = None"
| "first_some f (x # xs) = (case f x of Some b \<Rightarrow> Some b | None \<Rightarrow> first_some f xs)"

lemma first_some_cong [fundef_cong]:
  "xs = ys \<Longrightarrow> (\<And>x. x \<in> set ys \<Longrightarrow> f x = g x) \<Longrightarrow> first_some f xs = first_some g ys"
  by (induction xs arbitrary: ys) (auto split: option.splits)

lemma first_some_None_iff [simp]: "first_some f xs = None \<longleftrightarrow> (\<forall>x \<in> set xs. f x = None)"
  by (induction xs) (auto split: option.splits)

lemma first_some_SomeD: "first_some f xs = Some b \<Longrightarrow> \<exists>x \<in> set xs. f x = Some b"
  by (induction xs) (auto split: option.splits)

section \<open>Go integers\<close>

text \<open>Two's complement wrap-around of a 64-bit signed integer (Go's \<open>int\<close>, \<open>int64\<close> and
  \<open>time.Duration\<close>), and Go's division, which truncates towards zero.\<close>

definition int64 :: "int \<Rightarrow> int" where
  "int64 x = (x + 2 ^ 63) mod 2 ^ 64 - 2 ^ 63"

definition go_div :: "int \<Rightarrow> int \<Rightarrow> int" where
  "go_div a b = sgn a * sgn b * (\<bar>a\<bar> div \<bar>b\<bar>)"

lemma int64_id: "- (2 ^ 63) \<le> x \<Longrightarrow> x < 2 ^ 63 \<Longrightarrow> int64 x = x"
  by (simp add: int64_def mod_pos_pos_trivial)

lemma go_div_nonneg [simp]: "0 \<le> a \<Longrightarrow> 0 < b \<Longrightarrow> go_div a b = a div b"
  by (cases "a = 0") (auto simp: go_div_def)

section \<open>Tables as lists of rows\<close>

text \<open>The effect of \<open>UPDATE t SET f WHERE p\<close>, of \<open>DELETE FROM t WHERE p\<close>, the number of
  rows either reports, and \<open>SELECT ... WHERE p ORDER BY k LIMIT n\<close>. A negative limit means
  no limit in SQLite; every call of the program passes a non-negative one.\<close>

definition sql_update :: "('r \<Rightarrow> bool) \<Rightarrow> ('r \<Rightarrow> 'r) \<Rightarrow> 'r list \<Rightarrow> 'r list" where
  "sql_update p f t = map (\<lambda>r. if p r then f r else r) t"

definition sql_delete :: "('r \<Rightarrow> bool) \<Rightarrow> 'r list \<Rightarrow> 'r list" where
  "sql_delete p t = filter (\<lambda>r. \<not> p r) t"

definition sql_count :: "('r \<Rightarrow> bool) \<Rightarrow> 'r list \<Rightarrow> int" where
  "sql_count p t = int (length (filter p t))"

definition sql_select :: "('r \<Rightarrow> bool) \<Rightarrow> ('r \<Rightarrow> 'k::linorder) \<Rightarrow> nat \<Rightarrow> 'r list \<Rightarrow> 'r list" where
  "sql_select p k n t = take n (sort_key k (filter p t))"

lemma sql_update_Nil [simp]: "sql_update p f [] = []"
  by (simp add: sql_update_def)

lemma sql_update_Cons [simp]:
  "sql_update p f (r # t) = (if p r then f r else r) # sql_update p f t"
  by (simp add: sql_update_def)

lemma set_sql_update: "set (sql_update p f t) = f ` {r \<in> set t. p r} \<union> {r \<in> set t. \<not> p r}"
  by (induction t) auto

lemma map_sql_update [table_simps]:
  "(\<And>r. g (f r) = g r) \<Longrightarrow> map g (sql_update p f t) = map g t"
  by (induction t) auto

lemma sql_update_none: "(\<And>r. r \<in> set t \<Longrightarrow> \<not> p r) \<Longrightarrow> sql_update p f t = t"
  by (induction t) auto

lemma set_sql_delete [simp]: "set (sql_delete p t) = {r \<in> set t. \<not> p r}"
  by (auto simp: sql_delete_def)

lemma distinct_map_sql_delete [simp]:
  "distinct (map g t) \<Longrightarrow> distinct (map g (sql_delete p t))"
  by (simp add: sql_delete_def distinct_map_filter)

lemma sql_count_Nil [simp]: "sql_count p [] = 0"
  by (simp add: sql_count_def)

lemma sql_count_Cons [simp]: "sql_count p (r # t) = (if p r then 1 else 0) + sql_count p t"
  by (simp add: sql_count_def)

lemma sql_count_nonneg [simp]: "0 \<le> sql_count p t"
  by (simp add: sql_count_def)

lemma sql_count_0_iff: "sql_count p t = 0 \<longleftrightarrow> (\<forall>r \<in> set t. \<not> p r)"
  by (simp add: sql_count_def filter_empty_conv)

lemma set_sql_select: "set (sql_select p k n t) \<subseteq> {r \<in> set t. p r}"
  using set_take_subset [of n "sort_key k (filter p t)"] by (auto simp: sql_select_def)

lemma sql_select_sat: "r \<in> set (sql_select p k n t) \<Longrightarrow> p r \<and> r \<in> set t"
  using set_sql_select [of p k n t] by auto

lemma length_sql_select: "length (sql_select p k n t) = min n (length (filter p t))"
  by (simp add: sql_select_def min.commute)

lemma sorted_sql_select: "sorted (map k (sql_select p k n t))"
  by (simp add: sql_select_def flip: take_map)

lemma distinct_sql_select:
  assumes "distinct (map g t)"
  shows "distinct (map g (sql_select p k n t))"
proof -
  have "mset (map g (sort_key k (filter p t))) = mset (map g (filter p t))"
    by simp
  moreover have "distinct (map g (filter p t))"
    using assms by (rule distinct_map_filter)
  ultimately have "distinct (map g (sort_key k (filter p t)))"
    by (metis mset_eq_imp_distinct_iff)
  then show ?thesis
    by (simp add: sql_select_def flip: take_map)
qed

lemma sql_select_prefix:
  assumes "r \<in> set t" "p r" "r \<notin> set (sql_select p k n t)" "s \<in> set (sql_select p k n t)"
  shows "k s \<le> k r"
proof -
  let ?xs = "sort_key k (filter p t)"
  have "r \<in> set ?xs"
    using assms(1,2) by simp
  then have "r \<in> set (take n ?xs) \<or> r \<in> set (drop n ?xs)"
    by (metis Un_iff append_take_drop_id set_append)
  then have r: "r \<in> set (drop n ?xs)"
    using assms(3) by (simp add: sql_select_def)
  have "sorted (map k (take n ?xs) @ map k (drop n ?xs))"
    by (metis append_take_drop_id map_append sorted_sort_key)
  then show ?thesis
    using r assms(4) by (auto simp: sql_select_def sorted_append)
qed

lemma distinct_map_same: "distinct (map g t) \<Longrightarrow> x \<in> set t \<Longrightarrow> y \<in> set t \<Longrightarrow> g x = g y \<Longrightarrow> x = y"
  by (auto simp: distinct_map inj_on_def)

lemma sql_count_ids:
  assumes "distinct (map g t)" "distinct ids"
    and "\<And>i. i \<in> set ids \<Longrightarrow> \<exists>r \<in> set t. g r = i \<and> p r"
  shows "sql_count (\<lambda>r. g r \<in> set ids \<and> p r) t = int (length ids)"
proof -
  let ?sel = "filter (\<lambda>r. g r \<in> set ids \<and> p r) t"
  have "distinct (map g ?sel)"
    using assms(1) by (rule distinct_map_filter)
  moreover have "set (map g ?sel) = set ids"
    using assms(3) by auto
  ultimately have "length (map g ?sel) = length ids"
    using assms(2) by (metis distinct_card)
  then show ?thesis
    by (simp add: sql_count_def)
qed

text \<open>With unique keys a count restricted to a set of keys is the number of keys that have a matching
  row, so a full count means that every key has one.\<close>

lemma sql_count_card:
  assumes "distinct (map g t)"
  shows "sql_count (\<lambda>r. g r \<in> A \<and> p r) t = int (card {i \<in> A. \<exists>r \<in> set t. g r = i \<and> p r})"
proof -
  let ?sel = "filter (\<lambda>r. g r \<in> A \<and> p r) t"
  have "distinct (map g ?sel)"
    using assms by (rule distinct_map_filter)
  moreover have "set (map g ?sel) = {i \<in> A. \<exists>r \<in> set t. g r = i \<and> p r}"
    by auto
  ultimately show ?thesis
    using distinct_card [of "map g ?sel"] by (simp add: sql_count_def)
qed

lemma sql_count_le_card:
  "distinct (map g t) \<Longrightarrow> finite A \<Longrightarrow> sql_count (\<lambda>r. g r \<in> A \<and> p r) t \<le> int (card A)"
  by (auto simp: sql_count_card intro: card_mono)

lemma sql_count_full:
  assumes "distinct (map g t)" "finite A" "sql_count (\<lambda>r. g r \<in> A \<and> p r) t \<ge> int (card A)" "i \<in> A"
  shows "\<exists>r \<in> set t. g r = i \<and> p r"
proof -
  let ?B = "{i \<in> A. \<exists>r \<in> set t. g r = i \<and> p r}"
  have "card A \<le> card ?B"
    using assms(3) by (simp add: sql_count_card [OF assms(1)])
  then have "?B = A"
    using assms(2) by (intro card_seteq) auto
  then show ?thesis
    using assms(4) by blast
qed

text \<open>The row of a key.\<close>

definition row_at :: "('r \<Rightarrow> 'k) \<Rightarrow> 'r list \<Rightarrow> 'k \<Rightarrow> 'r option" where
  "row_at g t i = find (\<lambda>r. g r = i) t"

lemma row_at_Nil [simp]: "row_at g [] i = None"
  by (simp add: row_at_def)

lemma row_at_Cons [simp]: "row_at g (r # t) i = (if g r = i then Some r else row_at g t i)"
  by (simp add: row_at_def)

lemma row_at_None_iff: "row_at g t i = None \<longleftrightarrow> i \<notin> g ` set t"
  by (induction t) auto

lemma row_at_SomeD: "row_at g t i = Some r \<Longrightarrow> r \<in> set t \<and> g r = i"
  by (induction t) (auto split: if_splits)

lemma row_at_iff: "distinct (map g t) \<Longrightarrow> row_at g t i = Some r \<longleftrightarrow> r \<in> set t \<and> g r = i"
  by (induction t) (auto split: if_splits)

lemma row_at_update [table_simps]:
  "(\<And>r. g (f r) = g r) \<Longrightarrow>
   row_at g (sql_update p f t) i = map_option (\<lambda>r. if p r then f r else r) (row_at g t i)"
  by (induction t) auto

lemma row_at_delete:
  assumes "distinct (map g t)"
  shows "row_at g (sql_delete p t) i =
    (case row_at g t i of None \<Rightarrow> None | Some r \<Rightarrow> if p r then None else Some r)"
proof (cases "row_at g t i")
  case None
  then have "row_at g (sql_delete p t) i = None"
    by (auto simp: row_at_None_iff)
  then show ?thesis
    using None by simp
next
  case (Some r)
  then have "r \<in> set t \<and> g r = i"
    by (rule row_at_SomeD)
  moreover have "x = r" if "x \<in> set t" "g x = i" for x
    using assms that calculation by (auto simp: distinct_map inj_on_def)
  ultimately have "row_at g (sql_delete p t) i = (if p r then None else Some r)"
    using assms by (auto simp: row_at_iff row_at_None_iff)
  then show ?thesis
    using Some by simp
qed

end
