(* ===== verification/Go_Base.thy ===== *)
theory Go_Base
  imports Prelude "HOL-Library.Word"
begin

text \<open>
  What the program uses of Go and its standard library: instants and durations of package
  time, error values with the traversals of package errors, contexts, and the interface to
  the running process (the clock, cancellation, the drain channel). Error values are trees,
  because \<open>errors.Is\<close> and \<open>errors.As\<close> walk the wrapped errors in pre-order; the text of a
  wrapping \<open>fmt.Errorf\<close> is kept as its format string.
\<close>

section \<open>Time\<close>

text \<open>A \<open>time.Time\<close> is the signed number of nanoseconds since the Unix epoch. The zero
  \<open>Time\<close> is the first instant of year 1. \<open>UTC()\<close> changes only the location, so it is the
  identity here. \<open>Truncate(time.Millisecond)\<close> rounds towards the zero time, which for every
  later instant is rounding down.\<close>

type_synonym time = int
type_synonym duration = int

definition zero_time :: time where
  "zero_time = - 62135596800 * 10 ^ 9"

definition time_IsZero :: "time \<Rightarrow> bool" where
  "time_IsZero t \<longleftrightarrow> t = zero_time"

definition millisecond :: duration where
  "millisecond = 1000000"

definition second :: duration where
  "second = 1000000000"

definition UnixMilli :: "time \<Rightarrow> int" where
  "UnixMilli t = t div millisecond"

definition time_UnixMilli :: "int \<Rightarrow> time" where
  "time_UnixMilli ms = ms * millisecond"

definition truncate_ms :: "time \<Rightarrow> time" where
  "truncate_ms t = t - t mod millisecond"

definition ms_aligned :: "time \<Rightarrow> bool" where
  "ms_aligned t \<longleftrightarrow> t mod millisecond = 0"

lemma UnixMilli_mono: "s \<le> t \<Longrightarrow> UnixMilli s \<le> UnixMilli t"
  by (simp add: UnixMilli_def millisecond_def zdiv_mono1)

lemma UnixMilli_time_UnixMilli [simp]: "UnixMilli (time_UnixMilli ms) = ms"
  by (simp add: UnixMilli_def time_UnixMilli_def millisecond_def)

lemma time_UnixMilli_UnixMilli: "time_UnixMilli (UnixMilli t) = truncate_ms t"
  by (simp add: UnixMilli_def time_UnixMilli_def truncate_ms_def minus_mod_eq_div_mult)

lemma time_UnixMilli_aligned [simp]: "ms_aligned (time_UnixMilli ms)"
  by (simp add: ms_aligned_def time_UnixMilli_def millisecond_def)

lemma aligned_roundtrip: "ms_aligned t \<Longrightarrow> time_UnixMilli (UnixMilli t) = t"
  by (simp add: time_UnixMilli_UnixMilli truncate_ms_def ms_aligned_def)

lemma truncate_ms_aligned [simp]: "ms_aligned (truncate_ms t)"
  by (metis time_UnixMilli_UnixMilli time_UnixMilli_aligned)

lemma truncate_ms_le: "truncate_ms t \<le> t"
  by (simp add: truncate_ms_def millisecond_def)

lemma truncate_ms_gt: "t < truncate_ms t + millisecond"
  by (simp add: truncate_ms_def millisecond_def)

lemma truncate_ms_step_aligned [simp]: "ms_aligned (truncate_ms t + millisecond)"
  using truncate_ms_aligned [of t]
  by (simp only: ms_aligned_def mod_add_self2)

text \<open>A millisecond-aligned deadline compares with a truncated instant exactly as it compares
  with the instant itself.\<close>

lemma aligned_compare:
  assumes "ms_aligned d"
  shows "UnixMilli d > UnixMilli t \<longleftrightarrow> d > t"
proof -
  obtain k where d: "d = k * millisecond"
    using assms by (metis aligned_roundtrip time_UnixMilli_def)
  have "t = UnixMilli t * 1000000 + t mod 1000000" "0 \<le> t mod 1000000" "t mod 1000000 < 1000000"
    by (simp_all add: UnixMilli_def millisecond_def)
  then have "UnixMilli t < k \<longleftrightarrow> t < k * millisecond"
    unfolding millisecond_def by linarith
  then show ?thesis
    by (simp add: d UnixMilli_def millisecond_def)
qed

section \<open>Errors\<close>

text \<open>The error variables of the program that are compared by identity.\<close>

datatype sentinel =
    ErrNoJobs | ErrJobStatNotInit
  | ErrReservationBatchSizeUnsupported | ErrEmptyReservationBatch
  | ErrUniqueRepositoryNotConfigured | ErrInvalidSchemaVersion | ErrLeaseLost
  | ErrUnsupportedClaim | ErrNonAtomicDLQUnsupported | ErrTransactionCapabilitiesRequired
  | ErrServiceRunning | ErrServiceNotRunning | ErrServiceDraining | ErrWorkerGoexit
  | ErrInvalidBatchResult | ErrBatchRepositoryNotConfigured
  | ErrFanoutRepositoryNotConfigured | ErrIdempotencyConflict | ErrInvalidFanout
  | ErrOption | ErrRetryPolicy | ErrCancelledClaimCleanup
  | ErrJobIDUuidZero | ErrLeaseTokenUUIDZero | ErrMessageIDUuidZero
  | ErrNoRows | Context_Canceled | Context_DeadlineExceeded

datatype error =
    Sentinel sentinel
  | ErrNew string
  | ErrWrap string "error list"
  | ErrJoin "error list"
  | PermanentError error
  | RetryAtError error time
  | DeferAtError error time
  | HandlerPanicError string string

text \<open>The errors one error wraps: its \<open>Unwrap\<close> method, in either of its two forms.\<close>

fun error_Unwrap :: "error \<Rightarrow> error list" where
  "error_Unwrap (ErrWrap _ es) = es"
| "error_Unwrap (ErrJoin es) = es"
| "error_Unwrap (PermanentError e) = [e]"
| "error_Unwrap (RetryAtError e _) = [e]"
| "error_Unwrap (DeferAtError e _) = [e]"
| "error_Unwrap _ = []"

lemma size_error_Unwrap [termination_simp]: "x \<in> set (error_Unwrap e) \<Longrightarrow> size x < size e"
  by (cases e) (auto simp: less_Suc_eq_le dest: size_list_estimation' [OF _ order_refl, of _ _ size])

text \<open>\<open>errors.As\<close>: the first error, in pre-order, that the target accepts.\<close>

fun errors_As :: "(error \<Rightarrow> 'a option) \<Rightarrow> error \<Rightarrow> 'a option" where
  "errors_As p e =
     (case p e of Some a \<Rightarrow> Some a | None \<Rightarrow> first_some (errors_As p) (error_Unwrap e))"

declare errors_As.simps [simp del]

fun is_sentinel :: "sentinel \<Rightarrow> error \<Rightarrow> unit option" where
  "is_sentinel s (Sentinel s') = (if s' = s then Some () else None)"
| "is_sentinel s _ = None"

text \<open>\<open>errors.Is\<close> for the program's sentinels. A nil error is \<open>None\<close>.\<close>

definition errors_Is :: "error option \<Rightarrow> sentinel \<Rightarrow> bool" where
  "errors_Is err s \<longleftrightarrow> (case err of None \<Rightarrow> False | Some e \<Rightarrow> errors_As (is_sentinel s) e \<noteq> None)"

definition errors_Join :: "error option list \<Rightarrow> error option" where
  "errors_Join es =
     (let present = List.map_filter id es in if present = [] then None else Some (ErrJoin present))"

inductive contains_error :: "error \<Rightarrow> error \<Rightarrow> bool" where
  here: "contains_error e e"
| inside: "x \<in> set (error_Unwrap e) \<Longrightarrow> contains_error x t \<Longrightarrow> contains_error e t"

text \<open>The reference meaning of the traversal: it succeeds exactly when some error of the tree is
  accepted.\<close>

lemma errors_As_None_iff: "errors_As p e = None \<longleftrightarrow> (\<forall>t. contains_error e t \<longrightarrow> p t = None)"
proof (induction e rule: measure_induct_rule [where f = size])
  case (less e)
  have IH: "errors_As p x = None \<longleftrightarrow> (\<forall>t. contains_error x t \<longrightarrow> p t = None)"
    if "x \<in> set (error_Unwrap e)" for x
    using less [of x] size_error_Unwrap [OF that] by blast
  show ?case
  proof
    assume "errors_As p e = None"
    then have "p e = None" "\<forall>x \<in> set (error_Unwrap e). errors_As p x = None"
      by (auto simp: errors_As.simps [of p e] split: option.splits)
    then show "\<forall>t. contains_error e t \<longrightarrow> p t = None"
      using IH by (auto elim: contains_error.cases)
  next
    assume a: "\<forall>t. contains_error e t \<longrightarrow> p t = None"
    then have "p e = None"
      by (blast intro: contains_error.here)
    moreover have "errors_As p x = None" if "x \<in> set (error_Unwrap e)" for x
      using that a IH [OF that] by (blast intro: contains_error.inside)
    ultimately show "errors_As p e = None"
      by (simp add: errors_As.simps [of p e])
  qed
qed

lemma is_sentinel_eq_Some [simp]: "is_sentinel s e = Some u \<longleftrightarrow> e = Sentinel s"
  by (cases e) auto

lemma is_sentinel_neq_None [simp]: "is_sentinel s e \<noteq> None \<longleftrightarrow> e = Sentinel s"
  by (cases e) auto

lemma errors_Is_None [simp]: "\<not> errors_Is None s"
  by (simp add: errors_Is_def)

lemma errors_Is_Some: "errors_Is (Some e) s \<longleftrightarrow> contains_error e (Sentinel s)"
  by (auto simp: errors_Is_def errors_As_None_iff)

lemma contains_Unwrap_iff:
  "contains_error e t \<longleftrightarrow> t = e \<or> (\<exists>x \<in> set (error_Unwrap e). contains_error x t)"
  by (auto intro: contains_error.intros elim: contains_error.cases)

lemma contains_error_simps [simp]:
  "contains_error (Sentinel s) t \<longleftrightarrow> t = Sentinel s"
  "contains_error (ErrNew m) t \<longleftrightarrow> t = ErrNew m"
  "contains_error (HandlerPanicError n v) t \<longleftrightarrow> t = HandlerPanicError n v"
  "contains_error (ErrWrap m es) t \<longleftrightarrow> t = ErrWrap m es \<or> (\<exists>x \<in> set es. contains_error x t)"
  "contains_error (ErrJoin es) t \<longleftrightarrow> t = ErrJoin es \<or> (\<exists>x \<in> set es. contains_error x t)"
  "contains_error (PermanentError x) t \<longleftrightarrow> t = PermanentError x \<or> contains_error x t"
  "contains_error (RetryAtError x a) t \<longleftrightarrow> t = RetryAtError x a \<or> contains_error x t"
  "contains_error (DeferAtError x a) t \<longleftrightarrow> t = DeferAtError x a \<or> contains_error x t"
  by (subst contains_Unwrap_iff, simp)+

lemma errors_Join_None_iff [simp]: "errors_Join es = None \<longleftrightarrow> (\<forall>e \<in> set es. e = None)"
  by (induction es) (auto simp: errors_Join_def Let_def map_filter_simps split: option.splits if_splits)

lemma set_present: "x \<in> set (List.map_filter id es) \<longleftrightarrow> Some x \<in> set es"
  by (induction es) (auto simp: map_filter_simps split: option.splits)

lemma errors_Is_Join [simp]: "errors_Is (errors_Join es) s \<longleftrightarrow> (\<exists>e \<in> set es. errors_Is e s)"
proof (cases "errors_Join es")
  case None
  then have "\<not> (\<exists>e \<in> set es. errors_Is e s)"
    by (metis errors_Is_None errors_Join_None_iff)
  with None show ?thesis by (simp only: errors_Is_None)
next
  case (Some e)
  then have "e = ErrJoin (List.map_filter id es)"
    by (auto simp: errors_Join_def Let_def split: if_splits)
  then have "errors_Is (errors_Join es) s \<longleftrightarrow> (\<exists>x. Some x \<in> set es \<and> contains_error x (Sentinel s))"
    by (auto simp: Some errors_Is_Some set_present)
  also have "\<dots> \<longleftrightarrow> (\<exists>e \<in> set es. errors_Is e s)"
    by (metis errors_Is_None errors_Is_Some option.exhaust)
  finally show ?thesis .
qed

section \<open>Contexts and the running process\<close>

text \<open>A context is described by how it was derived. \<open>RunCtx\<close> is the context given to a service
  call, \<open>BatchCtx\<close> the one \<open>context.WithCancelCause\<close> derives from it for one claimed batch, and
  \<open>HeartbeatCtx\<close> the one \<open>context.WithCancel\<close> derives from the latter for the lease heartbeat.
  \<open>WithJobMetadata\<close> carries the identifier and the attempt of the running job as a context value. The
  process answers whether a context is done, and why, when it is asked.\<close>

datatype ctx =
    RunCtx
  | BatchCtx
  | HeartbeatCtx
  | WithDeadline ctx time
  | WithoutCancel ctx
  | WithJobMetadata ctx "128 word" int

text \<open>A context derived through \<open>context.WithoutCancel\<close> does not see the cancellation of its parents.\<close>

fun detached :: "ctx \<Rightarrow> bool" where
  "detached RunCtx = False"
| "detached BatchCtx = False"
| "detached HeartbeatCtx = False"
| "detached (WithDeadline c _) = detached c"
| "detached (WithoutCancel _) = True"
| "detached (WithJobMetadata c _ _) = detached c"

text \<open>Why a wait on a timer, the context and the drain channel ended.\<close>

datatype wake = WokeDone | WokeDrain | WokeTimer

text \<open>The running process as the code sees it: reading the clock, asking for the cause of a
  context, looking at the drain channel, and drawing a random UUID. Asking may change the
  world, because other goroutines and other processes run in between. \<open>heartbeat_ticks\<close> is the
  scheduler's choice how many ticks of the lease heartbeat run before the asking goroutine goes on.
  \<open>timer_wait\<close> is a \<open>select\<close> over the context, the drain channel and a timer of the given duration.
  \<open>err_Error\<close> is the text of an error.\<close>

record 'w runtime =
  time_Now :: "'w \<Rightarrow> time \<times> 'w"
  context_Cause :: "ctx \<Rightarrow> 'w \<Rightarrow> error option \<times> 'w"
  drain_closed :: "'w \<Rightarrow> bool \<times> 'w"
  uuid_New :: "'w \<Rightarrow> 128 word \<times> 'w"
  heartbeat_ticks :: "'w \<Rightarrow> nat \<times> 'w"
  timer_wait :: "ctx \<Rightarrow> duration \<Rightarrow> 'w \<Rightarrow> wake \<times> 'w"
  err_Error :: "error \<Rightarrow> string"

end
