(* ===== verification/Outbox_Types.thy ===== *)
theory Outbox_Types
  imports Go_Base
begin

text \<open>
  The identifiers, the persisted job and the handler capability: src/shared/types/types.go,
  src/outbox/models and src/outbox/capability.go. A UUID is a 128-bit word; its text form comes
  from a third-party package and is a parameter (\<open>str\<close>) where an order depends on it.
\<close>

section \<open>Identifiers\<close>

type_synonym uuid = "128 word"
type_synonym SchemaVersion = int

datatype JobID = JobID uuid
datatype LeaseToken = LeaseToken uuid
datatype MessageID = MessageID uuid

definition DefaultSchemaVersion :: SchemaVersion where
  "DefaultSchemaVersion = 1"

definition JobIDNil :: JobID where
  "JobIDNil = JobID 0"

definition LeaseTokenNil :: LeaseToken where
  "LeaseTokenNil = LeaseToken 0"

definition MessageIDNil :: MessageID where
  "MessageIDNil = MessageID 0"

definition JobID_IsZero :: "JobID \<Rightarrow> bool" where
  "JobID_IsZero t \<longleftrightarrow> t = JobIDNil"

definition JobID_Validate :: "JobID \<Rightarrow> error option" where
  "JobID_Validate t =
     (if JobID_IsZero t then Some (ErrWrap ''validate: %w'' [Sentinel ErrJobIDUuidZero]) else None)"

definition JobID_AsPointer :: "JobID \<Rightarrow> JobID option" where
  "JobID_AsPointer t = (if JobID_IsZero t then None else Some t)"

definition LeaseToken_IsZero :: "LeaseToken \<Rightarrow> bool" where
  "LeaseToken_IsZero t \<longleftrightarrow> t = LeaseTokenNil"

definition LeaseToken_Validate :: "LeaseToken \<Rightarrow> error option" where
  "LeaseToken_Validate t =
     (if LeaseToken_IsZero t then Some (ErrWrap ''validate: %w'' [Sentinel ErrLeaseTokenUUIDZero])
      else None)"

definition MessageID_IsZero :: "MessageID \<Rightarrow> bool" where
  "MessageID_IsZero t \<longleftrightarrow> t = MessageIDNil"

definition MessageID_Validate :: "MessageID \<Rightarrow> error option" where
  "MessageID_Validate t =
     (if MessageID_IsZero t then Some (ErrWrap ''validate: %w'' [Sentinel ErrMessageIDUuidZero])
      else None)"

definition MessageID_AsPointer :: "MessageID \<Rightarrow> MessageID option" where
  "MessageID_AsPointer t = (if MessageID_IsZero t then None else Some t)"

lemmas id_defs [outbox_defs] =
  JobIDNil_def LeaseTokenNil_def MessageIDNil_def JobID_IsZero_def JobID_Validate_def
  LeaseToken_IsZero_def LeaseToken_Validate_def MessageID_IsZero_def MessageID_Validate_def

fun uuid_of_JobID :: "JobID \<Rightarrow> uuid" where
  "uuid_of_JobID (JobID u) = u"

fun uuid_of_MessageID :: "MessageID \<Rightarrow> uuid" where
  "uuid_of_MessageID (MessageID u) = u"

text \<open>\<open>String()\<close> of an identifier, given the text form \<open>str\<close> of a UUID.\<close>

definition JobID_String :: "(uuid \<Rightarrow> string) \<Rightarrow> JobID \<Rightarrow> string" where
  "JobID_String str t = str (uuid_of_JobID t)"

definition MessageID_String :: "(uuid \<Rightarrow> string) \<Rightarrow> MessageID \<Rightarrow> string" where
  "MessageID_String str t = str (uuid_of_MessageID t)"

lemma inj_JobID_String: "inj str \<Longrightarrow> inj (JobID_String str)"
  by (rule injI) (metis JobID_String_def injD uuid_of_JobID.elims)

lemma inj_MessageID_String: "inj str \<Longrightarrow> inj (MessageID_String str)"
  by (rule injI) (metis MessageID_String_def injD uuid_of_MessageID.elims)

lemma JobID_Validate_None [simp]: "JobID_Validate t = None \<longleftrightarrow> t \<noteq> JobIDNil"
  by (simp add: JobID_Validate_def JobID_IsZero_def)

lemma LeaseToken_Validate_None [simp]: "LeaseToken_Validate t = None \<longleftrightarrow> t \<noteq> LeaseTokenNil"
  by (simp add: LeaseToken_Validate_def LeaseToken_IsZero_def)

lemma MessageID_Validate_None [simp]: "MessageID_Validate t = None \<longleftrightarrow> t \<noteq> MessageIDNil"
  by (simp add: MessageID_Validate_def MessageID_IsZero_def)

section \<open>Jobs\<close>

text \<open>\<open>sql.NullTime\<close> and \<open>sql.NullString\<close> are options.\<close>

record Job =
  job_ID :: JobID
  job_Queue :: string
  job_Name :: string
  job_SchemaVersion :: SchemaVersion
  job_Payload :: string
  job_Attempts :: int
  job_ReservedAt :: "time option"
  job_LeaseToken :: LeaseToken
  job_DeduplicationKey :: "string option"
  job_AvailableAt :: time
  job_CreatedAt :: time

record JobFailed =
  failed_ID :: JobID
  failed_JobID :: JobID
  failed_Queue :: string
  failed_Name :: string
  failed_SchemaVersion :: SchemaVersion
  failed_Payload :: string
  failed_Reason :: string
  failed_FailedAt :: time
  failed_CreatedAt :: time
  failed_Connection :: string
  failed_Exception :: string

section \<open>Capabilities\<close>

record JobCapability =
  cap_Name :: string
  cap_SchemaVersion :: SchemaVersion

definition MaxReservationBatchSize :: int where
  "MaxReservationBatchSize = 1000"

definition JobCapability_Validate :: "JobCapability \<Rightarrow> error option" where
  "JobCapability_Validate c =
     (if cap_SchemaVersion c \<le> 0 then Some (ErrWrap ''%w: %d'' [Sentinel ErrInvalidSchemaVersion])
      else None)"

text \<open>What registration reads of a handler: its name, and its schema version when it implements
  the versioned interface.\<close>

definition capabilityForJob :: "string \<Rightarrow> SchemaVersion option \<Rightarrow> error + JobCapability" where
  "capabilityForJob nm versioned =
     (let capability = \<lparr>cap_Name = nm, cap_SchemaVersion = DefaultSchemaVersion\<rparr>;
          capability = (case versioned of
              Some v \<Rightarrow> capability\<lparr>cap_SchemaVersion := v\<rparr> | None \<Rightarrow> capability)
      in case JobCapability_Validate capability of
           Some err \<Rightarrow> Inl err
         | None \<Rightarrow> Inr capability)"

definition capabilityForBatchJob :: "string \<Rightarrow> SchemaVersion option \<Rightarrow> error + JobCapability" where
  "capabilityForBatchJob nm versioned =
     (let capability = \<lparr>cap_Name = nm, cap_SchemaVersion = DefaultSchemaVersion\<rparr>;
          capability = (case versioned of
              Some v \<Rightarrow> capability\<lparr>cap_SchemaVersion := v\<rparr> | None \<Rightarrow> capability)
      in case JobCapability_Validate capability of
           Some err \<Rightarrow> Inl err
         | None \<Rightarrow> Inr capability)"

definition normalizeSchemaVersion :: "SchemaVersion \<Rightarrow> SchemaVersion" where
  "normalizeSchemaVersion version = (if version \<le> 0 then DefaultSchemaVersion else version)"

text \<open>The order of \<open>sortCapabilities\<close>: by name, then by version. Capabilities are the keys of a
  map, so no two of them are equal and the order is total on them.\<close>

definition capability_key :: "JobCapability \<Rightarrow> string \<times> SchemaVersion" where
  "capability_key c = (cap_Name c, cap_SchemaVersion c)"

definition sortCapabilities :: "JobCapability list \<Rightarrow> JobCapability list" where
  "sortCapabilities cs = sort_key capability_key cs"

lemma capability_key_inj: "inj capability_key"
  by (rule injI) (simp add: capability_key_def)

lemma JobCapability_Validate_None [simp]:
  "JobCapability_Validate c = None \<longleftrightarrow> 0 < cap_SchemaVersion c"
  by (auto simp: JobCapability_Validate_def)

lemma JobCapability_Validate_Some:
  "JobCapability_Validate c = Some e \<Longrightarrow> errors_Is (Some e) ErrInvalidSchemaVersion"
  by (auto simp: JobCapability_Validate_def errors_Is_Some split: if_splits)

lemma normalizeSchemaVersion_pos [simp]: "0 < normalizeSchemaVersion v"
  by (simp add: normalizeSchemaVersion_def DefaultSchemaVersion_def)

lemma normalizeSchemaVersion_id: "0 < v \<Longrightarrow> normalizeSchemaVersion v = v"
  by (simp add: normalizeSchemaVersion_def)

lemma capabilityForJob_Inr:
  "capabilityForJob nm v = Inr c \<longleftrightarrow>
     cap_Name c = nm \<and> cap_SchemaVersion c = case_option DefaultSchemaVersion id v \<and>
     0 < cap_SchemaVersion c"
  by (cases c) (auto simp: capabilityForJob_def JobCapability_Validate_def Let_def
      split: option.splits if_splits)

lemma capabilityForBatchJob_eq: "capabilityForBatchJob = capabilityForJob"
  by (simp add: fun_eq_iff capabilityForBatchJob_def capabilityForJob_def)

text \<open>The capability of a persisted job, as the service derives it.\<close>

definition job_capability :: "Job \<Rightarrow> JobCapability" where
  "job_capability job =
     \<lparr>cap_Name = job_Name job, cap_SchemaVersion = normalizeSchemaVersion (job_SchemaVersion job)\<rparr>"

text \<open>A text form of UUIDs for concrete evaluations: unary, hence injective.\<close>

definition sample_str :: "uuid \<Rightarrow> string" where
  "sample_str u = replicate (unat u) (CHR ''i'')"

lemma inj_sample_str: "inj sample_str"
proof (rule injI)
  fix u v :: uuid
  assume "sample_str u = sample_str v"
  then have "length (sample_str u) = length (sample_str v)"
    by simp
  then show "u = v"
    by (simp add: sample_str_def unsigned_word_eqI)
qed

end
