(* ===== verification/Disposition.thy ===== *)
theory Disposition
  imports Outbox_Types
begin

text \<open>
  The dispositions a handler attaches to its error, src/outbox/disposition.go: permanent
  failure, retry at a time, and defer at a time without consuming an attempt. They are found
  again by \<open>errors.As\<close>, through any number of wrapping errors.
\<close>

fun as_permanent :: "error \<Rightarrow> error option" where
  "as_permanent (PermanentError e) = Some (PermanentError e)"
| "as_permanent _ = None"

fun as_retryAt :: "error \<Rightarrow> time option" where
  "as_retryAt (RetryAtError _ at) = Some at"
| "as_retryAt _ = None"

fun as_deferAt :: "error \<Rightarrow> time option" where
  "as_deferAt (DeferAtError _ at) = Some at"
| "as_deferAt _ = None"

definition IsPermanent :: "error option \<Rightarrow> bool" where
  "IsPermanent err = (case err of None \<Rightarrow> False | Some e \<Rightarrow> errors_As as_permanent e \<noteq> None)"

definition Permanent :: "error option \<Rightarrow> error option" where
  "Permanent err = (if err = None \<or> IsPermanent err then err else map_option PermanentError err)"

definition RetryAt :: "error option \<Rightarrow> time \<Rightarrow> error option" where
  "RetryAt err at = (case err of None \<Rightarrow> None | Some e \<Rightarrow> Some (RetryAtError e at))"

definition RetryTime :: "error option \<Rightarrow> time option" where
  "RetryTime err = (case err of None \<Rightarrow> None | Some e \<Rightarrow> errors_As as_retryAt e)"

definition DeferAt :: "error option \<Rightarrow> time \<Rightarrow> error option" where
  "DeferAt err at = (case err of None \<Rightarrow> None | Some e \<Rightarrow> Some (DeferAtError e at))"

definition DeferTime :: "error option \<Rightarrow> time option" where
  "DeferTime err = (case err of None \<Rightarrow> None | Some e \<Rightarrow> errors_As as_deferAt e)"

definition hasDeferTime :: "error option \<Rightarrow> bool" where
  "hasDeferTime err = (DeferTime err \<noteq> None)"

text \<open>The panic marker of a batch handler, found by the same traversal.\<close>

fun as_panic :: "error \<Rightarrow> (string \<times> string) option" where
  "as_panic (HandlerPanicError n v) = Some (n, v)"
| "as_panic _ = None"

definition IsHandlerPanic :: "error option \<Rightarrow> bool" where
  "IsHandlerPanic err = (case err of None \<Rightarrow> False | Some e \<Rightarrow> errors_As as_panic e \<noteq> None)"

lemma as_permanent_neq_None [simp]: "as_permanent e \<noteq> None \<longleftrightarrow> (\<exists>x. e = PermanentError x)"
  by (cases e) auto

lemma as_deferAt_neq_None [simp]: "as_deferAt e \<noteq> None \<longleftrightarrow> (\<exists>x at. e = DeferAtError x at)"
  by (cases e) auto

lemma IsPermanent_Some:
  "IsPermanent (Some e) \<longleftrightarrow> (\<exists>x. contains_error e (PermanentError x))"
  using errors_As_None_iff [of as_permanent e] as_permanent_neq_None
  by (auto simp: IsPermanent_def)

lemma IsPermanent_None [simp]: "\<not> IsPermanent None"
  by (simp add: IsPermanent_def)

lemma IsPermanent_Permanent: "err \<noteq> None \<Longrightarrow> IsPermanent (Permanent err)"
  by (auto simp: Permanent_def IsPermanent_Some)

lemma Permanent_idem [simp]: "Permanent (Permanent err) = Permanent err"
  by (cases err) (auto simp: Permanent_def IsPermanent_Some)

lemma Permanent_None_iff [simp]: "Permanent err = None \<longleftrightarrow> err = None"
  by (auto simp: Permanent_def)

lemma RetryTime_RetryAt [simp]: "RetryTime (RetryAt (Some e) at) = Some at"
  by (simp add: RetryTime_def RetryAt_def errors_As.simps)

lemma DeferTime_DeferAt [simp]: "DeferTime (DeferAt (Some e) at) = Some at"
  by (simp add: DeferTime_def DeferAt_def errors_As.simps)

lemma marker_None [simp]:
  "RetryAt None at = None" "DeferAt None at = None" "RetryTime None = None" "DeferTime None = None"
  by (simp_all add: RetryAt_def DeferAt_def RetryTime_def DeferTime_def)

end
