(* ===== verification/Retry_Policy.thy ===== *)
theory Retry_Policy
  imports Disposition
begin

text \<open>
  Retry scheduling: src/outbox/retry_policy.go and the two backoff functions of
  src/outbox/service_execution_batch.go. Durations are Go's signed 64-bit integers and the
  doubling wraps around where the code would; the theorems show that it never does.
\<close>

section \<open>Policies\<close>

record RetryAttempt =
  ra_JobID :: JobID
  ra_Capability :: JobCapability
  ra_Attempt :: int
  ra_Err :: "error option"

text \<open>A call of a policy returns a delay or panics with a value.\<close>

datatype 'a call = Returns 'a | Panics string

type_synonym retry_policy = "RetryAttempt \<Rightarrow> duration call"

record exponentialRetryPolicy =
  baseDelay :: duration
  maxDelay :: duration
  jitter :: "(duration \<Rightarrow> duration call) option"

definition NewExponentialRetryPolicy ::
  "duration \<Rightarrow> duration \<Rightarrow> (duration \<Rightarrow> duration call) option \<Rightarrow> error + exponentialRetryPolicy" where
  "NewExponentialRetryPolicy base maximum j =
     (if base \<le> 0 \<or> maximum \<le> 0 \<or> base > maximum
      then Inl (ErrWrap ''%w: require 0 < base delay <= maximum delay'' [Sentinel ErrRetryPolicy])
      else Inr \<lparr>baseDelay = base, maxDelay = maximum, jitter = j\<rparr>)"

text \<open>The loop of \<open>RetryDelay\<close>: \<open>for step := 1; step < attempt && delay < max; step++\<close>, with the
  early exit when doubling would pass the maximum.\<close>

function backoff_loop :: "int \<Rightarrow> int \<Rightarrow> duration \<Rightarrow> duration \<Rightarrow> duration" where
  "backoff_loop step attempt maximum delay =
     (if step < attempt \<and> delay < maximum
      then (if delay > go_div maximum 2 then maximum
            else backoff_loop (step + 1) attempt maximum (int64 (delay * 2)))
      else delay)"
  by pat_completeness auto
termination
  by (relation "measure (\<lambda>(step, attempt, _, _). nat (attempt - step))") auto

declare backoff_loop.simps [simp del]

definition RetryDelay :: "exponentialRetryPolicy \<Rightarrow> retry_policy" where
  "RetryDelay p attempt =
     (let delay = backoff_loop 1 (ra_Attempt attempt) (maxDelay p) (baseDelay p)
      in case jitter p of
           None \<Rightarrow> Returns (min delay (maxDelay p))
         | Some j \<Rightarrow> (case j delay of
               Panics v \<Rightarrow> Panics v
             | Returns d \<Rightarrow> Returns (min d (maxDelay p))))"

definition retryPolicyDelay :: "retry_policy \<Rightarrow> RetryAttempt \<Rightarrow> error + duration" where
  "retryPolicyDelay policy attempt =
     (case policy attempt of
        Panics _ \<Rightarrow> Inl (ErrWrap ''%w: panic: %v stack: %s'' [Sentinel ErrRetryPolicy])
      | Returns delay \<Rightarrow>
          if delay < 0 then Inl (ErrWrap ''%w: negative delay %s'' [Sentinel ErrRetryPolicy])
          else Inr delay)"

text \<open>\<open>Service.retryTime\<close>: an explicit \<open>RetryAt\<close> wins, never in the past; otherwise the configured
  policy, or the delay the caller brings along.\<close>

definition retryTime ::
  "retry_policy option \<Rightarrow> Job \<Rightarrow> error option \<Rightarrow> time \<Rightarrow> duration \<Rightarrow> error + time" where
  "retryTime policy job handleErr now legacyDelay =
     (case RetryTime handleErr of
        Some at \<Rightarrow> if at < now then Inr now else Inr at
      | None \<Rightarrow>
          (case policy of
             None \<Rightarrow> Inr (now + legacyDelay)
           | Some p \<Rightarrow>
               (case retryPolicyDelay p
                   \<lparr>ra_JobID = job_ID job, ra_Capability = job_capability job,
                    ra_Attempt = job_Attempts job, ra_Err = handleErr\<rparr> of
                  Inl err \<Rightarrow> Inl err
                | Inr delay \<Rightarrow> Inr (now + delay))))"

section \<open>Batch backoff\<close>

definition batchRetryBase :: duration where
  "batchRetryBase = 100 * millisecond"

definition batchRetryMaximum :: duration where
  "batchRetryMaximum = 30 * second"

definition batchAttemptBackoff :: "int \<Rightarrow> duration" where
  "batchAttemptBackoff attempt =
     (let attempt = (if attempt < 1 then 1 else attempt)
      in min (backoff_loop 1 attempt batchRetryMaximum batchRetryBase) batchRetryMaximum)"

section \<open>The closed form of the loop\<close>

text \<open>The invariant of the loop: after \<open>step - 1\<close> doublings that stayed below the maximum the
  remaining ones are counted by the exponent, and the product never leaves 64 bits.\<close>

lemma backoff_loop_closed:
  assumes "0 < delay" "delay \<le> maximum" "maximum < 2 ^ 63" "step \<le> attempt"
  shows "backoff_loop step attempt maximum delay = min (delay * 2 ^ nat (attempt - step)) maximum"
  using assms
proof (induction step attempt maximum delay rule: backoff_loop.induct)
  case (1 step attempt maximum delay)
  show ?case
  proof (cases "step < attempt \<and> delay < maximum")
    case False
    then have "step = attempt \<or> delay = maximum"
      using "1.prems" by auto
    moreover have "maximum \<le> maximum * 2 ^ nat (attempt - step)"
      using "1.prems" by (simp add: mult_le_cancel_left1)
    ultimately show ?thesis
      using False "1.prems" by (auto simp: backoff_loop.simps [of step])
  next
    case True
    have pow: "2 ^ nat (attempt - step) = 2 * (2::int) ^ nat (attempt - (step + 1))"
      using True by (simp flip: power_Suc add: Suc_nat_eq_nat_zadd1)
    show ?thesis
    proof (cases "delay > maximum div 2")
      case high: True
      have "maximum \<le> delay * 2"
        using high by linarith
      also have "\<dots> \<le> delay * 2 ^ nat (attempt - step)"
        using "1.prems"(1) by (simp add: pow)
      finally show ?thesis
        using True high "1.prems" by (simp add: backoff_loop.simps [of step])
    next
      case False
      have le: "delay * 2 \<le> maximum"
        using False by linarith
      have "int64 (delay * 2) = delay * 2"
        using le "1.prems" by (intro int64_id) auto
      moreover have "backoff_loop (step + 1) attempt maximum (delay * 2) =
          min (delay * 2 * 2 ^ nat (attempt - (step + 1))) maximum"
        using "1.IH" [OF True] False le "1.prems" True \<open>int64 (delay * 2) = delay * 2\<close> by simp
      ultimately show ?thesis
        using True False "1.prems" by (simp add: backoff_loop.simps [of step] pow mult.assoc)
    qed
  qed
qed

lemma backoff_loop_first: "attempt \<le> 1 \<Longrightarrow> backoff_loop 1 attempt maximum delay = delay"
  by (simp add: backoff_loop.simps)

lemma backoff_loop_from_1:
  assumes "0 < delay" "delay \<le> maximum" "maximum < 2 ^ 63"
  shows "backoff_loop 1 attempt maximum delay = min (delay * 2 ^ nat (attempt - 1)) maximum"
proof (cases "1 \<le> attempt")
  case True
  then show ?thesis
    using assms by (simp add: backoff_loop_closed)
next
  case False
  then show ?thesis
    using assms by (simp add: backoff_loop_first min_def)
qed

lemma retryTime_not_before:
  assumes "retryTime policy job err now legacy = Inr at" "0 \<le> legacy"
  shows "now \<le> at"
  using assms
  by (auto simp: retryTime_def retryPolicyDelay_def split: option.splits if_splits sum.splits call.splits)

section \<open>Properties\<close>

text \<open>C26. A policy that the constructor accepts and that has no jitter returns, for every persisted
  attempt number, exactly the base delay doubled once per attempt after the first and capped at
  the maximum: the doubling never overflows a 64-bit duration.\<close>

theorem exponential_delay_exact:
  assumes "NewExponentialRetryPolicy base maximum None = Inr p" "maximum < 2 ^ 63"
  shows "RetryDelay p attempt = Returns (min (base * 2 ^ nat (ra_Attempt attempt - 1)) maximum)"
proof -
  have "0 < base" "base \<le> maximum" and p: "p = \<lparr>baseDelay = base, maxDelay = maximum, jitter = None\<rparr>"
    using assms(1) by (auto simp: NewExponentialRetryPolicy_def split: if_splits)
  then show ?thesis
    using assms(2) by (simp add: RetryDelay_def Let_def backoff_loop_from_1)
qed

definition sample_attempt :: "int \<Rightarrow> RetryAttempt" where
  "sample_attempt n =
     \<lparr>ra_JobID = JobID 7, ra_Capability = \<lparr>cap_Name = ''relay'', cap_SchemaVersion = 1\<rparr>,
      ra_Attempt = n, ra_Err = Some (ErrNew ''boom'')\<rparr>"

theorem exponential_delay_exact_witness:
  "RetryDelay \<lparr>baseDelay = 100, maxDelay = 1000, jitter = None\<rparr> (sample_attempt 4) = Returns 800 \<and>
   RetryDelay \<lparr>baseDelay = 100, maxDelay = 1000, jitter = None\<rparr> (sample_attempt 90) = Returns 1000"
proof -
  have p: "NewExponentialRetryPolicy 100 1000 None = Inr \<lparr>baseDelay = 100, maxDelay = 1000, jitter = None\<rparr>"
    by (simp add: NewExponentialRetryPolicy_def)
  show ?thesis
    using exponential_delay_exact [OF p, of "sample_attempt 4"]
      exponential_delay_exact [OF p, of "sample_attempt 90"]
    by (simp add: sample_attempt_def)
qed

text \<open>C27. The backoff of batch items and of top-level batch failures is 100 milliseconds doubled for
  every attempt after the first, capped at 30 seconds, for every attempt number, also those below
  one.\<close>

theorem batchAttemptBackoff_exact:
  "batchAttemptBackoff attempt = min (batchRetryBase * 2 ^ nat (attempt - 1)) batchRetryMaximum"
proof -
  have "0 < batchRetryBase" "batchRetryBase \<le> batchRetryMaximum" "batchRetryMaximum < 2 ^ 63"
    by (simp_all add: batchRetryBase_def batchRetryMaximum_def millisecond_def second_def)
  then show ?thesis
    by (auto simp: batchAttemptBackoff_def Let_def backoff_loop_from_1)
qed

text \<open>C28. A counted failure is rescheduled at a time that is never in the past, or reported as
  ErrRetryPolicy. It is reported exactly when the handler asked for no time of its own and the
  configured policy, asked about this attempt, panicked or answered a negative delay; a policy that
  answers otherwise is followed, and a time the handler asked for is kept unless it has passed.\<close>

theorem retryTime_never_past:
  fixes policy :: "retry_policy option" and job :: Job and err :: "error option" and now legacyDelay
  assumes "0 \<le> legacyDelay"
  defines "result \<equiv> retryTime policy job err now legacyDelay"
    and "attempt \<equiv> \<lparr>ra_JobID = job_ID job, ra_Capability = job_capability job, ra_Attempt = job_Attempts job, ra_Err = err\<rparr>"
  shows "(\<forall>at. result = Inr at \<longrightarrow> now \<le> at) \<and>
    (\<forall>e. result = Inl e \<longrightarrow> errors_Is (Some e) ErrRetryPolicy) \<and>
    (isl result \<longleftrightarrow> RetryTime err = None \<and>
       (\<exists>p. policy = Some p \<and> (case p attempt of Panics _ \<Rightarrow> True | Returns delay \<Rightarrow> delay < 0))) \<and>
    (\<forall>p delay. RetryTime err = None \<longrightarrow> policy = Some p \<longrightarrow> p attempt = Returns delay \<longrightarrow> 0 \<le> delay \<longrightarrow>
       result = Inr (now + delay)) \<and>
    (\<forall>at. RetryTime err = Some at \<longrightarrow> result = Inr (max now at))"
proof (intro conjI allI impI)
  show "now \<le> at" if "result = Inr at" for at
    using that assms(1) unfolding result_def by (rule retryTime_not_before)
  show "errors_Is (Some e) ErrRetryPolicy" if "result = Inl e" for e
    using that by (auto simp: result_def retryTime_def retryPolicyDelay_def errors_Is_Some
        split: option.splits if_splits sum.splits call.splits)
qed (auto simp: result_def attempt_def retryTime_def retryPolicyDelay_def max_def
    split: option.splits if_splits sum.splits call.splits)

definition sample_job :: Job where
  "sample_job = \<lparr>job_ID = JobID 7, job_Queue = ''queue'', job_Name = ''relay'',
     job_SchemaVersion = 1, job_Payload = ''abc'', job_Attempts = 1, job_ReservedAt = None,
     job_LeaseToken = LeaseToken 0, job_DeduplicationKey = None, job_AvailableAt = 0,
     job_CreatedAt = 0\<rparr>"

text \<open>A policy that panics is reported; one that answers is followed.\<close>

theorem retryTime_never_past_witness:
  "isl (retryTime (Some (\<lambda>_. Panics ''division by zero'')) sample_job (Some (ErrNew ''boom'')) 50 0) \<and>
   retryTime (Some (\<lambda>a. Returns (10 * ra_Attempt a))) sample_job (Some (ErrNew ''boom'')) 50 0 = Inr 60"
proof -
  have none: "RetryTime (Some (ErrNew ''boom'')) = None" "job_Attempts sample_job = 1"
    by (simp_all add: RetryTime_def errors_As.simps sample_job_def)
  show ?thesis
    using retryTime_never_past [of 0 "Some (\<lambda>_. Panics ''division by zero'')" sample_job "Some (ErrNew ''boom'')" 50]
      retryTime_never_past [of 0 "Some (\<lambda>a. Returns (10 * ra_Attempt a))" sample_job "Some (ErrNew ''boom'')" 50]
    by (simp add: none)
qed

end
