(* ===== verification/Batch_Model.thy ===== *)
theory Batch_Model
  imports Retry_Policy
begin

text \<open>
  True handler batches: the configuration, the keyed handler result, the repository-facing
  outcomes and the pure checks around a claim. Sources: src/outbox/batch.go, the pure functions
  of src/outbox/service_execution_batch.go and \<open>validateClaimedJobLease\<close> of
  src/outbox/service_batch.go.
\<close>

section \<open>Configuration\<close>

record BatchConfig =
  bc_MaxMessages :: int
  bc_MaxBytes :: int
  bc_MaxWait :: duration

definition defaultBatchMaxMessages :: int where "defaultBatchMaxMessages = 100"
definition defaultBatchMaxBytes :: int where "defaultBatchMaxBytes = 4 * 2 ^ 20"
definition defaultBatchMaxWait :: duration where "defaultBatchMaxWait = 25 * millisecond"
definition MaxInt32 :: int where "MaxInt32 = 2 ^ 31 - 1"

definition BatchConfig_normalize :: "BatchConfig \<Rightarrow> error + BatchConfig" where
  "BatchConfig_normalize c =
     (if bc_MaxMessages c < 0 \<or> bc_MaxBytes c < 0 \<or> bc_MaxWait c < 0
      then Inl (ErrNew ''outbox batch limits must not be negative'')
      else
        let result = c;
            result = (if bc_MaxMessages result = 0
                      then result\<lparr>bc_MaxMessages := defaultBatchMaxMessages\<rparr> else result);
            result = (if bc_MaxBytes result = 0
                      then result\<lparr>bc_MaxBytes := defaultBatchMaxBytes\<rparr> else result);
            result = (if bc_MaxWait result = 0
                      then result\<lparr>bc_MaxWait := defaultBatchMaxWait\<rparr> else result)
        in if bc_MaxMessages result > MaxReservationBatchSize
           then Inl (ErrNew ''outbox batch maximum messages %d exceeds %d'')
           else if bc_MaxBytes result > MaxInt32
           then Inl (ErrNew ''outbox batch maximum bytes %d overflows supported bound'')
           else Inr result)"

section \<open>Items, results and outcomes\<close>

record BatchJobItem =
  bi_JobID :: JobID
  bi_Payload :: string
  bi_Attempt :: int

record BatchItemResult =
  br_JobID :: JobID
  br_Err :: "error option"

datatype BatchJobOutcomeKind =
    BatchJobOutcomeSuccess | BatchJobOutcomeRetry | BatchJobOutcomeDefer | BatchJobOutcomeDLQ
  | BatchJobOutcomeUnknown nat

record BatchJobOutcome =
  bo_JobID :: JobID
  bo_Kind :: BatchJobOutcomeKind
  bo_AvailableAt :: time
  bo_Reason :: string

record BatchClaimLimits =
  bl_MaxMessages :: int
  bl_MaxBytes :: int

section \<open>The result of a batch handler\<close>

text \<open>\<open>validateBatchResult\<close>: the first loop indexes the input by its identifiers, the second places
  each returned error at the position of its identifier.\<close>

fun index_inputs :: "nat \<Rightarrow> BatchJobItem list \<Rightarrow> (JobID \<rightharpoonup> nat) \<Rightarrow> error + (JobID \<rightharpoonup> nat)" where
  "index_inputs index [] positions = Inr positions"
| "index_inputs index (item # items) positions =
     (if JobID_IsZero (bi_JobID item)
      then Inl (ErrWrap ''%w: input %d has an empty JobID'' [Sentinel ErrInvalidBatchResult])
      else if positions (bi_JobID item) \<noteq> None
      then Inl (ErrWrap ''%w: duplicate input JobID %s'' [Sentinel ErrInvalidBatchResult])
      else index_inputs (Suc index) items (positions(bi_JobID item \<mapsto> index)))"

fun place_results ::
  "(JobID \<rightharpoonup> nat) \<Rightarrow> BatchItemResult list \<Rightarrow> JobID set \<Rightarrow> error option list \<Rightarrow> error + error option list" where
  "place_results positions [] seen errs = Inr errs"
| "place_results positions (item # items) seen errs =
     (case positions (br_JobID item) of
        None \<Rightarrow> Inl (ErrWrap ''%w: unknown JobID %s'' [Sentinel ErrInvalidBatchResult])
      | Some position \<Rightarrow>
          if br_JobID item \<in> seen
          then Inl (ErrWrap ''%w: duplicate JobID %s'' [Sentinel ErrInvalidBatchResult])
          else place_results positions items (insert (br_JobID item) seen)
                 (errs[position := br_Err item]))"

definition validateBatchResult ::
  "BatchJobItem list \<Rightarrow> BatchItemResult list \<Rightarrow> error + error option list" where
  "validateBatchResult input result =
     (if length result \<noteq> length input
      then Inl (ErrWrap ''%w: got %d items for %d inputs'' [Sentinel ErrInvalidBatchResult])
      else case index_inputs 0 input Map.empty of
             Inl err \<Rightarrow> Inl err
           | Inr positions \<Rightarrow> place_results positions result {} (replicate (length input) None))"

section \<open>Checks of a claim\<close>

definition payload_len :: "Job \<Rightarrow> int" where
  "payload_len job = int (length (job_Payload job))"

definition validateClaimedJobLease :: "Job \<Rightarrow> LeaseToken \<Rightarrow> time \<Rightarrow> error option" where
  "validateClaimedJobLease job token now =
     (if job_LeaseToken job \<noteq> token
      then Some (ErrWrap ''%w: invalid lease token for job %s'' [Sentinel ErrLeaseLost])
      else case job_ReservedAt job of
             None \<Rightarrow> Some (ErrWrap ''%w: invalid or expired claimed lease for job %s'' [Sentinel ErrLeaseLost])
           | Some r \<Rightarrow>
               if \<not> r > now
               then Some (ErrWrap ''%w: invalid or expired claimed lease for job %s'' [Sentinel ErrLeaseLost])
               else None)"

text \<open>The loop of \<open>validateBoundedExecutionBatchPayload\<close>; \<open>njobs\<close> is the number of claimed jobs.\<close>

fun bounded_payload_loop :: "nat \<Rightarrow> nat \<Rightarrow> int \<Rightarrow> int \<Rightarrow> Job list \<Rightarrow> error option" where
  "bounded_payload_loop njobs index maxBytes usedBytes [] = None"
| "bounded_payload_loop njobs index maxBytes usedBytes (job # jobs) =
     (if index = 0 \<and> payload_len job > maxBytes
      then (if njobs = 1 then None
            else Some (ErrWrap ''%w: bounded batch returned %d jobs after oversized first payload''
                   [Sentinel ErrUnsupportedClaim]))
      else if payload_len job > maxBytes - usedBytes
      then Some (ErrWrap ''%w: bounded batch payload exceeds %d bytes at job %s''
             [Sentinel ErrUnsupportedClaim])
      else bounded_payload_loop njobs (Suc index) maxBytes (usedBytes + payload_len job) jobs)"

definition validateBoundedExecutionBatchPayload :: "Job list \<Rightarrow> int \<Rightarrow> error option" where
  "validateBoundedExecutionBatchPayload jobs maxBytes =
     bounded_payload_loop (length jobs) 0 maxBytes 0 jobs"

text \<open>The loop of \<open>validateClaimedExecutionBatch\<close> reads the clock once per job.\<close>

fun claimed_batch_loop ::
  "'w runtime \<Rightarrow> JobCapability \<Rightarrow> LeaseToken \<Rightarrow> JobID set \<Rightarrow> Job list \<Rightarrow> 'w \<Rightarrow> error option \<times> 'w" where
  "claimed_batch_loop rt capability leaseToken seen [] w = (None, w)"
| "claimed_batch_loop rt capability leaseToken seen (job # jobs) w =
     (if job_capability job \<noteq> capability
      then (Some (ErrWrap ''%w: claimed %s schema version %d for %s schema version %d''
              [Sentinel ErrUnsupportedClaim]), w)
      else let (now, w) = time_Now rt w
           in case validateClaimedJobLease job leaseToken now of
                Some err \<Rightarrow> (Some err, w)
              | None \<Rightarrow>
                  if job_ID job \<in> seen
                  then (Some (ErrWrap ''%w: duplicate claimed job %s'' [Sentinel ErrLeaseLost]), w)
                  else claimed_batch_loop rt capability leaseToken (insert (job_ID job) seen) jobs w)"

definition validateClaimedExecutionBatch ::
  "'w runtime \<Rightarrow> Job list \<Rightarrow> JobCapability \<Rightarrow> LeaseToken \<Rightarrow> int \<Rightarrow> 'w \<Rightarrow> error option \<times> 'w" where
  "validateClaimedExecutionBatch rt jobs capability leaseToken limit w =
     (if jobs = [] then (Some (Sentinel ErrEmptyReservationBatch), w)
      else if int (length jobs) > limit
      then (Some (ErrNew ''batch repository returned %d jobs for limit %d''), w)
      else claimed_batch_loop rt capability leaseToken {} jobs w)"

text \<open>\<open>selectBatchPayloadLimitWithUsed\<close>: the longest prefix that still fits, and the rest.\<close>

fun selectBatchPayloadLimitWithUsed :: "Job list \<Rightarrow> int \<Rightarrow> int \<Rightarrow> Job list \<times> Job list" where
  "selectBatchPayloadLimitWithUsed [] maxBytes used = ([], [])"
| "selectBatchPayloadLimitWithUsed (job # jobs) maxBytes used =
     (if used + payload_len job > maxBytes then ([], job # jobs)
      else let (selected, tail) = selectBatchPayloadLimitWithUsed jobs maxBytes (used + payload_len job)
           in (job # selected, tail))"

definition execution_key :: "(uuid \<Rightarrow> string) \<Rightarrow> Job \<Rightarrow> time \<times> time \<times> string" where
  "execution_key str job = (job_AvailableAt job, job_CreatedAt job, JobID_String str (job_ID job))"

text \<open>\<open>sort.Slice\<close> is not stable, but the keys of distinct jobs differ.\<close>

definition sortExecutionBatchJobs :: "(uuid \<Rightarrow> string) \<Rightarrow> Job list \<Rightarrow> Job list" where
  "sortExecutionBatchJobs str jobs = sort_key (execution_key str) jobs"

definition leaseFinalizationTimeout :: duration where
  "leaseFinalizationTimeout = 5 * second"

definition batchDLQInsertAllowance :: duration where
  "batchDLQInsertAllowance = 25 * millisecond"

definition batchFinalizationMargin :: duration where
  "batchFinalizationMargin = second"

fun finalization_timeout_loop :: "duration \<Rightarrow> BatchJobOutcome list \<Rightarrow> duration" where
  "finalization_timeout_loop timeout [] = timeout"
| "finalization_timeout_loop timeout (outcome # outcomes) =
     finalization_timeout_loop
       (if bo_Kind outcome = BatchJobOutcomeDLQ then timeout + batchDLQInsertAllowance else timeout)
       outcomes"

definition executionBatchFinalizationTimeout :: "BatchJobOutcome list \<Rightarrow> duration" where
  "executionBatchFinalizationTimeout outcomes =
     finalization_timeout_loop leaseFinalizationTimeout outcomes"

definition dlqExecutionBatchOutcome :: "Job \<Rightarrow> string \<Rightarrow> BatchJobOutcome" where
  "dlqExecutionBatchOutcome job reason =
     \<lparr>bo_JobID = job_ID job, bo_Kind = BatchJobOutcomeDLQ, bo_AvailableAt = zero_time,
      bo_Reason = reason\<rparr>"

section \<open>Lemmas on the keyed result\<close>

lemma index_inputs_Inr:
  "index_inputs n items pos = Inr pos' \<longleftrightarrow>
     (\<forall>it \<in> set items. bi_JobID it \<noteq> JobIDNil \<and> bi_JobID it \<notin> dom pos) \<and>
     distinct (map bi_JobID items) \<and>
     pos' = pos ++ map_of (zip (map bi_JobID items) [n ..< n + length items])"
proof (induction items arbitrary: n pos)
  case Nil
  then show ?case by auto
next
  case (Cons it items)
  have upt: "[n ..< n + length (it # items)] = n # [Suc n ..< Suc n + length items]"
    using upt_conv_Cons [of n "n + length (it # items)"] by simp
  have upd: "pos(bi_JobID it \<mapsto> n) ++ map_of (zip (map bi_JobID items) [Suc n ..< Suc n + length items]) =
    pos ++ map_of (zip (map bi_JobID (it # items)) [n ..< n + length (it # items)])"
    if "\<forall>x \<in> set items. bi_JobID x \<noteq> bi_JobID it"
  proof -
    have "dom (map_of (zip (map bi_JobID items) [Suc n ..< Suc n + length items])) = set (map bi_JobID items)"
      by (subst dom_map_of_zip) (auto simp del: upt_Suc)
    then have "bi_JobID it \<notin> dom (map_of (zip (map bi_JobID items) [Suc n ..< Suc n + length items]))"
      using that by auto
    then have "pos(bi_JobID it \<mapsto> n) ++ map_of (zip (map bi_JobID items) [Suc n ..< Suc n + length items]) =
      (pos ++ map_of (zip (map bi_JobID items) [Suc n ..< Suc n + length items]))(bi_JobID it \<mapsto> n)"
      by (rule map_add_upd_left)
    then show ?thesis
      unfolding upt by (simp del: upt_Suc)
  qed
  define full where
    "full = pos ++ map_of (zip (map bi_JobID (it # items)) [n ..< n + length (it # items)])"
  have IH: "index_inputs (Suc n) items (pos(bi_JobID it \<mapsto> n)) = Inr pos' \<longleftrightarrow>
      (\<forall>x \<in> set items. bi_JobID x \<noteq> JobIDNil \<and> bi_JobID x \<noteq> bi_JobID it \<and> bi_JobID x \<notin> dom pos) \<and>
      distinct (map bi_JobID items) \<and> pos' = full"
    using upd unfolding Cons.IH full_def [symmetric] by (auto simp del: upt_Suc)
  show ?case
    unfolding full_def [symmetric] using IH by (auto simp: JobID_IsZero_def) (metis image_eqI)+
qed

lemma place_results_Inr:
  "place_results pos rs seen errs = Inr errs' \<longleftrightarrow>
     (\<forall>r \<in> set rs. br_JobID r \<in> dom pos \<and> br_JobID r \<notin> seen) \<and> distinct (map br_JobID rs) \<and>
     errs' = fold (\<lambda>r es. es[the (pos (br_JobID r)) := br_Err r]) rs errs"
  by (induction rs arbitrary: seen errs) (auto split: option.splits if_splits, metis image_eqI)

lemma place_results_Inl:
  "place_results pos rs seen errs = Inl e \<Longrightarrow> errors_Is (Some e) ErrInvalidBatchResult"
  by (induction rs arbitrary: seen errs) (auto simp: errors_Is_Some split: option.splits if_splits)

lemma index_inputs_Inl:
  "index_inputs n items pos = Inl e \<Longrightarrow> errors_Is (Some e) ErrInvalidBatchResult"
  by (induction items arbitrary: n pos) (auto simp: errors_Is_Some split: if_splits)

lemma validateBatchResult_Inl:
  "validateBatchResult input result = Inl e \<Longrightarrow> errors_Is (Some e) ErrInvalidBatchResult"
  by (auto simp: validateBatchResult_def errors_Is_Some split: if_splits sum.splits
      dest: index_inputs_Inl place_results_Inl)

lemma fold_place_length [simp]: "length (fold (\<lambda>r es. es[f r := g r]) rs errs) = length errs"
  by (induction rs arbitrary: errs) auto

lemma fold_place_other: "(\<And>r. r \<in> set rs \<Longrightarrow> f r \<noteq> i) \<Longrightarrow> fold (\<lambda>r es. es[f r := g r]) rs errs ! i = errs ! i"
  by (induction rs arbitrary: errs) auto

lemma fold_place_nth:
  assumes "r \<in> set rs" "distinct (map f rs)" "f r < length errs"
  shows "fold (\<lambda>r es. es[f r := g r]) rs errs ! f r = g r"
  using assms
proof (induction rs arbitrary: errs)
  case Nil
  then show ?case by simp
next
  case (Cons x rs)
  show ?case
  proof (cases "x = r")
    case True
    then have "\<And>y. y \<in> set rs \<Longrightarrow> f y \<noteq> f r"
      using Cons.prems(2) by (metis distinct.simps(2) image_eqI list.map(2) list.set_map)
    then show ?thesis
      using True Cons.prems(3) by (simp add: fold_place_other)
  next
    case False
    then show ?thesis
      using Cons by simp
  qed
qed

text \<open>The error a result carries for a job.\<close>

definition result_error :: "BatchItemResult list \<Rightarrow> JobID \<Rightarrow> error option option" where
  "result_error rs i = map_of (map (\<lambda>r. (br_JobID r, br_Err r)) rs) i"

lemma result_error_in:
  "distinct (map br_JobID rs) \<Longrightarrow> r \<in> set rs \<Longrightarrow> result_error rs (br_JobID r) = Some (br_Err r)"
  unfolding result_error_def
  by (rule map_of_is_SomeI) (auto simp: comp_def)

lemma index_positions:
  assumes "distinct (map bi_JobID items)" "i < length items"
  shows "map_of (zip (map bi_JobID items) [0 ..< length items]) (bi_JobID (items ! i)) = Some i"
  using assms by (intro map_of_is_SomeI) (auto simp: in_set_zip intro!: exI [of _ i])

lemma permutation_iff:
  assumes "distinct ys"
  shows "length xs = length ys \<and> set xs \<subseteq> set ys \<and> distinct xs \<longleftrightarrow> mset xs = mset ys"
proof
  assume a: "length xs = length ys \<and> set xs \<subseteq> set ys \<and> distinct xs"
  then have "set xs = set ys"
    using assms by (intro card_subset_eq) (auto simp: distinct_card)
  then show "mset xs = mset ys"
    using a assms set_eq_iff_mset_eq_distinct by blast
next
  assume a: "mset xs = mset ys"
  then show "length xs = length ys \<and> set xs \<subseteq> set ys \<and> distinct xs"
    using assms by (metis mset_eq_imp_distinct_iff mset_eq_length mset_eq_setD order_refl)
qed

lemma placed_errors:
  assumes d: "distinct (map bi_JobID input)"
    and m: "mset (map br_JobID result) = mset (map bi_JobID input)"
  shows "fold (\<lambda>r es. es[the (map_of (zip (map bi_JobID input) [0 ..< length input]) (br_JobID r)) := br_Err r])
      result (replicate (length input) None) =
    map (\<lambda>item. the (result_error result (bi_JobID item))) input"
    (is "fold (\<lambda>r es. es[?f r := _]) _ _ = _")
proof (rule nth_equalityI)
  fix i
  assume "i < length (fold (\<lambda>r es. es[?f r := br_Err r]) result (replicate (length input) None))"
  then have i: "i < length input" by simp
  have dr: "distinct (map br_JobID result)"
    using d m by (metis mset_eq_imp_distinct_iff)
  have at: "?f r < length input \<and> bi_JobID (input ! ?f r) = br_JobID r" if "r \<in> set result" for r
  proof -
    have "br_JobID r \<in> set (map bi_JobID input)"
      using that m by (metis image_eqI list.set_map mset_eq_setD)
    then obtain j where "j < length input" "bi_JobID (input ! j) = br_JobID r"
      by (auto simp: in_set_conv_nth)
    then show ?thesis
      using index_positions [OF d, of j] by simp
  qed
  have "map (\<lambda>j. bi_JobID (input ! j)) (map ?f result) = map br_JobID result"
    using at by simp
  then have df: "distinct (map ?f result)"
    using dr by (metis distinct_map)
  have "bi_JobID (input ! i) \<in> set (map br_JobID result)"
    using i m by (metis length_map mset_eq_setD nth_map nth_mem)
  then obtain r where r: "r \<in> set result" "br_JobID r = bi_JobID (input ! i)"
    by auto
  have "?f r = i"
    using index_positions [OF d i] r(2) by simp
  then show "fold (\<lambda>r es. es[?f r := br_Err r]) result (replicate (length input) None) ! i =
      map (\<lambda>item. the (result_error result (bi_JobID item))) input ! i"
    using fold_place_nth [OF r(1) df, of "replicate (length input) None" br_Err] i
      result_error_in [OF dr r(1)] r(2) by simp
qed simp

section \<open>Lemmas on the claim checks\<close>

lemma validateClaimedJobLease_None:
  "validateClaimedJobLease job token now = None \<longleftrightarrow>
     job_LeaseToken job = token \<and> (\<exists>r. job_ReservedAt job = Some r \<and> now < r)"
  by (auto simp: validateClaimedJobLease_def split: option.splits)

lemma validateClaimedJobLease_Some:
  "validateClaimedJobLease job token now = Some e \<Longrightarrow> errors_Is (Some e) ErrLeaseLost"
  by (auto simp: validateClaimedJobLease_def errors_Is_Some split: option.splits if_splits)

lemma payload_len_nonneg [simp]: "0 \<le> payload_len job"
  by (simp add: payload_len_def)

lemma sum_payload_nonneg [simp]: "0 \<le> sum_list (map payload_len jobs)"
  by (rule sum_list_nonneg) auto

lemma bounded_payload_loop_later:
  "0 < index \<Longrightarrow> bounded_payload_loop n index maxBytes used jobs = None \<longleftrightarrow>
     jobs = [] \<or> used + sum_list (map payload_len jobs) \<le> maxBytes"
proof (induction jobs arbitrary: index used)
  case Nil
  then show ?case by simp
next
  case (Cons job jobs)
  show ?case
  proof (cases "payload_len job > maxBytes - used")
    case True
    then have "\<not> used + (payload_len job + sum_list (map payload_len jobs)) \<le> maxBytes"
      using sum_payload_nonneg [of jobs] by linarith
    then show ?thesis
      using True Cons.prems by simp
  next
    case False
    then show ?thesis
      using Cons.IH [of "Suc index" "used + payload_len job"] Cons.prems by (auto simp: add.assoc)
  qed
qed

lemma claimed_batch_loop_None:
  "claimed_batch_loop rt cap token seen jobs w = (None, w') \<Longrightarrow>
     (\<forall>job \<in> set jobs. job_capability job = cap \<and> job_LeaseToken job = token \<and>
        job_ReservedAt job \<noteq> None \<and> job_ID job \<notin> seen) \<and> distinct (map job_ID jobs)"
proof (induction jobs arbitrary: seen w)
  case Nil
  then show ?case by simp
next
  case (Cons job jobs)
  obtain now v where now: "time_Now rt w = (now, v)" by fastforce
  from Cons.prems have cap: "job_capability job = cap"
    by (auto split: if_splits)
  from Cons.prems cap now have lease: "validateClaimedJobLease job token now = None"
    by (auto split: option.splits)
  from Cons.prems cap now lease have "job_ID job \<notin> seen"
    and loop: "claimed_batch_loop rt cap token (insert (job_ID job) seen) jobs v = (None, w')"
    by (auto split: if_splits)
  from Cons.IH [OF loop] this(1) lease cap show ?case
    by (auto simp: validateClaimedJobLease_None)
qed

lemma select_append:
  "selectBatchPayloadLimitWithUsed jobs maxBytes used = (sel, rest) \<Longrightarrow> sel @ rest = jobs"
  by (induction jobs arbitrary: used sel rest) (auto simp: Let_def split: if_splits prod.splits)

lemma select_fits:
  "selectBatchPayloadLimitWithUsed jobs maxBytes used = (sel, rest) \<Longrightarrow> used \<le> maxBytes \<Longrightarrow>
     used + sum_list (map payload_len sel) \<le> maxBytes"
proof (induction jobs arbitrary: used sel rest)
  case Nil
  then show ?case by simp
next
  case (Cons job jobs)
  show ?case
  proof (cases "used + payload_len job > maxBytes")
    case True
    then show ?thesis using Cons.prems by auto
  next
    case False
    obtain sel' rest' where r:
      "selectBatchPayloadLimitWithUsed jobs maxBytes (used + payload_len job) = (sel', rest')" by fastforce
    then show ?thesis
      using Cons.IH [OF r] Cons.prems False by auto
  qed
qed

lemma select_stops:
  "selectBatchPayloadLimitWithUsed jobs maxBytes used = (sel, job # rest) \<Longrightarrow>
     used + sum_list (map payload_len sel) + payload_len job > maxBytes"
  by (induction jobs arbitrary: used sel) (auto simp: Let_def add.assoc split: if_splits prod.splits, force)

lemma finalization_timeout_loop_eq:
  "finalization_timeout_loop timeout outcomes =
     timeout + batchDLQInsertAllowance * sql_count (\<lambda>o'. bo_Kind o' = BatchJobOutcomeDLQ) outcomes"
  by (induction outcomes arbitrary: timeout) (auto simp: algebra_simps)

lemma validateBatchResult_Inr:
  "validateBatchResult input result = Inr errs \<longleftrightarrow>
     (\<forall>item \<in> set input. bi_JobID item \<noteq> JobIDNil) \<and> distinct (map bi_JobID input) \<and>
     mset (map br_JobID result) = mset (map bi_JobID input) \<and>
     errs = map (\<lambda>item. the (result_error result (bi_JobID item))) input"
proof (cases "(\<forall>item \<in> set input. bi_JobID item \<noteq> JobIDNil) \<and> distinct (map bi_JobID input)")
  case False
  then have "index_inputs 0 input Map.empty \<noteq> Inr pos" for pos
    by (auto simp: index_inputs_Inr)
  then show ?thesis
    using False by (auto simp: validateBatchResult_def split: sum.splits if_splits)
next
  case True
  define pos where "pos = map_of (zip (map bi_JobID input) [0 ..< length input])"
  define placed where
    "placed = fold (\<lambda>r es. es[the (pos (br_JobID r)) := br_Err r]) result (replicate (length input) None)"
  have "index_inputs 0 input Map.empty = Inr pos"
    using True by (auto simp: index_inputs_Inr pos_def)
  moreover have "dom pos = set (map bi_JobID input)"
    unfolding pos_def by (subst dom_map_of_zip) auto
  ultimately have ok: "validateBatchResult input result = Inr errs \<longleftrightarrow>
      (length result = length input \<and> set (map br_JobID result) \<subseteq> set (map bi_JobID input) \<and>
       distinct (map br_JobID result)) \<and> errs = placed"
    by (auto simp: validateBatchResult_def place_results_Inr placed_def)
  have "length result = length input \<and> set (map br_JobID result) \<subseteq> set (map bi_JobID input) \<and>
       distinct (map br_JobID result) \<longleftrightarrow> mset (map br_JobID result) = mset (map bi_JobID input)"
    using permutation_iff [of "map bi_JobID input" "map br_JobID result"] True by simp
  moreover have "mset (map br_JobID result) = mset (map bi_JobID input) \<Longrightarrow>
      placed = map (\<lambda>item. the (result_error result (bi_JobID item))) input"
    using placed_errors [of input result] True by (simp add: placed_def pos_def)
  ultimately show ?thesis
    unfolding ok using True by blast
qed

lemma validateBatchResult_success:
  assumes "validateBatchResult input result = Inr errs" "(item, None) \<in> set (zip input errs)"
  shows "\<exists>r \<in> set result. br_JobID r = bi_JobID item \<and> br_Err r = None"
proof -
  have d: "distinct (map bi_JobID input)" and m: "mset (map br_JobID result) = mset (map bi_JobID input)"
    and e: "errs = map (\<lambda>item. the (result_error result (bi_JobID item))) input"
    using assms(1) by (simp_all add: validateBatchResult_Inr)
  have item: "item \<in> set input" "the (result_error result (bi_JobID item)) = None"
    using assms(2) by (auto simp: e in_set_zip)
  then obtain r where r: "r \<in> set result" "br_JobID r = bi_JobID item"
    using m by (metis (no_types, lifting) image_iff list.set_map mset_eq_setD)
  then show ?thesis
    using item result_error_in [of result r] d m by (metis mset_eq_imp_distinct_iff option.sel)
qed

section \<open>Properties\<close>

text \<open>C20. A batch result is accepted exactly when the input identifiers are nonzero and pairwise
  distinct and the returned identifiers are a permutation of them; the i-th error then is the one
  returned for the i-th input, whatever the order of the results.\<close>

theorem validateBatchResult_exact:
  "validateBatchResult input result = Inr errs \<longleftrightarrow>
     (\<forall>item \<in> set input. bi_JobID item \<noteq> JobIDNil) \<and> distinct (map bi_JobID input) \<and>
     mset (map br_JobID result) = mset (map bi_JobID input) \<and>
     errs = map (\<lambda>item. the (result_error result (bi_JobID item))) input"
  by (rule validateBatchResult_Inr)

theorem validateBatchResult_exact_witness:
  "validateBatchResult
     [\<lparr>bi_JobID = JobID 1, bi_Payload = ''a'', bi_Attempt = 1\<rparr>, \<lparr>bi_JobID = JobID 2, bi_Payload = ''b'', bi_Attempt = 1\<rparr>]
     [\<lparr>br_JobID = JobID 2, br_Err = Some (ErrNew ''x'')\<rparr>, \<lparr>br_JobID = JobID 1, br_Err = None\<rparr>] =
   Inr [None, Some (ErrNew ''x'')]"
  unfolding validateBatchResult_exact by (simp add: result_error_def JobIDNil_def)

end
