(* ===== verification/Repository.thy ===== *)
theory Repository
  imports Batch_Model
begin

text \<open>
  The storage interfaces the service is written against, src/outbox/contract.go and
  src/outbox/batch.go, as records of operations over an abstract world \<open>'w\<close>. An optional
  interface, which the Go code finds by a type assertion on the jobs repository, is an option
  field. The transaction of a context travels in the world: inside \<open>RunInTx\<close> the callback runs
  on a world that has an open transaction.
\<close>

section \<open>Results of unique puts and queue statistics\<close>

record UniquePutResult =
  up_JobID :: JobID
  up_Created :: bool

record UniqueBatchPut =
  ub_DeduplicationKey :: string
  ub_Name :: string
  ub_SchemaVersion :: SchemaVersion
  ub_Payload :: string
  ub_AvailableAt :: time

record CapabilityQueueStats =
  cs_Name :: string
  cs_SchemaVersion :: SchemaVersion
  cs_Total :: int
  cs_Available :: int
  cs_Processing :: int
  cs_OldestAvailableAt :: time

record QueueStats =
  qs_ObservedAt :: time
  qs_Total :: int
  qs_Available :: int
  qs_Processing :: int
  qs_ByCapability :: "CapabilityQueueStats list"

section \<open>Repositories\<close>

text \<open>The interfaces with one method: \<open>UniqueJobsRepository\<close>, \<open>UniqueBatchJobsRepository\<close>,
  \<open>FanoutJobsRepository\<close> and \<open>JobsStatRepository\<close>.\<close>

type_synonym 'w CreateJobVersionedUniqueResult =
  "ctx \<Rightarrow> string \<Rightarrow> string \<Rightarrow> SchemaVersion \<Rightarrow> string \<Rightarrow> time \<Rightarrow> 'w \<Rightarrow> (error + UniquePutResult) \<times> 'w"

type_synonym 'w CreateJobVersionedUniqueBatch =
  "ctx \<Rightarrow> UniqueBatchPut list \<Rightarrow> 'w \<Rightarrow> (error + UniquePutResult list) \<times> 'w"

type_synonym 'w CreateJobVersionedUnique =
  "ctx \<Rightarrow> string \<Rightarrow> string \<Rightarrow> SchemaVersion \<Rightarrow> string \<Rightarrow> time \<Rightarrow> 'w \<Rightarrow> (error + JobID) \<times> 'w"

type_synonym 'w GetQueueStats = "ctx \<Rightarrow> time \<Rightarrow> 'w \<Rightarrow> (error + QueueStats) \<times> 'w"

record 'w BatchJobsRepository =
  FindAndReserveJobsForCapability ::
    "ctx \<Rightarrow> time \<Rightarrow> time \<Rightarrow> LeaseToken \<Rightarrow> JobCapability \<Rightarrow> int \<Rightarrow> 'w \<Rightarrow> (error + Job list) \<times> 'w"
  ApplyBatchJobOutcomes ::
    "ctx \<Rightarrow> LeaseToken \<Rightarrow> time \<Rightarrow> BatchJobOutcome list \<Rightarrow> 'w \<Rightarrow> (error + int) \<times> 'w"
  MaxExecutionBatchSize :: int
  FindAndReserveJobsForCapabilityBounded ::
    "(ctx \<Rightarrow> time \<Rightarrow> time \<Rightarrow> LeaseToken \<Rightarrow> JobCapability \<Rightarrow> BatchClaimLimits \<Rightarrow> 'w \<Rightarrow>
      (error + Job list) \<times> 'w) option"

record 'w JobsRepository =
  CreateJobVersioned ::
    "ctx \<Rightarrow> string \<Rightarrow> SchemaVersion \<Rightarrow> string \<Rightarrow> time \<Rightarrow> 'w \<Rightarrow> (error + JobID) \<times> 'w"
  FindAndReserveJobsForCapabilities ::
    "ctx \<Rightarrow> time \<Rightarrow> time \<Rightarrow> LeaseToken \<Rightarrow> JobCapability list \<Rightarrow> int \<Rightarrow> 'w \<Rightarrow> (error + Job list) \<times> 'w"
  ExtendJobLeases ::
    "ctx \<Rightarrow> JobID list \<Rightarrow> LeaseToken \<Rightarrow> time \<Rightarrow> time \<Rightarrow> 'w \<Rightarrow> (error + int) \<times> 'w"
  ReleaseUnstartedJobsWithLease ::
    "ctx \<Rightarrow> JobID list \<Rightarrow> LeaseToken \<Rightarrow> time \<Rightarrow> 'w \<Rightarrow> (error + int) \<times> 'w"
  DeleteJobWithLease :: "ctx \<Rightarrow> JobID \<Rightarrow> LeaseToken \<Rightarrow> time \<Rightarrow> 'w \<Rightarrow> (error + int) \<times> 'w"
  RescheduleJobWithLease ::
    "ctx \<Rightarrow> JobID \<Rightarrow> LeaseToken \<Rightarrow> time \<Rightarrow> time \<Rightarrow> 'w \<Rightarrow> (error + int) \<times> 'w"
  MaxReservationBatch :: int
  asBatchJobsRepository :: "'w BatchJobsRepository option"
  asDeferJobsRepository ::
    "(ctx \<Rightarrow> JobID \<Rightarrow> LeaseToken \<Rightarrow> time \<Rightarrow> time \<Rightarrow> 'w \<Rightarrow> (error + int) \<times> 'w) option"
  asUniqueJobsRepository :: "'w CreateJobVersionedUniqueResult option"
  asUniqueBatchJobsRepository :: "'w CreateJobVersionedUniqueBatch option"
  asJobsStatRepository :: "'w GetQueueStats option"

text \<open>\<open>JobsFailedRepository\<close> and \<open>Transactor\<close>.\<close>

type_synonym 'w CreateFailedJobVersioned =
  "ctx \<Rightarrow> JobID \<Rightarrow> string \<Rightarrow> SchemaVersion \<Rightarrow> string \<Rightarrow> string \<Rightarrow> 'w \<Rightarrow> (error + JobID) \<times> 'w"

type_synonym 'w RunInTx = "ctx \<Rightarrow> ('w \<Rightarrow> error option \<times> 'w) \<Rightarrow> 'w \<Rightarrow> error option \<times> 'w"

end
