(* ===== verification/Sqlite_Base.thy ===== *)
theory Sqlite_Base
  imports Repository
begin

text \<open>
  The SQLite store as the repositories see it: the three tables with the columns and the
  constraints of src/backends/sqlite/migrations, statement execution with driver failures, and
  the two ways a transaction is run (src/backends/sqlite/storage/transaction/manager.go and
  src/backends/sqlite/repositories/jobsrepo/immediate_transaction.go). Times are stored as Unix
  milliseconds. The next driver failures are part of the state, so that every error branch of the
  code is a branch of the model; so is whether the next commit that is answered by an error has
  taken effect all the same.
\<close>

section \<open>Tables\<close>

record job_row =
  r_id :: JobID
  r_queue :: string
  r_name :: string
  r_schema_version :: SchemaVersion
  r_payload :: string
  r_attempts :: int
  r_reserved_at :: "int option"
  r_lease_token :: LeaseToken
  r_deduplication_key :: "string option"
  r_available_at :: int
  r_created_at :: int

record key_row =
  k_deduplication_key :: string
  k_job_id :: JobID
  k_fingerprint :: string
  k_created_at :: int

record failed_row =
  f_id :: JobID
  f_job_id :: JobID
  f_queue :: string
  f_name :: string
  f_schema_version :: SchemaVersion
  f_payload :: string
  f_reason :: string
  f_failed_at :: int
  f_created_at :: int
  f_connection :: string
  f_exception :: string

record sqlite =
  db_jobs :: "job_row list"
  db_keys :: "key_row list"
  db_failed :: "failed_row list"
  db_in_tx :: bool
  db_faults :: "error option list"
  db_lost_commits :: "bool list"

text \<open>The constraints of the schema: primary keys, the unique indexes and the version check.\<close>

definition wf_jobs :: "job_row list \<Rightarrow> bool" where
  "wf_jobs js \<longleftrightarrow> distinct (map r_id js) \<and>
     distinct (List.map_filter r_deduplication_key js) \<and> (\<forall>r \<in> set js. 0 < r_schema_version r)"

definition wf_keys :: "key_row list \<Rightarrow> bool" where
  "wf_keys ks \<longleftrightarrow> distinct (map k_deduplication_key ks) \<and> distinct (map k_job_id ks)"

definition wf_failed :: "failed_row list \<Rightarrow> bool" where
  "wf_failed fs \<longleftrightarrow> distinct (map f_id fs) \<and> distinct (map f_job_id fs) \<and>
     (\<forall>r \<in> set fs. 0 < f_schema_version r)"

definition wf_db :: "'a sqlite_scheme \<Rightarrow> bool" where
  "wf_db w \<longleftrightarrow> wf_jobs (db_jobs w) \<and> wf_keys (db_keys w) \<and> wf_failed (db_failed w)"

section \<open>Statements\<close>

text \<open>One statement: a driver failure leaves the tables alone, otherwise the statement runs and may
  itself be refused by a constraint. That a statement answered by an error had no effect is an
  assumption on the engine, which backs out the changes of a failed statement; it concerns a
  single statement, while the answer of a \<open>COMMIT\<close> may be lost, see below.\<close>

definition exec_stmt ::
  "('a sqlite_scheme \<Rightarrow> (error + 'b) \<times> 'a sqlite_scheme) \<Rightarrow> 'a sqlite_scheme \<Rightarrow>
   (error + 'b) \<times> 'a sqlite_scheme" where
  "exec_stmt stmt w =
     (case db_faults w of
        [] \<Rightarrow> stmt w
      | None # fs \<Rightarrow> stmt (w\<lparr>db_faults := fs\<rparr>)
      | Some e # fs \<Rightarrow> (Inl e, w\<lparr>db_faults := fs\<rparr>))"

definition update_jobs ::
  "(job_row \<Rightarrow> bool) \<Rightarrow> (job_row \<Rightarrow> job_row) \<Rightarrow> 'a sqlite_scheme \<Rightarrow> (error + int) \<times> 'a sqlite_scheme" where
  "update_jobs p f =
     exec_stmt (\<lambda>w. (Inr (sql_count p (db_jobs w)), w\<lparr>db_jobs := sql_update p f (db_jobs w)\<rparr>))"

definition delete_jobs ::
  "(job_row \<Rightarrow> bool) \<Rightarrow> 'a sqlite_scheme \<Rightarrow> (error + int) \<times> 'a sqlite_scheme" where
  "delete_jobs p =
     exec_stmt (\<lambda>w. (Inr (sql_count p (db_jobs w)), w\<lparr>db_jobs := sql_delete p (db_jobs w)\<rparr>))"

text \<open>\<open>INSERT INTO jobs\<close>: refused as a whole when a row violates a constraint.\<close>

definition insert_jobs ::
  "job_row list \<Rightarrow> 'a sqlite_scheme \<Rightarrow> (error + int) \<times> 'a sqlite_scheme" where
  "insert_jobs rows =
     exec_stmt (\<lambda>w. if wf_jobs (db_jobs w @ rows)
       then (Inr (int (length rows)), w\<lparr>db_jobs := db_jobs w @ rows\<rparr>)
       else (Inl (ErrNew ''constraint failed''), w))"

section \<open>Transactions\<close>

definition with_tables :: "'a sqlite_scheme \<Rightarrow> 'a sqlite_scheme \<Rightarrow> 'a sqlite_scheme" where
  "with_tables old w =
     w\<lparr>db_jobs := db_jobs old, db_keys := db_keys old, db_failed := db_failed old, db_in_tx := False\<rparr>"

text \<open>A statement without effect on the tables: \<open>PRAGMA\<close>, \<open>BEGIN\<close>, \<open>COMMIT\<close>, \<open>ROLLBACK\<close>, or
  taking a connection.\<close>

definition control_stmt :: "'a sqlite_scheme \<Rightarrow> error option \<times> 'a sqlite_scheme" where
  "control_stmt w = (case exec_stmt (\<lambda>w. (Inr (), w)) w of (Inl e, w) \<Rightarrow> (Some e, w) | (Inr _, w) \<Rightarrow> (None, w))"

text \<open>\<open>COMMIT\<close>: its answer, and whether the transaction is committed. A commit answered by an error may
  have taken effect, when the context was cancelled or the connection lost after the engine had
  committed; \<open>db_lost_commits\<close> says of the next such commits whether they did.\<close>

definition commit_stmt :: "'a sqlite_scheme \<Rightarrow> error option \<times> bool \<times> 'a sqlite_scheme" where
  "commit_stmt w =
     (case control_stmt w of
        (None, w) \<Rightarrow> (None, True, w)
      | (Some err, w) \<Rightarrow>
          (case db_lost_commits w of
             [] \<Rightarrow> (Some err, False, w)
           | landed # ls \<Rightarrow> (Some err, landed, w\<lparr>db_lost_commits := ls\<rparr>)))"

text \<open>\<open>tx.Commit()\<close>, after which the transaction is over whatever the answer: the code rolls nothing back.
  A commit that has not taken effect leaves the tables the transaction started from.\<close>

definition commit_tx :: "'a sqlite_scheme \<Rightarrow> 'a sqlite_scheme \<Rightarrow> error option \<times> 'a sqlite_scheme" where
  "commit_tx old w =
     (case commit_stmt w of
        (err, landed, w) \<Rightarrow> (err, if landed then w\<lparr>db_in_tx := False\<rparr> else with_tables old w))"

text \<open>The deferred \<open>ROLLBACK\<close> of \<open>runImmediateTransaction\<close>. It restores the tables; when it fails the
  connection is discarded, which ends the transaction the same way. After a commit that has taken
  effect there is no transaction left to roll back.\<close>

definition rollback_immediate ::
  "bool \<Rightarrow> 'a sqlite_scheme \<Rightarrow> error \<Rightarrow> 'a sqlite_scheme \<Rightarrow> error \<times> 'a sqlite_scheme" where
  "rollback_immediate landed old err w =
     (case exec_stmt (\<lambda>w. if landed then (Inl (ErrNew ''cannot rollback - no transaction is active''), w)
                          else (Inr (), w)) w of
        (Inr _, w) \<Rightarrow> (err, with_tables old w)
      | (Inl rb, w) \<Rightarrow>
          (ErrJoin [err, ErrWrap ''rollback immediate transaction: %w'' [rb]],
           if landed then w\<lparr>db_in_tx := False\<rparr> else with_tables old w))"

definition runImmediateTransaction ::
  "('a sqlite_scheme \<Rightarrow> (error + 'b) \<times> 'a sqlite_scheme) \<Rightarrow> 'a sqlite_scheme \<Rightarrow>
   (error + 'b) \<times> 'a sqlite_scheme" where
  "runImmediateTransaction work w =
     (case control_stmt w of
        (Some err, w) \<Rightarrow> (Inl err, w)
      | (None, w) \<Rightarrow>
      (case control_stmt w of
         (Some err, w) \<Rightarrow> (Inl (ErrJoin [err]), w)
       | (None, w1) \<Rightarrow>
       (case work (w1\<lparr>db_in_tx := True\<rparr>) of
          (Inl err, w2) \<Rightarrow> (case rollback_immediate False w1 err w2 of (e, w3) \<Rightarrow> (Inl e, w3))
        | (Inr res, w2) \<Rightarrow>
            (case commit_stmt w2 of
               (Some err, landed, w3) \<Rightarrow>
                 (case rollback_immediate landed w1 err w3 of (e, w4) \<Rightarrow> (Inl e, w4))
             | (None, _, w3) \<Rightarrow> (Inr res, w3\<lparr>db_in_tx := False\<rparr>)))))"

definition withImmediateTransaction ::
  "('a sqlite_scheme \<Rightarrow> (error + 'b) \<times> 'a sqlite_scheme) \<Rightarrow> 'a sqlite_scheme \<Rightarrow>
   (error + 'b) \<times> 'a sqlite_scheme" where
  "withImmediateTransaction work w =
     (if db_in_tx w then work w
      else case control_stmt w of
             (Some err, w) \<Rightarrow> (Inl err, w)
           | (None, w) \<Rightarrow> runImmediateTransaction work w)"

text \<open>\<open>Manager.RunInTx\<close>: a transaction of the context is borrowed and left to its owner. The
  callback's panic, which the code turns into an error, is not part of the callbacks modelled
  here.\<close>

definition sqlite_RunInTx ::
  "('a sqlite_scheme \<Rightarrow> error option \<times> 'a sqlite_scheme) \<Rightarrow> 'a sqlite_scheme \<Rightarrow>
   error option \<times> 'a sqlite_scheme" where
  "sqlite_RunInTx fn w =
     (if db_in_tx w then fn w
      else case control_stmt w of
             (Some err, w) \<Rightarrow> (Some (ErrWrap ''begin tx: %w'' [err]), w)
           | (None, w1) \<Rightarrow>
               (case fn (w1\<lparr>db_in_tx := True\<rparr>) of
                  (None, w2) \<Rightarrow>
                    (case commit_tx w1 w2 of
                       (None, w3) \<Rightarrow> (None, w3)
                     | (Some err, w3) \<Rightarrow> (Some (ErrWrap ''commit: %w'' [err]), w3))
                | (Some err, w2) \<Rightarrow>
                    (case control_stmt w2 of
                       (None, w3) \<Rightarrow> (Some err, with_tables w1 w3)
                     | (Some rb, w3) \<Rightarrow>
                         (errors_Join [Some err, Some (ErrWrap ''rollback: %w'' [rb])], with_tables w1 w3))))"

text \<open>The same, for a callback that also leaves a result in a variable of its caller.\<close>

definition sqlite_RunInTx_result ::
  "('a sqlite_scheme \<Rightarrow> (error + 'b) \<times> 'a sqlite_scheme) \<Rightarrow> 'a sqlite_scheme \<Rightarrow>
   (error + 'b) \<times> 'a sqlite_scheme" where
  "sqlite_RunInTx_result fn w =
     (if db_in_tx w then fn w
      else case control_stmt w of
             (Some err, w) \<Rightarrow> (Inl (ErrWrap ''begin tx: %w'' [err]), w)
           | (None, w1) \<Rightarrow>
               (case fn (w1\<lparr>db_in_tx := True\<rparr>) of
                  (Inr x, w2) \<Rightarrow>
                    (case commit_tx w1 w2 of
                       (None, w3) \<Rightarrow> (Inr x, w3)
                     | (Some err, w3) \<Rightarrow> (Inl (ErrWrap ''commit: %w'' [err]), w3))
                | (Inl err, w2) \<Rightarrow>
                    (case control_stmt w2 of
                       (None, w3) \<Rightarrow> (Inl err, with_tables w1 w3)
                     | (Some rb, w3) \<Rightarrow>
                         (Inl (the (errors_Join [Some err, Some (ErrWrap ''rollback: %w'' [rb])])), with_tables w1 w3))))"

section \<open>Rows and jobs\<close>

text \<open>The row of a new job, and the job a stored row is scanned into.\<close>

definition new_row ::
  "JobID \<Rightarrow> string \<Rightarrow> SchemaVersion \<Rightarrow> string \<Rightarrow> string option \<Rightarrow> time \<Rightarrow> time \<Rightarrow> job_row" where
  "new_row i nm version payload key availableAt createdAt =
     \<lparr>r_id = i, r_queue = ''queue'', r_name = nm, r_schema_version = version, r_payload = payload,
      r_attempts = 0, r_reserved_at = None, r_lease_token = LeaseTokenNil,
      r_deduplication_key = key, r_available_at = UnixMilli availableAt,
      r_created_at = UnixMilli createdAt\<rparr>"


definition scanJob :: "job_row \<Rightarrow> Job" where
  "scanJob r =
     \<lparr>job_ID = r_id r, job_Queue = r_queue r, job_Name = r_name r,
      job_SchemaVersion = r_schema_version r, job_Payload = r_payload r,
      job_Attempts = r_attempts r, job_ReservedAt = map_option time_UnixMilli (r_reserved_at r),
      job_LeaseToken = r_lease_token r, job_DeduplicationKey = r_deduplication_key r,
      job_AvailableAt = time_UnixMilli (r_available_at r),
      job_CreatedAt = time_UnixMilli (r_created_at r)\<rparr>"

section \<open>Lemmas\<close>

text \<open>The tables of a world, which is what transactions restore.\<close>

definition tables :: "'a sqlite_scheme \<Rightarrow> job_row list \<times> key_row list \<times> failed_row list" where
  "tables w = (db_jobs w, db_keys w, db_failed w)"

lemma tables_with_tables [simp]: "tables (with_tables old w) = tables old"
  by (simp add: tables_def with_tables_def)

lemma with_tables_in_tx [simp]: "\<not> db_in_tx (with_tables old w)"
  by (simp add: with_tables_def)

lemma control_stmt_frame:
  "control_stmt w = (r, w') \<Longrightarrow> tables w' = tables w \<and> db_in_tx w' = db_in_tx w"
  by (auto simp: control_stmt_def exec_stmt_def tables_def split: list.splits option.splits)



section \<open>What a statement did\<close>

lemma faults_self: "db_faults w = F \<Longrightarrow> w\<lparr>db_faults := F\<rparr> = w"
  by auto

lemma in_tx_self: "db_in_tx w = t \<Longrightarrow> w\<lparr>db_in_tx := t\<rparr> = w"
  by auto

lemma world_updates [table_simps]:
  "w\<lparr>db_jobs := js, db_faults := F\<rparr> = w\<lparr>db_faults := F, db_jobs := js\<rparr>"
  "w\<lparr>db_in_tx := t, db_faults := F\<rparr> = w\<lparr>db_faults := F, db_in_tx := t\<rparr>"
  "w\<lparr>db_jobs := js, db_in_tx := t\<rparr> = w\<lparr>db_in_tx := t, db_jobs := js\<rparr>"
  "w\<lparr>db_lost_commits := L, db_faults := F\<rparr> = w\<lparr>db_faults := F, db_lost_commits := L\<rparr>"
  by simp_all

lemma exec_stmt_cases:
  assumes "exec_stmt stmt w = (r, w')"
  obtains (failed) e F where "r = Inl e" "w' = w\<lparr>db_faults := F\<rparr>"
    | (ran) F where "stmt (w\<lparr>db_faults := F\<rparr>) = (r, w')"
proof (cases "db_faults w")
  case Nil
  then have "stmt (w\<lparr>db_faults := []\<rparr>) = (r, w')"
    using assms by (simp add: exec_stmt_def faults_self)
  then show thesis
    by (rule ran)
next
  case (Cons x F)
  with assms show thesis
    by (cases x) (auto simp: exec_stmt_def intro: that)
qed

lemma update_jobs_cases:
  assumes "update_jobs p f w = (r, w')"
  obtains (failed) e F where "r = Inl e" "w' = w\<lparr>db_faults := F\<rparr>"
    | (ran) F where "r = Inr (sql_count p (db_jobs w))"
        "w' = w\<lparr>db_faults := F, db_jobs := sql_update p f (db_jobs w)\<rparr>"
  using assms unfolding update_jobs_def by (cases rule: exec_stmt_cases) (auto intro: that)

lemma delete_jobs_cases:
  assumes "delete_jobs p w = (r, w')"
  obtains (failed) e F where "r = Inl e" "w' = w\<lparr>db_faults := F\<rparr>"
    | (ran) F where "r = Inr (sql_count p (db_jobs w))"
        "w' = w\<lparr>db_faults := F, db_jobs := sql_delete p (db_jobs w)\<rparr>"
  using assms unfolding delete_jobs_def by (cases rule: exec_stmt_cases) (auto intro: that)

section \<open>The ends of a transaction\<close>

lemma control_stmt_cases:
  assumes "control_stmt w = (r, w')"
  obtains F where "w' = w\<lparr>db_faults := F\<rparr>"
  using assms unfolding control_stmt_def
  by (cases "exec_stmt (\<lambda>w. (Inr (), w)) w" rule: prod.exhaust)
     (auto split: sum.splits prod.splits elim!: exec_stmt_cases intro: that)

lemma commit_stmt_cases:
  assumes "commit_stmt w = (r, landed, w')"
  obtains (answered) F where "r = None" "landed" "w' = w\<lparr>db_faults := F\<rparr>"
    | (unanswered) e F ls where "r = Some e" "landed \<longrightarrow> True \<in> set (db_lost_commits w)"
        "w' = w\<lparr>db_faults := F, db_lost_commits := ls\<rparr>" "set ls \<subseteq> set (db_lost_commits w)"
proof -
  obtain c w1 where c: "control_stmt w = (c, w1)"
    by fastforce
  then obtain F where w1: "w1 = w\<lparr>db_faults := F\<rparr>"
    by (rule control_stmt_cases)
  show thesis
  proof (cases c)
    case None
    then show thesis
      using assms c w1 by (intro answered [of F]) (auto simp: commit_stmt_def)
  next
    case (Some e)
    show thesis
    proof (cases "db_lost_commits w")
      case Nil
      then have w1': "w1 = w\<lparr>db_faults := F, db_lost_commits := []\<rparr>"
        by (simp add: w1)
      show thesis
        using assms c Some Nil unfolding w1' by (intro unanswered [where e = e and F = F and ls = "[]"]) (simp_all add: commit_stmt_def)
    next
      case (Cons b ls)
      then show thesis
        using assms c Some w1 by (intro unanswered [where e = e and F = F and ls = ls]) (auto simp: commit_stmt_def)
    qed
  qed
qed

lemma commit_tx_cases:
  assumes "commit_tx old w = (r, w')"
  obtains (answered) F where "r = None" "w' = w\<lparr>db_faults := F, db_in_tx := False\<rparr>"
    | (landed) e F ls where "r = Some e" "w' = w\<lparr>db_faults := F, db_lost_commits := ls, db_in_tx := False\<rparr>"
        "set ls \<subseteq> set (db_lost_commits w)" "True \<in> set (db_lost_commits w)"
    | (undone) e F ls where "r = Some e" "w' = with_tables old (w\<lparr>db_faults := F, db_lost_commits := ls\<rparr>)"
        "set ls \<subseteq> set (db_lost_commits w)"
proof -
  obtain r1 b w1 where c: "commit_stmt w = (r1, b, w1)"
    by (metis prod_cases3)
  then show thesis
    by (cases rule: commit_stmt_cases; cases b)
       (use assms c that in \<open>auto simp: commit_tx_def\<close>)
qed

lemma rollback_immediate_cases:
  assumes "rollback_immediate landed old err w = (e, w')"
  obtains F where "w' = (if landed then w\<lparr>db_faults := F, db_in_tx := False\<rparr> else with_tables old (w\<lparr>db_faults := F\<rparr>))"
proof -
  obtain r w1 where x: "exec_stmt (\<lambda>w. if landed then (Inl (ErrNew ''cannot rollback - no transaction is active''), w)
      else (Inr (), w)) w = (r, w1)"
    by fastforce
  then obtain F where "w1 = w\<lparr>db_faults := F\<rparr>" "landed \<longrightarrow> isl r"
    by (cases rule: exec_stmt_cases) (auto split: if_splits)
  then show thesis
    using assms x that [of F] by (auto simp: rollback_immediate_def split: sum.splits)
qed

text \<open>A transaction answered by an error has left the tables as they were, unless its commit took effect and
  only the answer was lost. Then its work was done, and the tables are those it left.\<close>

lemma runImmediateTransaction_error:
  assumes "runImmediateTransaction work w = (Inl e, w')"
  obtains (undone) "tables w' = tables w" "\<not> db_in_tx w \<Longrightarrow> \<not> db_in_tx w'"
    | (landed) F x w2 where "work (w\<lparr>db_faults := F, db_in_tx := True\<rparr>) = (Inr x, w2)"
        "True \<in> set (db_lost_commits w2)" "tables w' = tables w2" "\<not> db_in_tx w'"
proof -
  obtain c0 w0 where c0: "control_stmt w = (c0, w0)"
    by fastforce
  then obtain F0 where w0: "w0 = w\<lparr>db_faults := F0\<rparr>"
    by (rule control_stmt_cases)
  obtain c1 w1 where c1: "control_stmt w0 = (c1, w1)"
    by fastforce
  then obtain F1 where w1: "w1 = w\<lparr>db_faults := F1\<rparr>"
    by (auto simp: w0 elim: control_stmt_cases)
  obtain r w2 where work: "work (w1\<lparr>db_in_tx := True\<rparr>) = (r, w2)"
    by fastforce
  note run = assms [unfolded runImmediateTransaction_def c0 prod.case]
  show thesis
  proof (cases "c0 = None \<and> c1 = None")
    case False
    then have "w' = w0 \<or> w' = w1"
      using run c1 by (auto split: option.splits)
    then show thesis
      using undone by (auto simp: w0 w1 tables_def)
  next
    case True
    show thesis
    proof (cases r)
      case (Inl err)
      then obtain e' where "rollback_immediate False w1 err w2 = (e', w')"
        using run True c1 work by (auto split: prod.splits)
      then show thesis
        using undone by (auto elim!: rollback_immediate_cases simp: w1 tables_def with_tables_def)
    next
      case (Inr x)
      obtain c2 b w3 where c2: "commit_stmt w2 = (c2, b, w3)"
        by (metis prod_cases3)
      then obtain err e' where err: "c2 = Some err" "rollback_immediate b w1 err w3 = (e', w')"
        using run True c1 work Inr by (auto split: prod.splits option.splits)
      from c2 obtain F ls where w3: "w3 = w2\<lparr>db_faults := F, db_lost_commits := ls\<rparr>" "b \<longrightarrow> True \<in> set (db_lost_commits w2)"
        by (cases rule: commit_stmt_cases) (auto simp: err(1))
      show thesis
      proof (cases b)
        case True
        then show thesis
          using landed [of F1 x w2] err(2) w3 work Inr
          by (auto elim!: rollback_immediate_cases simp: w1 tables_def)
      next
        case False
        then show thesis
          using undone err(2) by (auto elim!: rollback_immediate_cases simp: w1 tables_def with_tables_def)
      qed
    qed
  qed
qed

lemma withImmediateTransaction_error:
  assumes "withImmediateTransaction work w = (Inl e, w')" "\<not> db_in_tx w"
  obtains (undone) "tables w' = tables w" "\<not> db_in_tx w'"
    | (landed) F x w2 where "work (w\<lparr>db_faults := F, db_in_tx := True\<rparr>) = (Inr x, w2)"
        "True \<in> set (db_lost_commits w2)" "tables w' = tables w2" "\<not> db_in_tx w'"
proof -
  obtain c w1 where c: "control_stmt w = (c, w1)"
    by fastforce
  then obtain F where w1: "w1 = w\<lparr>db_faults := F\<rparr>"
    by (rule control_stmt_cases)
  show thesis
  proof (cases c)
    case None
    then have "runImmediateTransaction work w1 = (Inl e, w')"
      using assms c by (simp add: withImmediateTransaction_def)
    then show thesis
      by (cases rule: runImmediateTransaction_error)
         (use assms(2) undone landed in \<open>auto simp: w1 tables_def\<close>)
  qed (use assms c undone in \<open>auto simp: withImmediateTransaction_def w1 tables_def\<close>)
qed

lemma RunInTx_result_error:
  assumes "sqlite_RunInTx_result fn w = (Inl e, w')" "\<not> db_in_tx w"
  obtains (undone) "tables w' = tables w" "\<not> db_in_tx w'"
    | (landed) F x w2 where "fn (w\<lparr>db_faults := F, db_in_tx := True\<rparr>) = (Inr x, w2)"
        "True \<in> set (db_lost_commits w2)" "tables w' = tables w2" "\<not> db_in_tx w'"
proof -
  obtain c w1 where c: "control_stmt w = (c, w1)"
    by fastforce
  then obtain F where w1: "w1 = w\<lparr>db_faults := F\<rparr>"
    by (rule control_stmt_cases)
  obtain r w2 where fn: "fn (w1\<lparr>db_in_tx := True\<rparr>) = (r, w2)"
    by fastforce
  note run = assms(1) [unfolded sqlite_RunInTx_result_def c prod.case]
  show thesis
  proof (cases "c = None")
    case False
    then show thesis
      using run assms(2) undone by (auto simp: w1 tables_def)
  next
    case True
    show thesis
    proof (cases r)
      case (Inl err)
      then show thesis
        using run assms(2) True fn undone by (auto simp: w1 tables_def with_tables_def split: prod.splits option.splits)
    next
      case (Inr x)
      obtain c2 w3 where c2: "commit_tx w1 w2 = (c2, w3)"
        by fastforce
      then have "c2 \<noteq> None \<and> w' = w3"
        using run assms(2) True fn Inr by (auto split: option.splits)
      with c2 show thesis
        by (cases rule: commit_tx_cases)
           (use undone landed [of F x w2] fn Inr in \<open>auto simp: w1 tables_def with_tables_def\<close>)
    qed
  qed
qed

text \<open>What a transaction of its own leaves in general: it did not begin, or its work ran and the tables are those
  before or those after the work.\<close>

lemma with_tables_faults [simp]: "with_tables (w\<lparr>db_faults := F\<rparr>) v = with_tables w v"
  by (simp add: with_tables_def)

lemma withImmediateTransaction_world:
  assumes "withImmediateTransaction work w = (r, w')" "\<not> db_in_tx w"
  obtains (before) F where "w' = w\<lparr>db_faults := F\<rparr>"
    | (undone) F x w2 G L where "work (w\<lparr>db_faults := F, db_in_tx := True\<rparr>) = (x, w2)"
        "w' = with_tables w (w2\<lparr>db_faults := G, db_lost_commits := L\<rparr>)" "set L \<subseteq> set (db_lost_commits w2)"
    | (kept) F y w2 G L where "work (w\<lparr>db_faults := F, db_in_tx := True\<rparr>) = (Inr y, w2)"
        "w' = w2\<lparr>db_faults := G, db_lost_commits := L, db_in_tx := False\<rparr>" "set L \<subseteq> set (db_lost_commits w2)"
proof -
  obtain c0 w0 where c0: "control_stmt w = (c0, w0)"
    by fastforce
  then obtain F0 where w0: "w0 = w\<lparr>db_faults := F0\<rparr>"
    by (rule control_stmt_cases)
  obtain c1 w1 where c1: "control_stmt w0 = (c1, w1)"
    by fastforce
  then obtain F1 where w1: "w1 = w\<lparr>db_faults := F1\<rparr>"
    by (auto simp: w0 elim: control_stmt_cases)
  obtain c2 w2 where c2: "control_stmt w1 = (c2, w2)"
    by fastforce
  then obtain F2 where w2: "w2 = w\<lparr>db_faults := F2\<rparr>"
    by (auto simp: w1 elim: control_stmt_cases)
  obtain x w3 where work: "work (w2\<lparr>db_in_tx := True\<rparr>) = (x, w3)"
    by fastforce
  note run = assms(1) [unfolded withImmediateTransaction_def runImmediateTransaction_def c0 prod.case]
  show thesis
  proof (cases "c0 = None \<and> c1 = None \<and> c2 = None")
    case False
    then have "w' = w0 \<or> w' = w1 \<or> w' = w2"
      using run assms(2) c1 c2 by (auto split: option.splits)
    then show thesis
      using before by (auto simp: w0 w1 w2)
  next
    case True
    show thesis
    proof (cases x)
      case (Inl err)
      then obtain e' where "rollback_immediate False w2 err w3 = (e', w')"
        using run assms(2) True c1 c2 work by (auto split: prod.splits)
      then obtain G where "w' = with_tables w (w3\<lparr>db_faults := G, db_lost_commits := db_lost_commits w3\<rparr>)"
        by (auto simp: w2 elim!: rollback_immediate_cases)
      then show thesis
        using undone work unfolding w2 by blast
    next
      case (Inr y)
      obtain c4 b w4 where c4: "commit_stmt w3 = (c4, b, w4)"
        by (metis prod_cases3)
      then obtain G L where w4: "w4 = w3\<lparr>db_faults := G, db_lost_commits := L\<rparr>" "set L \<subseteq> set (db_lost_commits w3)"
        "c4 = None \<longrightarrow> b"
        by (cases rule: commit_stmt_cases) (auto intro: that [of "db_lost_commits w3"])
      have "w' = w4\<lparr>db_in_tx := False\<rparr> \<or> (\<exists>err e'. rollback_immediate b w2 err w4 = (e', w'))"
        using run assms(2) True c1 c2 work Inr c4 by (auto split: prod.splits option.splits)
      then have "(\<exists>G. w' = w3\<lparr>db_faults := G, db_lost_commits := L, db_in_tx := False\<rparr>) \<or>
          (\<exists>G. w' = with_tables w (w3\<lparr>db_faults := G, db_lost_commits := L\<rparr>))"
        by (auto simp: w2 w4 table_simps elim!: rollback_immediate_cases) blast+
      then show thesis
        using undone kept work w4(2) unfolding w2 Inr by blast
    qed
  qed
qed

lemma RunInTx_result_world:
  assumes "sqlite_RunInTx_result fn w = (r, w')" "\<not> db_in_tx w"
  obtains (before) F where "w' = w\<lparr>db_faults := F\<rparr>"
    | (undone) F x w2 G L where "fn (w\<lparr>db_faults := F, db_in_tx := True\<rparr>) = (x, w2)"
        "w' = with_tables w (w2\<lparr>db_faults := G, db_lost_commits := L\<rparr>)" "set L \<subseteq> set (db_lost_commits w2)"
    | (kept) F y w2 G L where "fn (w\<lparr>db_faults := F, db_in_tx := True\<rparr>) = (Inr y, w2)"
        "w' = w2\<lparr>db_faults := G, db_lost_commits := L, db_in_tx := False\<rparr>" "set L \<subseteq> set (db_lost_commits w2)"
proof -
  obtain c w1 where c: "control_stmt w = (c, w1)"
    by fastforce
  then obtain F where w1: "w1 = w\<lparr>db_faults := F\<rparr>"
    by (rule control_stmt_cases)
  obtain x w2 where fn: "fn (w1\<lparr>db_in_tx := True\<rparr>) = (x, w2)"
    by fastforce
  note run = assms(1) [unfolded sqlite_RunInTx_result_def c prod.case]
  show thesis
  proof (cases c)
    case (Some e)
    then show thesis
      using run assms(2) before by (auto simp: w1)
  next
    case None
    show thesis
    proof (cases x)
      case (Inl err)
      obtain c2 w3 where c2: "control_stmt w2 = (c2, w3)"
        by fastforce
      then obtain G where "w3 = w2\<lparr>db_faults := G, db_lost_commits := db_lost_commits w2\<rparr>"
        by (auto elim!: control_stmt_cases)
      moreover have "w' = with_tables w w3"
        using run assms(2) None fn Inl c2 by (auto simp: w1 split: option.splits)
      ultimately show thesis
        using undone fn unfolding w1 by blast
    next
      case (Inr y)
      obtain c2 w3 where c2: "commit_tx w1 w2 = (c2, w3)"
        by fastforce
      then have "w' = w3"
        using run assms(2) None fn Inr by (auto split: option.splits)
      moreover obtain G L where "w3 = w2\<lparr>db_faults := G, db_lost_commits := L, db_in_tx := False\<rparr> \<or>
          w3 = with_tables w (w2\<lparr>db_faults := G, db_lost_commits := L\<rparr>)" "set L \<subseteq> set (db_lost_commits w2)"
        using c2 by (cases rule: commit_tx_cases) (auto simp: w1 intro: that [of "db_lost_commits w2"])
      ultimately show thesis
        using undone kept fn unfolding w1 Inr by blast
    qed
  qed
qed

text \<open>A callback that leaves no result is the same with the unit result.\<close>

lemma RunInTx_result_RunInTx:
  "sqlite_RunInTx fn w =
     (case sqlite_RunInTx_result (\<lambda>w. case fn w of (None, w) \<Rightarrow> (Inr (), w) | (Some e, w) \<Rightarrow> (Inl e, w)) w of
        (Inl e, w) \<Rightarrow> (Some e, w) | (Inr _, w) \<Rightarrow> (None, w))"
  by (auto simp: sqlite_RunInTx_def sqlite_RunInTx_result_def errors_Join_def Let_def List.map_filter_simps
      split: prod.splits option.splits sum.splits)

lemma sqlite_RunInTx_error:
  assumes "sqlite_RunInTx fn w = (Some e, w')" "\<not> db_in_tx w"
  obtains (undone) "tables w' = tables w" "\<not> db_in_tx w'"
    | (landed) F w2 where "fn (w\<lparr>db_faults := F, db_in_tx := True\<rparr>) = (None, w2)"
        "True \<in> set (db_lost_commits w2)" "tables w' = tables w2" "\<not> db_in_tx w'"
proof -
  have "sqlite_RunInTx_result (\<lambda>w. case fn w of (None, w) \<Rightarrow> (Inr (), w) | (Some e, w) \<Rightarrow> (Inl e, w)) w = (Inl e, w')"
    using assms(1) by (auto simp: RunInTx_result_RunInTx split: prod.splits sum.splits)
  then show thesis
  proof (cases rule: RunInTx_result_error [OF _ assms(2), consumes 1, case_names undone landed])
    case (landed F x w2)
    then show thesis
      using that(2) [of F w2] by (auto split: prod.splits option.splits)
  qed (use that(1) in blast)
qed

lemma sqlite_RunInTx_world:
  assumes "sqlite_RunInTx fn w = (r, w')" "\<not> db_in_tx w"
  obtains (before) F where "w' = w\<lparr>db_faults := F\<rparr>"
    | (undone) F x w2 G L where "fn (w\<lparr>db_faults := F, db_in_tx := True\<rparr>) = (x, w2)"
        "w' = with_tables w (w2\<lparr>db_faults := G, db_lost_commits := L\<rparr>)" "set L \<subseteq> set (db_lost_commits w2)"
    | (kept) F w2 G L where "fn (w\<lparr>db_faults := F, db_in_tx := True\<rparr>) = (None, w2)"
        "w' = w2\<lparr>db_faults := G, db_lost_commits := L, db_in_tx := False\<rparr>" "set L \<subseteq> set (db_lost_commits w2)"
proof -
  let ?fn = "\<lambda>w. case fn w of (None, w) \<Rightarrow> (Inr (), w) | (Some e, w) \<Rightarrow> (Inl e, w)"
  have unit: "\<exists>x'. fn v = (x', v') \<and> (x' = None \<longleftrightarrow> x = Inr ())" if "?fn v = (x, v')" for v x v'
    using that by (auto split: prod.splits option.splits)
  obtain r' where "sqlite_RunInTx_result ?fn w = (r', w')"
    using assms(1) by (auto simp: RunInTx_result_RunInTx split: prod.splits sum.splits)
  then show thesis
  proof (cases rule: RunInTx_result_world [OF _ assms(2), consumes 1, case_names before undone kept])
    case (undone F x w2 G L)
    from unit [OF undone(1)] obtain x' where "fn (w\<lparr>db_faults := F, db_in_tx := True\<rparr>) = (x', w2)"
      by blast
    then show thesis
      using that(2) undone(2,3) by blast
  next
    case (kept F y w2 G L)
    from unit [OF kept(1)] have "fn (w\<lparr>db_faults := F, db_in_tx := True\<rparr>) = (None, w2)"
      by simp
    then show thesis
      using that(3) kept(2,3) by blast
  qed (use that(1) in blast)
qed

section \<open>Transactions on success\<close>

text \<open>A transaction that commits has run its work on the tables it started from.\<close>

lemma withImmediateTransaction_ok:
  assumes "withImmediateTransaction work w = (Inr x, w')"
  obtains F w2 G where "work (w\<lparr>db_faults := F, db_in_tx := True\<rparr>) = (Inr x, w2)"
    "w' = w2\<lparr>db_faults := G, db_in_tx := db_in_tx w \<and> db_in_tx w2\<rparr>"
proof (cases "db_in_tx w")
  case True
  then have "work (w\<lparr>db_faults := db_faults w, db_in_tx := True\<rparr>) = (Inr x, w')"
    using assms by (simp add: withImmediateTransaction_def in_tx_self)
  then show thesis
    by (rule that [of _ _ "db_faults w'"]) (simp add: True)
next
  case False
  obtain c0 w0 c1 w1 c2 w2 where c: "control_stmt w = (c0, w0)" "control_stmt w0 = (c1, w1)" "control_stmt w1 = (c2, w2)"
    by (meson surj_pair)
  obtain F where w2: "w2 = w\<lparr>db_faults := F\<rparr>"
    using c by (auto elim!: control_stmt_cases)
  obtain r w3 where work: "work (w2\<lparr>db_in_tx := True\<rparr>) = (r, w3)"
    by fastforce
  obtain c4 b w4 where c4: "commit_stmt w3 = (c4, b, w4)"
    by (metis prod_cases3)
  have "r = Inr x \<and> c4 = None \<and> w' = w4\<lparr>db_in_tx := False\<rparr>"
    using assms False c work c4
    by (auto simp: withImmediateTransaction_def runImmediateTransaction_def split: option.splits sum.splits prod.splits)
  then show thesis
    using c4 work False that [of F w3] by (auto simp: w2 elim!: commit_stmt_cases)
qed

lemma RunInTx_result_ok:
  assumes "sqlite_RunInTx_result fn w = (Inr x, w')"
  obtains F w2 G where "fn (w\<lparr>db_faults := F, db_in_tx := True\<rparr>) = (Inr x, w2)"
    "w' = w2\<lparr>db_faults := G, db_in_tx := db_in_tx w \<and> db_in_tx w2\<rparr>"
proof (cases "db_in_tx w")
  case True
  then have "fn (w\<lparr>db_faults := db_faults w, db_in_tx := True\<rparr>) = (Inr x, w')"
    using assms by (simp add: sqlite_RunInTx_result_def in_tx_self)
  then show thesis
    by (rule that [of _ _ "db_faults w'"]) (simp add: True)
next
  case False
  obtain c w1 where c: "control_stmt w = (c, w1)"
    by fastforce
  obtain F where w1: "w1 = w\<lparr>db_faults := F\<rparr>"
    using c by (rule control_stmt_cases)
  obtain r w2 where fn: "fn (w1\<lparr>db_in_tx := True\<rparr>) = (r, w2)"
    by fastforce
  obtain c3 w3 where c3: "commit_tx w1 w2 = (c3, w3)"
    by fastforce
  have "r = Inr x \<and> c3 = None \<and> w' = w3"
    using assms False c fn c3 by (auto simp: sqlite_RunInTx_result_def split: option.splits sum.splits prod.splits)
  then show thesis
    using c3 fn False that [of F w2] by (auto simp: w1 elim!: commit_tx_cases)
qed

lemma sqlite_RunInTx_ok:
  assumes "sqlite_RunInTx fn w = (None, w')"
  obtains F w2 G where "fn (w\<lparr>db_faults := F, db_in_tx := True\<rparr>) = (None, w2)"
    "w' = w2\<lparr>db_faults := G, db_in_tx := db_in_tx w \<and> db_in_tx w2\<rparr>"
proof -
  have "sqlite_RunInTx_result (\<lambda>w. case fn w of (None, w) \<Rightarrow> (Inr (), w) | (Some e, w) \<Rightarrow> (Inl e, w)) w = (Inr (), w')"
    using assms by (auto simp: RunInTx_result_RunInTx split: prod.splits sum.splits)
  then show thesis
    by (rule RunInTx_result_ok) (auto split: prod.splits option.splits intro: that)
qed

lemma no_faults_control [simp]: "db_faults w = [] \<Longrightarrow> control_stmt w = (None, w)"
  by (simp add: control_stmt_def exec_stmt_def)

lemma no_faults_commit [simp]:
  "db_faults w = [] \<Longrightarrow> commit_stmt w = (None, True, w)"
  "db_faults w = [] \<Longrightarrow> commit_tx old w = (None, w\<lparr>db_in_tx := False\<rparr>)"
  by (simp_all add: commit_stmt_def commit_tx_def)

lemma withImmediateTransaction_healthy_error:
  assumes "db_faults w = []" "work (w\<lparr>db_in_tx := True\<rparr>) = (Inl e, w\<lparr>db_in_tx := True\<rparr>)"
  shows "withImmediateTransaction work w = (Inl e, w)"
  using assms by (cases "db_in_tx w") (simp_all add: withImmediateTransaction_def
      runImmediateTransaction_def rollback_immediate_def exec_stmt_def with_tables_def in_tx_self)

lemma withImmediateTransaction_healthy_ok:
  assumes "db_faults w = []"
    "work (w\<lparr>db_in_tx := True\<rparr>) = (Inr x, w\<lparr>db_in_tx := True, db_jobs := js\<rparr>)"
  shows "withImmediateTransaction work w = (Inr x, w\<lparr>db_jobs := js\<rparr>)"
  using assms by (cases "db_in_tx w") (simp_all add: withImmediateTransaction_def
      runImmediateTransaction_def in_tx_self)



end
