(* ===== verification/Sqlite_Queries.thy ===== *)
theory Sqlite_Queries
  imports Sqlite_Base
begin

text \<open>
  The read side of the SQLite repositories: lookup, listings, pages
  (src/backends/sqlite/repositories/jobsrepo/pagination.go) and the queue statistics of
  src/backends/sqlite/repositories/jobsrepo/api.go. What they promise is in \<open>Sqlite_Reports\<close>.
\<close>

section \<open>Lookup and listings\<close>

definition select_rows ::
  "('a sqlite_scheme \<Rightarrow> 'b) \<Rightarrow> 'a sqlite_scheme \<Rightarrow> (error + 'b) \<times> 'a sqlite_scheme" where
  "select_rows f = exec_stmt (\<lambda>w. (Inr (f w), w))"

definition sqlite_GetByID :: "JobID \<Rightarrow> 'a sqlite_scheme \<Rightarrow> (error + Job) \<times> 'a sqlite_scheme" where
  "sqlite_GetByID jobID w =
     (if JobID_IsZero jobID then (Inl (ErrNew ''invalid job id''), w)
      else case select_rows (\<lambda>w. row_at r_id (db_jobs w) jobID) w of
             (Inl err, w) \<Rightarrow> (Inl err, w)
           | (Inr None, w) \<Rightarrow> (Inl (Sentinel ErrNoJobs), w)
           | (Inr (Some r), w) \<Rightarrow> (Inr (scanJob r), w))"

text \<open>\<open>ORDER BY created_at DESC LIMIT n\<close>.\<close>

definition newest :: "('r \<Rightarrow> int) \<Rightarrow> nat \<Rightarrow> 'r list \<Rightarrow> 'r list" where
  "newest created n t = take n (sort_key (\<lambda>r. - created r) t)"

definition sqlite_All :: "'a sqlite_scheme \<Rightarrow> (error + Job list) \<times> 'a sqlite_scheme" where
  "sqlite_All w =
     (case select_rows (\<lambda>w. newest r_created_at 100 (db_jobs w)) w of
        (Inl err, w) \<Rightarrow> (Inl err, w)
      | (Inr rows, w) \<Rightarrow> (Inr (map scanJob rows), w))"

definition sqlite_ListPaged ::
  "int \<Rightarrow> time \<Rightarrow> 'a sqlite_scheme \<Rightarrow> (error + Job list) \<times> 'a sqlite_scheme" where
  "sqlite_ListPaged limit before w =
     (let limit = (if limit \<le> 0 then 10 else limit)
      in case select_rows (\<lambda>w. newest r_created_at (nat limit)
             (filter (\<lambda>r. r_created_at r < UnixMilli before) (db_jobs w))) w of
           (Inl err, w) \<Rightarrow> (Inl err, w)
         | (Inr rows, w) \<Rightarrow> (Inr (map scanJob rows), w))"

section \<open>Pages\<close>

definition DefaultPageSize :: int where "DefaultPageSize = 10"

definition MaxPageSize :: int where "MaxPageSize = 1000"

record PageCursor =
  pc_CreatedAt :: time
  pc_ID :: JobID

text \<open>\<open>WHERE created_at < ? OR (created_at = ? AND LOWER(id) < ?)
  ORDER BY created_at DESC, LOWER(id) DESC LIMIT n\<close>, for rows with the order \<open>k\<close>.\<close>

definition page :: "('r \<Rightarrow> int \<times> string) \<Rightarrow> nat \<Rightarrow> (int \<times> string) option \<Rightarrow> 'r list \<Rightarrow> 'r list" where
  "page k n before t =
     take n (rev (sort_key k (filter (\<lambda>r. case before of
        None \<Rightarrow> True
      | Some (created, i) \<Rightarrow> fst (k r) < created \<or> fst (k r) = created \<and> snd (k r) < i) t)))"

definition cursor_key :: "(uuid \<Rightarrow> string) \<Rightarrow> PageCursor \<Rightarrow> int \<times> string" where
  "cursor_key str c = (UnixMilli (pc_CreatedAt c), JobID_String str (pc_ID c))"

definition page_limit :: "int \<Rightarrow> error + nat" where
  "page_limit limit =
     (let limit = (if limit \<le> 0 then DefaultPageSize else limit)
      in if limit > MaxPageSize then Inl (ErrNew ''page limit must not exceed %d'') else Inr (nat limit))"

definition job_page_key :: "(uuid \<Rightarrow> string) \<Rightarrow> job_row \<Rightarrow> int \<times> string" where
  "job_page_key str r = (r_created_at r, JobID_String str (r_id r))"

definition sqlite_ListPage ::
  "(uuid \<Rightarrow> string) \<Rightarrow> int \<Rightarrow> PageCursor option \<Rightarrow> 'a sqlite_scheme \<Rightarrow> (error + Job list) \<times> 'a sqlite_scheme" where
  "sqlite_ListPage str limit before w =
     (case page_limit limit of
        Inl err \<Rightarrow> (Inl err, w)
      | Inr n \<Rightarrow>
          (case select_rows (\<lambda>w. page (job_page_key str) n (map_option (cursor_key str) before) (db_jobs w)) w of
             (Inl err, w) \<Rightarrow> (Inl err, w)
           | (Inr rows, w) \<Rightarrow> (Inr (map scanJob rows), w)))"

section \<open>Queue statistics\<close>

text \<open>\<open>available_at <= ? AND (reserved_at IS NULL OR reserved_at <= ?)\<close>, and \<open>reserved_at > ? AND
  lease_token <> '00000000-0000-0000-0000-000000000000'\<close>.\<close>

definition stat_available :: "int \<Rightarrow> job_row \<Rightarrow> bool" where
  "stat_available ms r \<longleftrightarrow> r_available_at r \<le> ms \<and>
     (case r_reserved_at r of None \<Rightarrow> True | Some d \<Rightarrow> d \<le> ms)"

definition stat_processing :: "int \<Rightarrow> job_row \<Rightarrow> bool" where
  "stat_processing ms r \<longleftrightarrow>
     (case r_reserved_at r of None \<Rightarrow> False | Some d \<Rightarrow> d > ms) \<and> r_lease_token r \<noteq> LeaseTokenNil"

definition stat_group :: "int \<Rightarrow> job_row list \<Rightarrow> string \<times> SchemaVersion \<Rightarrow> CapabilityQueueStats" where
  "stat_group ms js key =
     (let rows = filter (\<lambda>r. (r_name r, r_schema_version r) = key) js; avail = filter (stat_available ms) rows
      in \<lparr>cs_Name = fst key, cs_SchemaVersion = snd key, cs_Total = int (length rows),
          cs_Available = int (length avail), cs_Processing = sql_count (stat_processing ms) rows,
          cs_OldestAvailableAt = (if avail = [] then zero_time else time_UnixMilli (Min (r_available_at ` set avail)))\<rparr>)"

definition stat_keys :: "job_row list \<Rightarrow> (string \<times> SchemaVersion) list" where
  "stat_keys js = sort (remdups (map (\<lambda>r. (r_name r, r_schema_version r)) js))"

definition sqlite_GetQueueStats :: "time \<Rightarrow> 'a sqlite_scheme \<Rightarrow> (error + QueueStats) \<times> 'a sqlite_scheme" where
  "sqlite_GetQueueStats observedAt w =
     (case select_rows (\<lambda>w. map (stat_group (UnixMilli observedAt) (db_jobs w)) (stat_keys (db_jobs w))) w of
        (Inl err, w) \<Rightarrow> (Inl (ErrWrap ''aggregate active queue: %w'' [err]), w)
      | (Inr groups, w) \<Rightarrow>
          (Inr \<lparr>qs_ObservedAt = observedAt, qs_Total = sum_list (map cs_Total groups),
                qs_Available = sum_list (map cs_Available groups),
                qs_Processing = sum_list (map cs_Processing groups), qs_ByCapability = groups\<rparr>, w))"

end
