(* ===== verification/Sqlite_Failed.thy ===== *)
theory Sqlite_Failed
  imports Sqlite_Queries
begin

text \<open>
  The dead-letter table of the SQLite backend,
  src/backends/sqlite/repositories/jobsfailedrepo/api.go and pagination.go: recording failed jobs,
  lookup, listings, pages, counting and deletion.
\<close>

section \<open>Statements\<close>

definition insert_failed ::
  "failed_row \<Rightarrow> 'a sqlite_scheme \<Rightarrow> (error + int) \<times> 'a sqlite_scheme" where
  "insert_failed row =
     exec_stmt (\<lambda>w. if wf_failed (db_failed w @ [row])
       then (Inr 1, w\<lparr>db_failed := db_failed w @ [row]\<rparr>)
       else (Inl (ErrNew ''constraint failed''), w))"

definition scanJobFailed :: "failed_row \<Rightarrow> JobFailed" where
  "scanJobFailed r =
     \<lparr>failed_ID = f_id r, failed_JobID = f_job_id r, failed_Queue = f_queue r, failed_Name = f_name r,
      failed_SchemaVersion = f_schema_version r, failed_Payload = f_payload r, failed_Reason = f_reason r,
      failed_FailedAt = time_UnixMilli (f_failed_at r), failed_CreatedAt = time_UnixMilli (f_created_at r),
      failed_Connection = f_connection r, failed_Exception = f_exception r\<rparr>"

section \<open>Recording\<close>

definition sqlite_CreateFailedJobVersioned ::
  "'a sqlite_scheme runtime \<Rightarrow> JobID \<Rightarrow> string \<Rightarrow> SchemaVersion \<Rightarrow> string \<Rightarrow> string \<Rightarrow> 'a sqlite_scheme \<Rightarrow>
   (error + JobID) \<times> 'a sqlite_scheme" where
  "sqlite_CreateFailedJobVersioned rt jobID nm schemaVersion payload reason w =
     (case JobCapability_Validate \<lparr>cap_Name = nm, cap_SchemaVersion = schemaVersion\<rparr> of
        Some err \<Rightarrow> (Inl (ErrWrap ''validate capability: %w'' [err]), w)
      | None \<Rightarrow>
          (let (u, w) = uuid_New rt w; (now, w) = time_Now rt w
           in case insert_failed \<lparr>f_id = JobID u, f_job_id = jobID, f_queue = ''queue'', f_name = nm,
                  f_schema_version = schemaVersion, f_payload = payload, f_reason = reason,
                  f_failed_at = UnixMilli now, f_created_at = UnixMilli now, f_connection = [], f_exception = []\<rparr> w of
                (Inl err, w) \<Rightarrow> (Inl err, w)
              | (Inr _, w) \<Rightarrow> (Inr (JobID u), w)))"

definition sqlite_failed_Create ::
  "'a sqlite_scheme runtime \<Rightarrow> JobFailed \<Rightarrow> 'a sqlite_scheme \<Rightarrow> (error + JobID) \<times> 'a sqlite_scheme" where
  "sqlite_failed_Create rt model w =
     (let (u, w) = uuid_New rt w
      in case insert_failed \<lparr>f_id = JobID u, f_job_id = failed_JobID model, f_queue = failed_Queue model, f_name = failed_Name model,
             f_schema_version = normalizeSchemaVersion (failed_SchemaVersion model), f_payload = failed_Payload model,
             f_reason = failed_Reason model, f_failed_at = UnixMilli (failed_FailedAt model),
             f_created_at = UnixMilli (failed_CreatedAt model), f_connection = failed_Connection model,
             f_exception = failed_Exception model\<rparr> w of
           (Inl err, w) \<Rightarrow> (Inl err, w)
         | (Inr _, w) \<Rightarrow> (Inr (JobID u), w))"

definition sqlite_failed_Delete :: "JobID \<Rightarrow> 'a sqlite_scheme \<Rightarrow> (error + int) \<times> 'a sqlite_scheme" where
  "sqlite_failed_Delete jobID =
     exec_stmt (\<lambda>w. (Inr (sql_count (\<lambda>r. f_id r = jobID) (db_failed w)),
       w\<lparr>db_failed := sql_delete (\<lambda>r. f_id r = jobID) (db_failed w)\<rparr>))"

section \<open>Reading\<close>

definition sqlite_failed_GetByID :: "JobID \<Rightarrow> 'a sqlite_scheme \<Rightarrow> (error + JobFailed) \<times> 'a sqlite_scheme" where
  "sqlite_failed_GetByID jobID w =
     (if JobID_IsZero jobID then (Inl (ErrNew ''%s: invalid id''), w)
      else case select_rows (\<lambda>w. row_at f_id (db_failed w) jobID) w of
             (Inl err, w) \<Rightarrow> (Inl err, w)
           | (Inr None, w) \<Rightarrow> (Inl (Sentinel ErrNoJobs), w)
           | (Inr (Some r), w) \<Rightarrow> (Inr (scanJobFailed r), w))"

definition sqlite_failed_FindByJobID :: "JobID \<Rightarrow> 'a sqlite_scheme \<Rightarrow> (error + JobFailed) \<times> 'a sqlite_scheme" where
  "sqlite_failed_FindByJobID jobID w =
     (if JobID_IsZero jobID then (Inl (ErrNew ''%s: invalid id''), w)
      else case select_rows (\<lambda>w. newest f_failed_at 1 (filter (\<lambda>r. f_job_id r = jobID) (db_failed w))) w of
             (Inl err, w) \<Rightarrow> (Inl err, w)
           | (Inr [], w) \<Rightarrow> (Inl (Sentinel ErrNoJobs), w)
           | (Inr (r # _), w) \<Rightarrow> (Inr (scanJobFailed r), w))"

definition sqlite_failed_All :: "'a sqlite_scheme \<Rightarrow> (error + JobFailed list) \<times> 'a sqlite_scheme" where
  "sqlite_failed_All w =
     (case select_rows (\<lambda>w. newest f_created_at 100 (db_failed w)) w of
        (Inl err, w) \<Rightarrow> (Inl err, w)
      | (Inr rows, w) \<Rightarrow> (Inr (map scanJobFailed rows), w))"

definition sqlite_failed_ListPaged ::
  "int \<Rightarrow> time \<Rightarrow> 'a sqlite_scheme \<Rightarrow> (error + JobFailed list) \<times> 'a sqlite_scheme" where
  "sqlite_failed_ListPaged limit before w =
     (let limit = (if limit \<le> 0 then 10 else limit)
      in case select_rows (\<lambda>w. newest f_created_at (nat limit)
             (filter (\<lambda>r. f_created_at r < UnixMilli before) (db_failed w))) w of
           (Inl err, w) \<Rightarrow> (Inl err, w)
         | (Inr rows, w) \<Rightarrow> (Inr (map scanJobFailed rows), w))"

definition sqlite_failed_CountExact :: "'a sqlite_scheme \<Rightarrow> (error + int) \<times> 'a sqlite_scheme" where
  "sqlite_failed_CountExact = select_rows (\<lambda>w. int (length (db_failed w)))"

definition failed_page_key :: "(uuid \<Rightarrow> string) \<Rightarrow> failed_row \<Rightarrow> int \<times> string" where
  "failed_page_key str r = (f_created_at r, JobID_String str (f_id r))"

definition sqlite_failed_ListPage ::
  "(uuid \<Rightarrow> string) \<Rightarrow> int \<Rightarrow> PageCursor option \<Rightarrow> 'a sqlite_scheme \<Rightarrow> (error + JobFailed list) \<times> 'a sqlite_scheme" where
  "sqlite_failed_ListPage str limit before w =
     (case page_limit limit of
        Inl err \<Rightarrow> (Inl err, w)
      | Inr n \<Rightarrow>
          (case select_rows (\<lambda>w. page (failed_page_key str) n (map_option (cursor_key str) before) (db_failed w)) w of
             (Inl err, w) \<Rightarrow> (Inl err, w)
           | (Inr rows, w) \<Rightarrow> (Inr (map scanJobFailed rows), w)))"

end
