(* ===== verification/Service_Options.thy ===== *)
theory Service_Options
  imports Retry_Policy Repository "HOL-Library.AList"
begin

text \<open>
  What a service is built from: the options of src/outbox/service_options.go, the registration of
  handlers and the drain flag of src/outbox/service.go. An interface value is an option, \<open>None\<close> for
  nil. The registries, Go maps from capabilities to handlers, are association lists.
\<close>

section \<open>Options\<close>

text \<open>A transactor, and what it answers as a \<open>TransactionCapabilities\<close> when it is one.\<close>

record 'w Transactor =
  tr_RunInTx :: "'w RunInTx"
  tr_SupportsAtomicDLQ :: "bool option"

text \<open>The logger and the observer are sinks: the model keeps whether they are set.\<close>

record 'w Options =
  o_workers :: int
  o_idleTime :: duration
  o_reserveFor :: duration
  o_reservationBatchSize :: int
  o_jobsRepo :: "'w JobsRepository option"
  o_fanoutJobsRepo :: "'w CreateJobVersionedUnique option"
  o_uniqueJobsRepo :: "'w CreateJobVersionedUniqueResult option"
  o_uniqueBatchJobsRepo :: "'w CreateJobVersionedUniqueBatch option"
  o_jobsStatRepo :: "'w GetQueueStats option"
  o_jobsFailedRepo :: "'w CreateFailedJobVersioned option"
  o_transactor :: "'w Transactor option"
  o_allowNonAtomicDLQ :: bool
  o_atomicDLQ :: bool
  o_retryPolicy :: "retry_policy option"
  o_observer :: bool
  o_logger :: bool

type_synonym 'w OptOptionsSetter = "'w Options \<Rightarrow> 'w Options"

definition WithWorkers :: "int \<Rightarrow> 'w OptOptionsSetter" where
  "WithWorkers workers opts = opts\<lparr>o_workers := workers\<rparr>"

definition WithIdleTime :: "duration \<Rightarrow> 'w OptOptionsSetter" where
  "WithIdleTime idleTime opts = opts\<lparr>o_idleTime := idleTime\<rparr>"

definition WithReserveFor :: "duration \<Rightarrow> 'w OptOptionsSetter" where
  "WithReserveFor reserveFor opts = opts\<lparr>o_reserveFor := reserveFor\<rparr>"

definition WithReservationBatchSize :: "int \<Rightarrow> 'w OptOptionsSetter" where
  "WithReservationBatchSize sz opts = opts\<lparr>o_reservationBatchSize := sz\<rparr>"

definition WithLogger :: "bool \<Rightarrow> 'w OptOptionsSetter" where
  "WithLogger logger opts = opts\<lparr>o_logger := logger\<rparr>"

definition WithTransactor :: "'w Transactor option \<Rightarrow> 'w OptOptionsSetter" where
  "WithTransactor transactor opts = opts\<lparr>o_transactor := transactor\<rparr>"

definition WithAllowNonAtomicDLQ :: "'w OptOptionsSetter" where
  "WithAllowNonAtomicDLQ opts = opts\<lparr>o_allowNonAtomicDLQ := True\<rparr>"

definition WithJobsRepo :: "'w JobsRepository option \<Rightarrow> 'w OptOptionsSetter" where
  "WithJobsRepo jobsRepo opts = opts\<lparr>o_jobsRepo := jobsRepo\<rparr>"

definition WithFanoutJobsRepo :: "'w CreateJobVersionedUnique option \<Rightarrow> 'w OptOptionsSetter" where
  "WithFanoutJobsRepo jobsRepo opts = opts\<lparr>o_fanoutJobsRepo := jobsRepo\<rparr>"

definition WithUniqueJobsRepo :: "'w CreateJobVersionedUniqueResult option \<Rightarrow> 'w OptOptionsSetter" where
  "WithUniqueJobsRepo jobsRepo opts = opts\<lparr>o_uniqueJobsRepo := jobsRepo\<rparr>"

definition WithUniqueBatchJobsRepo :: "'w CreateJobVersionedUniqueBatch option \<Rightarrow> 'w OptOptionsSetter" where
  "WithUniqueBatchJobsRepo jobsRepo opts = opts\<lparr>o_uniqueBatchJobsRepo := jobsRepo\<rparr>"

definition WithJobsStatRepo :: "'w GetQueueStats option \<Rightarrow> 'w OptOptionsSetter" where
  "WithJobsStatRepo jobsStatRepo opts = opts\<lparr>o_jobsStatRepo := jobsStatRepo\<rparr>"

definition WithJobsFailedRepo :: "'w CreateFailedJobVersioned option \<Rightarrow> 'w OptOptionsSetter" where
  "WithJobsFailedRepo jobsFailedRepo opts = opts\<lparr>o_jobsFailedRepo := jobsFailedRepo\<rparr>"

definition WithRetryPolicy :: "retry_policy option \<Rightarrow> 'w OptOptionsSetter" where
  "WithRetryPolicy policy opts = opts\<lparr>o_retryPolicy := policy\<rparr>"

definition WithObserver :: "bool \<Rightarrow> 'w OptOptionsSetter" where
  "WithObserver observer opts = opts\<lparr>o_observer := observer\<rparr>"

lemmas setter_defs =
  WithWorkers_def WithIdleTime_def WithReserveFor_def WithReservationBatchSize_def WithLogger_def
  WithTransactor_def WithAllowNonAtomicDLQ_def WithJobsRepo_def WithFanoutJobsRepo_def
  WithUniqueJobsRepo_def WithUniqueBatchJobsRepo_def WithJobsStatRepo_def WithJobsFailedRepo_def
  WithRetryPolicy_def WithObserver_def

section \<open>Validation\<close>

text \<open>A type assertion on a nil jobs repository fails.\<close>

definition detectOptionalRepositories :: "'w Options \<Rightarrow> 'w Options" where
  "detectOptionalRepositories opts =
     (let opts = (if o_uniqueJobsRepo opts = None
                  then opts\<lparr>o_uniqueJobsRepo := Option.bind (o_jobsRepo opts) asUniqueJobsRepository\<rparr> else opts);
          opts = (if o_uniqueBatchJobsRepo opts = None
                  then opts\<lparr>o_uniqueBatchJobsRepo := Option.bind (o_jobsRepo opts) asUniqueBatchJobsRepository\<rparr>
                  else opts)
      in if o_jobsStatRepo opts = None
         then opts\<lparr>o_jobsStatRepo := Option.bind (o_jobsRepo opts) asJobsStatRepository\<rparr> else opts)"

definition validateReservationBatch :: "'w JobsRepository \<Rightarrow> 'w Options \<Rightarrow> error option" where
  "validateReservationBatch jobsRepo opts =
     (if o_reservationBatchSize opts < 1 \<or> o_reservationBatchSize opts > MaxReservationBatchSize
      then Some (ErrNew ''invalid reservation batch size: %d (must be between 1 and %d)'')
      else
        (let repositoryMax = MaxReservationBatch jobsRepo
         in if repositoryMax < 1
            then Some (ErrNew ''invalid repository reservation batch maximum: %d'')
            else if o_reservationBatchSize opts > repositoryMax
            then Some (ErrWrap ''%w: requested %d, repository maximum %d''
                   [Sentinel ErrReservationBatchSizeUnsupported])
            else None))"

text \<open>\<open>Validate\<close> also records in the options whether the transactor promises an atomic DLQ.\<close>

definition Options_Validate :: "'w Options \<Rightarrow> error option \<times> 'w Options" where
  "Options_Validate opts =
     (case o_jobsRepo opts of
        None \<Rightarrow> (Some (ErrNew ''nil jobsRepo''), opts)
      | Some jobsRepo \<Rightarrow>
      if o_jobsFailedRepo opts = None then (Some (ErrNew ''nil jobsFailedRepo''), opts)
      else case o_transactor opts of
        None \<Rightarrow> (Some (ErrNew ''nil transactor''), opts)
      | Some tc \<Rightarrow>
      (let supportsCapabilities = (tr_SupportsAtomicDLQ tc \<noteq> None);
           opts = opts\<lparr>o_atomicDLQ := (tr_SupportsAtomicDLQ tc = Some True)\<rparr>
       in if \<not> supportsCapabilities \<and> \<not> o_allowNonAtomicDLQ opts
          then (Some (Sentinel ErrTransactionCapabilitiesRequired), opts)
          else if supportsCapabilities \<and> \<not> o_atomicDLQ opts \<and> \<not> o_allowNonAtomicDLQ opts
          then (Some (Sentinel ErrNonAtomicDLQUnsupported), opts)
          else if \<not> o_logger opts then (Some (ErrNew ''nil logger''), opts)
          else if o_workers opts < 1 then (Some (ErrNew ''invalid number of workers: %d''), opts)
          else if o_idleTime opts < 100 * millisecond \<or> o_idleTime opts > 10 * second
          then (Some (ErrNew ''invalid idle time: %s''), opts)
          else if o_reserveFor opts < 1 * second \<or> o_reserveFor opts > 10 * (60 * second)
          then (Some (ErrNew ''invalid reserve for: %s''), opts)
          else (validateReservationBatch jobsRepo opts, opts)))"

definition default_Options :: "'w Options" where
  "default_Options =
     \<lparr>o_workers = 1, o_idleTime = second, o_reserveFor = 5 * (60 * second), o_reservationBatchSize = 1,
      o_jobsRepo = None, o_fanoutJobsRepo = None, o_uniqueJobsRepo = None, o_uniqueBatchJobsRepo = None,
      o_jobsStatRepo = None, o_jobsFailedRepo = None, o_transactor = None, o_allowNonAtomicDLQ = False,
      o_atomicDLQ = False, o_retryPolicy = None, o_observer = False, o_logger = True\<rparr>"

definition NewOptions :: "'w OptOptionsSetter list \<Rightarrow> error + 'w Options" where
  "NewOptions options =
     (let opts = detectOptionalRepositories (fold (\<lambda>opt opts. opt opts) options default_Options)
      in case Options_Validate opts of
           (Some err, opts) \<Rightarrow> Inl (the (errors_Join [Some (Sentinel ErrOption), Some err]))
         | (None, opts) \<Rightarrow> Inr opts)"

section \<open>Handlers and the service\<close>

text \<open>A handler runs on the world and returns an error or panics.\<close>

record 'w JobHandler =
  h_Name :: string
  h_SchemaVersion :: "SchemaVersion option"
  h_MaxAttempts :: int
  h_ExecutionTimeout :: duration
  h_Handle :: "ctx \<Rightarrow> string \<Rightarrow> 'w \<Rightarrow> error option call \<times> 'w"

record 'w BatchJobHandler =
  bh_Name :: string
  bh_SchemaVersion :: "SchemaVersion option"
  bh_MaxAttempts :: int
  bh_ExecutionTimeout :: duration
  bh_HandleBatch :: "ctx \<Rightarrow> BatchJobItem list \<Rightarrow> 'w \<Rightarrow> (BatchItemResult list \<times> error option) call \<times> 'w"

record 'w batchJobRegistration =
  reg_job :: "'w BatchJobHandler"
  reg_config :: BatchConfig

record 'w Service =
  sv_Options :: "'w Options"
  sv_jobs :: "(JobCapability \<times> 'w JobHandler) list"
  sv_batchJobs :: "(JobCapability \<times> 'w batchJobRegistration) list"
  sv_running :: bool
  sv_ready :: bool
  sv_drain :: bool

text \<open>The first loop of \<open>RegisterJobs\<close>: the capabilities of the batch, or the first bad job.\<close>

fun collect_capabilities ::
  "'w JobHandler option list \<Rightarrow> (JobCapability \<times> 'w JobHandler) list \<Rightarrow>
   error + (JobCapability \<times> 'w JobHandler) list" where
  "collect_capabilities [] capabilities = Inr capabilities"
| "collect_capabilities (None # jobs) capabilities = Inl (ErrNew ''job %d is nil'')"
| "collect_capabilities (Some job # jobs) capabilities =
     (case capabilityForJob (h_Name job) (h_SchemaVersion job) of
        Inl err \<Rightarrow> Inl (ErrWrap ''job %d capability: %w'' [err])
      | Inr capability \<Rightarrow>
          if map_of capabilities capability \<noteq> None
          then Inl (ErrNew ''job %q schema version %d is duplicated in registration batch'')
          else collect_capabilities jobs (capabilities @ [(capability, job)]))"

text \<open>The conflict with an earlier registration that is reported first. Go ranges over a map here; the
  model ranges over the batch in its order.\<close>

definition registered_conflict :: "'w Service \<Rightarrow> JobCapability list \<Rightarrow> error option" where
  "registered_conflict s capabilities =
     first_some (\<lambda>capability.
         if map_of (sv_jobs s) capability \<noteq> None
         then Some (ErrNew ''job %q schema version %d already registered'')
         else if map_of (sv_batchJobs s) capability \<noteq> None
         then Some (ErrNew ''job %q schema version %d already registered as a batch job'')
         else None) capabilities"

definition RegisterJobs :: "'w JobHandler option list \<Rightarrow> 'w Service \<Rightarrow> error option \<times> 'w Service" where
  "RegisterJobs jobs s =
     (case collect_capabilities jobs [] of
        Inl err \<Rightarrow> (Some err, s)
      | Inr capabilities \<Rightarrow>
          if sv_running s then (Some (Sentinel ErrServiceRunning), s)
          else case registered_conflict s (map fst capabilities) of
                 Some err \<Rightarrow> (Some err, s)
               | None \<Rightarrow>
                   (None, s\<lparr>sv_jobs := fold (\<lambda>(capability, job). AList.update capability job) capabilities (sv_jobs s)\<rparr>))"

definition RegisterJob :: "'w JobHandler option \<Rightarrow> 'w Service \<Rightarrow> error option \<times> 'w Service" where
  "RegisterJob job s = RegisterJobs [job] s"

definition RegisterBatchJob ::
  "'w BatchJobHandler option \<Rightarrow> BatchConfig \<Rightarrow> 'w Service \<Rightarrow> error option \<times> 'w Service" where
  "RegisterBatchJob job config s =
     (case job of
        None \<Rightarrow> (Some (ErrNew ''batch job is nil''), s)
      | Some job \<Rightarrow>
     (case Option.bind (o_jobsRepo (sv_Options s)) asBatchJobsRepository of
        None \<Rightarrow> (Some (Sentinel ErrBatchRepositoryNotConfigured), s)
      | Some batchRepo \<Rightarrow>
     (case BatchConfig_normalize config of
        Inl err \<Rightarrow> (Some (ErrWrap ''batch config: %w'' [err]), s)
      | Inr normalized \<Rightarrow>
     (let repositoryMax = MaxExecutionBatchSize batchRepo
      in if repositoryMax < 1 \<or> bc_MaxMessages normalized > repositoryMax
         then (Some (ErrWrap ''%w: requested %d, repository maximum %d''
                 [Sentinel ErrReservationBatchSizeUnsupported]), s)
         else case capabilityForBatchJob (bh_Name job) (bh_SchemaVersion job) of
           Inl err \<Rightarrow> (Some (ErrWrap ''batch job capability: %w'' [err]), s)
         | Inr capability \<Rightarrow>
         if sv_running s then (Some (Sentinel ErrServiceRunning), s)
         else if map_of (sv_jobs s) capability \<noteq> None
         then (Some (ErrNew ''job %q schema version %d already registered as a single job''), s)
         else if map_of (sv_batchJobs s) capability \<noteq> None
         then (Some (ErrNew ''batch job %q schema version %d already registered''), s)
         else (None, s\<lparr>sv_batchJobs :=
                 AList.update capability \<lparr>reg_job = job, reg_config = normalized\<rparr> (sv_batchJobs s)\<rparr>)))))"

text \<open>The variants that panic instead of returning an error.\<close>

definition must :: "string \<Rightarrow> error option \<times> 'w Service \<Rightarrow> 'w Service call" where
  "must what r = (case r of (Some err, s) \<Rightarrow> Panics what | (None, s) \<Rightarrow> Returns s)"

definition MustRegisterBatchJob :: "'w BatchJobHandler option \<Rightarrow> BatchConfig \<Rightarrow> 'w Service \<Rightarrow> 'w Service call" where
  "MustRegisterBatchJob job config s = must ''register batch job: %w'' (RegisterBatchJob job config s)"

definition MustRegisterJob :: "'w JobHandler option \<Rightarrow> 'w Service \<Rightarrow> 'w Service call" where
  "MustRegisterJob job s = must ''register job: %w'' (RegisterJob job s)"

definition MustRegisterJobs :: "'w JobHandler option list \<Rightarrow> 'w Service \<Rightarrow> 'w Service call" where
  "MustRegisterJobs jobs s = must ''register jobs: %w'' (RegisterJobs jobs s)"

text \<open>\<open>New\<close>; \<open>dispatcher\<close> builds the fan-out dispatcher from the repository and the transactor.\<close>

definition New ::
  "('w CreateJobVersionedUnique \<Rightarrow> 'w Transactor option \<Rightarrow> 'w JobHandler) \<Rightarrow> 'w OptOptionsSetter list \<Rightarrow>
   error + 'w Service" where
  "New dispatcher options =
     (case NewOptions options of
        Inl err \<Rightarrow> Inl (ErrWrap ''validate options: %w'' [err])
      | Inr opts \<Rightarrow>
          (let service = \<lparr>sv_Options = opts, sv_jobs = [], sv_batchJobs = [],
                          sv_running = False, sv_ready = False, sv_drain = False\<rparr>
           in case o_fanoutJobsRepo opts of
                None \<Rightarrow> Inr service
              | Some repo \<Rightarrow>
                  (case RegisterJob (Some (dispatcher repo (o_transactor opts))) service of
                     (Some err, _) \<Rightarrow> Inl (ErrWrap ''register fan-out dispatcher: %w'' [err])
                   | (None, service) \<Rightarrow> Inr service)))"

definition registeredSingleCapabilities :: "'w Service \<Rightarrow> JobCapability list" where
  "registeredSingleCapabilities s = sortCapabilities (map fst (sv_jobs s))"

definition registeredBatchCapabilities :: "'w Service \<Rightarrow> JobCapability list" where
  "registeredBatchCapabilities s = sortCapabilities (map fst (sv_batchJobs s))"

section \<open>The registry invariant\<close>

text \<open>Accepted options: what \<open>Validate\<close> leaves to rely on.\<close>

definition options_ok :: "'w Options \<Rightarrow> bool" where
  "options_ok opts \<longleftrightarrow>
     o_jobsRepo opts \<noteq> None \<and> o_jobsFailedRepo opts \<noteq> None \<and> o_transactor opts \<noteq> None \<and> o_logger opts \<and>
     1 \<le> o_workers opts \<and>
     100 * millisecond \<le> o_idleTime opts \<and> o_idleTime opts \<le> 10 * second \<and>
     second \<le> o_reserveFor opts \<and> o_reserveFor opts \<le> 600 * second \<and>
     1 \<le> o_reservationBatchSize opts \<and> o_reservationBatchSize opts \<le> MaxReservationBatchSize \<and>
     o_reservationBatchSize opts \<le> MaxReservationBatch (the (o_jobsRepo opts)) \<and>
     (o_atomicDLQ opts \<longleftrightarrow> tr_SupportsAtomicDLQ (the (o_transactor opts)) = Some True) \<and>
     (o_atomicDLQ opts \<or> o_allowNonAtomicDLQ opts)"

lemma guard_None: "(if b then (Some e, x) else r) = (None, y) \<longleftrightarrow> \<not> b \<and> r = (None, y)"
  by simp

lemma validateReservationBatch_None:
  "validateReservationBatch repo opts = None \<longleftrightarrow>
     1 \<le> o_reservationBatchSize opts \<and> o_reservationBatchSize opts \<le> MaxReservationBatchSize \<and>
     o_reservationBatchSize opts \<le> MaxReservationBatch repo"
  by (auto simp: validateReservationBatch_def Let_def)

lemma Options_Validate_None:
  assumes "Options_Validate opts = (None, opts')"
  shows "options_ok opts'"
proof -
  obtain repo tc where r: "o_jobsRepo opts = Some repo" "o_jobsFailedRepo opts \<noteq> None" "o_transactor opts = Some tc"
    using assms by (auto simp: Options_Validate_def split: option.splits if_splits)
  have "opts' = opts\<lparr>o_atomicDLQ := (tr_SupportsAtomicDLQ tc = Some True)\<rparr>"
    and "tr_SupportsAtomicDLQ tc = Some True \<or> o_allowNonAtomicDLQ opts"
    and "o_logger opts" "1 \<le> o_workers opts"
      "100 * millisecond \<le> o_idleTime opts" "o_idleTime opts \<le> 10 * second"
      "second \<le> o_reserveFor opts" "o_reserveFor opts \<le> 600 * second"
    and "validateReservationBatch repo opts' = None"
    using assms r(2) unfolding Options_Validate_def r(1,3) option.case Let_def
    by (simp_all only: guard_None if_False, auto)
  then show ?thesis
    using r by (simp add: options_ok_def validateReservationBatch_None)
qed

text \<open>A batch configuration as \<open>normalize\<close> returns it, for a repository that executes at most
  \<open>repositoryMax\<close> jobs together.\<close>

definition config_ok :: "int \<Rightarrow> BatchConfig \<Rightarrow> bool" where
  "config_ok repositoryMax config \<longleftrightarrow>
     1 \<le> bc_MaxMessages config \<and> bc_MaxMessages config \<le> MaxReservationBatchSize \<and>
     bc_MaxMessages config \<le> repositoryMax \<and>
     1 \<le> bc_MaxBytes config \<and> bc_MaxBytes config \<le> MaxInt32 \<and> 1 \<le> bc_MaxWait config"

lemma BatchConfig_normalize_ok:
  assumes "BatchConfig_normalize c = Inr n" "bc_MaxMessages n \<le> repositoryMax"
  shows "config_ok repositoryMax n"
  using assms
  by (auto simp: BatchConfig_normalize_def config_ok_def Let_def defaultBatchMaxMessages_def
      defaultBatchMaxBytes_def defaultBatchMaxWait_def MaxReservationBatchSize_def MaxInt32_def
      millisecond_def split: if_splits)

definition batch_maximum :: "'w Service \<Rightarrow> int" where
  "batch_maximum s =
     (case Option.bind (o_jobsRepo (sv_Options s)) asBatchJobsRepository of
        None \<Rightarrow> 0 | Some batchRepo \<Rightarrow> MaxExecutionBatchSize batchRepo)"

text \<open>Every handler is filed under its own valid capability, no capability has two handlers, and batch
  handlers have limits the repository can serve.\<close>

definition registry_ok :: "'w Service \<Rightarrow> bool" where
  "registry_ok s \<longleftrightarrow>
     distinct (map fst (sv_jobs s) @ map fst (sv_batchJobs s)) \<and>
     (\<forall>(capability, job) \<in> set (sv_jobs s). capabilityForJob (h_Name job) (h_SchemaVersion job) = Inr capability) \<and>
     (\<forall>(capability, reg) \<in> set (sv_batchJobs s).
        capabilityForJob (bh_Name (reg_job reg)) (bh_SchemaVersion (reg_job reg)) = Inr capability \<and>
        config_ok (batch_maximum s) (reg_config reg))"

text \<open>The calls a host makes before it runs the service.\<close>

datatype 'w registration = RegSingle "'w JobHandler option list" | RegBatch "'w BatchJobHandler option" BatchConfig

fun apply_registration :: "'w registration \<Rightarrow> 'w Service \<Rightarrow> 'w Service" where
  "apply_registration (RegSingle jobs) s = snd (RegisterJobs jobs s)"
| "apply_registration (RegBatch job config) s = snd (RegisterBatchJob job config s)"

lemma collect_capabilities_Inr:
  assumes "collect_capabilities jobs cs = Inr cs'" "distinct (map fst cs)"
    and "\<forall>(c, job) \<in> set cs. capabilityForJob (h_Name job) (h_SchemaVersion job) = Inr c"
  shows "distinct (map fst cs') \<and>
         (\<forall>(c, job) \<in> set cs'. capabilityForJob (h_Name job) (h_SchemaVersion job) = Inr c) \<and>
         map Some (map snd cs') = map Some (map snd cs) @ jobs"
  using assms
proof (induction jobs cs rule: collect_capabilities.induct)
  case (3 job jobs cs)
  then show ?case
    by (auto split: sum.splits if_splits simp: map_of_eq_None_iff)
qed auto

lemma registered_conflict_None:
  "registered_conflict s cs = None \<longleftrightarrow>
     set cs \<inter> (fst ` set (sv_jobs s) \<union> fst ` set (sv_batchJobs s)) = {}"
  by (induction cs) (auto simp: registered_conflict_def map_of_eq_None_iff split: if_splits option.splits)

lemma fold_update_fresh:
  assumes "distinct (map fst kvs)" "fst ` set kvs \<inter> fst ` set al = {}"
  shows "fold (\<lambda>(k, v). AList.update k v) kvs al = al @ kvs"
  using assms
proof (induction kvs arbitrary: al)
  case (Cons kv kvs)
  have "AList.update (fst kv) (snd kv) al = al @ [kv]"
    using Cons.prems(2) by (induction al) auto
  then show ?case
    using Cons by (auto simp: case_prod_beta)
qed simp

text \<open>The one way a registration of single handlers succeeds.\<close>

lemma RegisterJobs_None:
  assumes "RegisterJobs jobs s = (None, s')"
  obtains cs where "s' = s\<lparr>sv_jobs := sv_jobs s @ cs\<rparr>" "map Some (map snd cs) = jobs"
    "distinct (map fst cs)" "\<not> sv_running s"
    "\<forall>(c, job) \<in> set cs. capabilityForJob (h_Name job) (h_SchemaVersion job) = Inr c"
    "fst ` set cs \<inter> (fst ` set (sv_jobs s) \<union> fst ` set (sv_batchJobs s)) = {}"
proof -
  obtain cs where cs: "collect_capabilities jobs [] = Inr cs" and run: "\<not> sv_running s"
    and free: "registered_conflict s (map fst cs) = None"
    and s': "s' = s\<lparr>sv_jobs := fold (\<lambda>(c, job). AList.update c job) cs (sv_jobs s)\<rparr>"
    using assms by (auto simp: RegisterJobs_def split: sum.splits if_splits option.splits)
  have props: "distinct (map fst cs)"
      "\<forall>(c, job) \<in> set cs. capabilityForJob (h_Name job) (h_SchemaVersion job) = Inr c"
      "map Some (map snd cs) = jobs"
    using collect_capabilities_Inr [OF cs] by auto
  have fresh: "fst ` set cs \<inter> (fst ` set (sv_jobs s) \<union> fst ` set (sv_batchJobs s)) = {}"
    using free by (simp add: registered_conflict_None)
  then have "s' = s\<lparr>sv_jobs := sv_jobs s @ cs\<rparr>"
    using props(1) by (simp add: s' fold_update_fresh Int_Un_distrib)
  then show ?thesis
    using props fresh run that by blast
qed

lemma RegisterJobs_error: "RegisterJobs jobs s = (Some err, s') \<Longrightarrow> s' = s"
  by (auto simp: RegisterJobs_def split: sum.splits if_splits option.splits)

lemma RegisterJobs_registry:
  assumes "registry_ok s"
  shows "registry_ok (snd (RegisterJobs jobs s))"
proof (cases "RegisterJobs jobs s")
  case (Pair r s')
  show ?thesis
  proof (cases r)
    case None
    with Pair obtain cs where
      s': "s' = s\<lparr>sv_jobs := sv_jobs s @ cs\<rparr>" and d: "distinct (map fst cs)"
      and c: "\<forall>(c, job) \<in> set cs. capabilityForJob (h_Name job) (h_SchemaVersion job) = Inr c"
      and f: "fst ` set cs \<inter> (fst ` set (sv_jobs s) \<union> fst ` set (sv_batchJobs s)) = {}"
      by (auto elim: RegisterJobs_None)
    have "batch_maximum s' = batch_maximum s"
      by (simp add: s' batch_maximum_def)
    then show ?thesis
      using assms d c f by (auto simp: Pair s' registry_ok_def)
  next
    case (Some err)
    then show ?thesis
      using assms RegisterJobs_error Pair by fastforce
  qed
qed

lemma update_fresh: "k \<notin> fst ` set al \<Longrightarrow> AList.update k v al = al @ [(k, v)]"
  by (induction al) auto

lemma RegisterBatchJob_cases:
  obtains (same) err where "RegisterBatchJob job config s = (Some err, s)"
  | (added) j n c where
      "RegisterBatchJob job config s =
         (None, s\<lparr>sv_batchJobs := sv_batchJobs s @ [(c, \<lparr>reg_job = j, reg_config = n\<rparr>)]\<rparr>)"
      "job = Some j" "config_ok (batch_maximum s) n"
      "capabilityForJob (bh_Name j) (bh_SchemaVersion j) = Inr c"
      "c \<notin> fst ` set (sv_jobs s)" "c \<notin> fst ` set (sv_batchJobs s)"
proof (cases "\<exists>j b n c. job = Some j \<and>
    Option.bind (o_jobsRepo (sv_Options s)) asBatchJobsRepository = Some b \<and>
    BatchConfig_normalize config = Inr n \<and> capabilityForJob (bh_Name j) (bh_SchemaVersion j) = Inr c \<and>
    \<not> (MaxExecutionBatchSize b < 1 \<or> bc_MaxMessages n > MaxExecutionBatchSize b) \<and> \<not> sv_running s \<and>
    map_of (sv_jobs s) c = None \<and> map_of (sv_batchJobs s) c = None")
  case True
  then obtain j b n c where
    1: "job = Some j" "Option.bind (o_jobsRepo (sv_Options s)) asBatchJobsRepository = Some b"
       "BatchConfig_normalize config = Inr n" "capabilityForJob (bh_Name j) (bh_SchemaVersion j) = Inr c"
       "\<not> (MaxExecutionBatchSize b < 1 \<or> bc_MaxMessages n > MaxExecutionBatchSize b)" "\<not> sv_running s"
       "map_of (sv_jobs s) c = None" "map_of (sv_batchJobs s) c = None"
    by blast
  have free: "c \<notin> fst ` set (sv_jobs s)" "c \<notin> fst ` set (sv_batchJobs s)"
    using 1(7,8) by (simp_all add: map_of_eq_None_iff)
  have "config_ok (batch_maximum s) n"
    using 1(2,3,5) BatchConfig_normalize_ok by (simp add: batch_maximum_def)
  then show ?thesis
    using 1 free by (intro added) (simp_all add: RegisterBatchJob_def capabilityForBatchJob_eq update_fresh)
next
  case False
  then have "\<exists>err. RegisterBatchJob job config s = (Some err, s)"
    unfolding RegisterBatchJob_def capabilityForBatchJob_eq Let_def
    by (auto split: option.split sum.split)
  then show ?thesis
    using same by blast
qed

lemma RegisterBatchJob_registry:
  assumes "registry_ok s"
  shows "registry_ok (snd (RegisterBatchJob job config s))"
proof (cases rule: RegisterBatchJob_cases [of job config s])
  case (added j n c)
  then show ?thesis
    using assms by (auto simp: registry_ok_def batch_maximum_def)
qed (use assms in simp)

lemma registrations_registry:
  "registry_ok s \<Longrightarrow> registry_ok (fold apply_registration calls s)"
proof (induction calls arbitrary: s)
  case (Cons call calls)
  then have "registry_ok (apply_registration call s)"
    by (cases call) (auto intro: RegisterJobs_registry RegisterBatchJob_registry)
  with Cons.IH show ?case by simp
qed simp

lemma New_ok:
  assumes "New dispatcher options = Inr s"
  shows "registry_ok s \<and> options_ok (sv_Options s) \<and> \<not> sv_running s \<and> \<not> sv_drain s"
proof -
  obtain opts where opts: "NewOptions options = Inr opts"
    using assms by (auto simp: New_def split: sum.splits)
  then have "options_ok opts"
    by (auto simp: NewOptions_def Let_def Options_Validate_None split: prod.splits option.splits)
  moreover define s0 where "s0 = \<lparr>sv_Options = opts, sv_jobs = [], sv_batchJobs = [],
      sv_running = False, sv_ready = False, sv_drain = False\<rparr>"
  have "registry_ok s0"
    by (simp add: s0_def registry_ok_def)
  moreover have "s = s0 \<or> (\<exists>job. RegisterJobs [job] s0 = (None, s))"
    using assms opts by (auto simp: New_def s0_def RegisterJob_def Let_def split: option.splits prod.splits)
  moreover have "registry_ok s' \<and> sv_Options s' = sv_Options s0 \<and> sv_running s' = sv_running s0 \<and>
      sv_drain s' = sv_drain s0" if "RegisterJobs [job] s0 = (None, s')" for job s'
    using that RegisterJobs_registry [OF \<open>registry_ok s0\<close>, of "[job]"] by (auto elim!: RegisterJobs_None)
  ultimately show ?thesis
    by (auto simp: s0_def)
qed

lemma registered_capabilities_sorted:
  assumes "registry_ok s"
  shows "sorted (map capability_key (registeredSingleCapabilities s))"
    "distinct (registeredSingleCapabilities s)"
    "set (registeredSingleCapabilities s) = fst ` set (sv_jobs s)"
    "distinct (registeredBatchCapabilities s)"
    "set (registeredBatchCapabilities s) = fst ` set (sv_batchJobs s)"
  using assms
  by (simp_all add: registeredSingleCapabilities_def registeredBatchCapabilities_def sortCapabilities_def
      registry_ok_def)

section \<open>Properties\<close>

text \<open>C30. A service that \<open>New\<close> accepts and on which any sequence of registrations was tried files every
  handler under its own valid capability, has at most one handler, single or batch, for a capability,
  has for each batch handler limits that are positive and that the repository can serve, and runs on
  options within their documented bounds.\<close>

theorem registration_keeps_registry:
  assumes "New dispatcher options = Inr s"
  shows "registry_ok (fold apply_registration calls s) \<and> options_ok (sv_Options s)"
  using New_ok [OF assms] by (simp add: registrations_registry)

text \<open>A repository that has no jobs, and a service on it.\<close>

definition idle_repo :: "unit JobsRepository" where
  "idle_repo =
     \<lparr>CreateJobVersioned = \<lambda>_ _ _ _ _ w. (Inr (JobID 1), w),
      FindAndReserveJobsForCapabilities = \<lambda>_ _ _ _ _ _ w. (Inl (Sentinel ErrNoJobs), w),
      ExtendJobLeases = \<lambda>_ _ _ _ _ w. (Inr 0, w), ReleaseUnstartedJobsWithLease = \<lambda>_ _ _ _ w. (Inr 0, w),
      DeleteJobWithLease = \<lambda>_ _ _ _ w. (Inr 0, w), RescheduleJobWithLease = \<lambda>_ _ _ _ _ w. (Inr 0, w),
      MaxReservationBatch = 1000,
      asBatchJobsRepository = Some
        \<lparr>FindAndReserveJobsForCapability = \<lambda>_ _ _ _ _ _ w. (Inl (Sentinel ErrNoJobs), w),
         ApplyBatchJobOutcomes = \<lambda>_ _ _ _ w. (Inr 0, w), MaxExecutionBatchSize = 100,
         FindAndReserveJobsForCapabilityBounded = None\<rparr>,
      asDeferJobsRepository = None, asUniqueJobsRepository = None, asUniqueBatchJobsRepository = None,
      asJobsStatRepository = None\<rparr>"

definition idle_options :: "unit OptOptionsSetter list" where
  "idle_options =
     [WithJobsRepo (Some idle_repo), WithJobsFailedRepo (Some (\<lambda>_ id _ _ _ _ w. (Inr id, w))),
      WithTransactor (Some \<lparr>tr_RunInTx = \<lambda>_ f w. f w, tr_SupportsAtomicDLQ = Some True\<rparr>)]"

definition echo_handler :: "string \<Rightarrow> unit JobHandler" where
  "echo_handler nm =
     \<lparr>h_Name = nm, h_SchemaVersion = None, h_MaxAttempts = 3, h_ExecutionTimeout = second,
      h_Handle = \<lambda>_ _ w. (Returns None, w)\<rparr>"

definition idle_service :: "unit Service" where
  "idle_service =
     \<lparr>sv_Options = snd (Options_Validate (fold (\<lambda>opt opts. opt opts) idle_options default_Options)),
      sv_jobs = [], sv_batchJobs = [], sv_running = False, sv_ready = False, sv_drain = False\<rparr>"

lemma New_idle: "New (\<lambda>_ _. echo_handler ''fanout'') idle_options = Inr idle_service"
  by (simp add: New_def NewOptions_def idle_options_def idle_service_def default_Options_def setter_defs
      detectOptionalRepositories_def Options_Validate_def validateReservationBatch_def idle_repo_def
      MaxReservationBatchSize_def second_def millisecond_def)

theorem registration_keeps_registry_witness:
  "New (\<lambda>_ _. echo_handler ''fanout'') idle_options = Inr idle_service \<and>
   registry_ok (fold apply_registration
     [RegSingle [Some (echo_handler ''mail''), Some (echo_handler ''sms'')],
      RegSingle [Some (echo_handler ''push''), Some (echo_handler ''mail'')]] idle_service)"
  using registration_keeps_registry [OF New_idle,
    of "[RegSingle [Some (echo_handler ''mail''), Some (echo_handler ''sms'')],
      RegSingle [Some (echo_handler ''push''), Some (echo_handler ''mail'')]]"]
  by (simp only: New_idle simp_thms)

text \<open>C31. \<open>RegisterJobs\<close> is atomic: it either reports an error and leaves the service as it was, or it
  reports none and then exactly the handlers of the batch have been added, each found under its own
  capability, while every other capability is answered as before.\<close>

theorem RegisterJobs_atomic:
  "(\<exists>err. RegisterJobs jobs s = (Some err, s)) \<or>
   (\<exists>cs. RegisterJobs jobs s = (None, s\<lparr>sv_jobs := sv_jobs s @ cs\<rparr>) \<and>
         map Some (map snd cs) = jobs \<and> distinct (map fst cs) \<and>
         map_of (sv_jobs s @ cs) = map_of (sv_jobs s) ++ map_of cs \<and>
         list_all (\<lambda>(c, job). capabilityForJob (h_Name job) (h_SchemaVersion job) = Inr c \<and>
           map_of (sv_jobs s) c = None \<and> map_of (sv_batchJobs s) c = None) cs)"
proof (cases "RegisterJobs jobs s")
  case (Pair r s')
  show ?thesis
  proof (cases r)
    case None
    with Pair obtain cs where cs: "s' = s\<lparr>sv_jobs := sv_jobs s @ cs\<rparr>" "map Some (map snd cs) = jobs"
      "distinct (map fst cs)"
      "\<forall>(c, job) \<in> set cs. capabilityForJob (h_Name job) (h_SchemaVersion job) = Inr c"
      "fst ` set cs \<inter> (fst ` set (sv_jobs s) \<union> fst ` set (sv_batchJobs s)) = {}"
      by (auto elim: RegisterJobs_None)
    have "map_of (sv_jobs s @ cs) = map_of (sv_jobs s) ++ map_of cs"
      using cs(5) by (subst map_of_append, intro map_add_comm) (auto simp: dom_map_of_conv_image_fst)
    moreover have "list_all (\<lambda>(c, job). capabilityForJob (h_Name job) (h_SchemaVersion job) = Inr c \<and>
           map_of (sv_jobs s) c = None \<and> map_of (sv_batchJobs s) c = None) cs"
      using cs(4,5) by (force simp: list_all_iff map_of_eq_None_iff)
    ultimately show ?thesis
      using cs(1-3) None Pair by blast
  next
    case (Some err)
    then show ?thesis
      using Pair RegisterJobs_error [of jobs s err s'] by blast
  qed
qed

end
