(* ===== verification/Go_Format.thy ===== *)
theory Go_Format
  imports Go_Base "HOL-Library.Word"
begin

unbundle bit_operations_syntax

text \<open>
  The formatting functions of Go's standard library that end up in stored data: decimal numbers
  (\<open>strconv.Itoa\<close>, \<open>strconv.FormatInt\<close>), instants in the layout \<open>time.RFC3339Nano\<close> in UTC, and the
  hexadecimal SHA-256 digest of a string. A string is the list of its bytes. The lemmas show that
  numbers, length-prefixed strings and instants are determined by their text.
\<close>

section \<open>Decimal numbers\<close>

definition digit :: "int \<Rightarrow> char" where
  "digit d = char_of (48 + nat d)"

function decimal :: "int \<Rightarrow> string" where
  "decimal n = (if n < 10 then [digit n] else decimal (n div 10) @ [digit (n mod 10)])"
  by pat_completeness auto
termination
  by (relation "measure nat") auto

declare decimal.simps [simp del]

definition Itoa :: "int \<Rightarrow> string" where
  "Itoa i = (if i < 0 then CHR ''-'' # decimal (- i) else decimal i)"

text \<open>A number padded with zeros to a width, as the fields of a date are.\<close>

definition padded :: "nat \<Rightarrow> int \<Rightarrow> string" where
  "padded width i =
     (let ds = decimal \<bar>i\<bar>; body = replicate (width - length ds) CHR ''0'' @ ds
      in if i < 0 then CHR ''-'' # body else body)"

section \<open>Instants\<close>

text \<open>The date of a day counted from 0001-01-01: whole cycles of 400, 100, 4 and 1 years, where a cycle
  that would be the fifth of four belongs to the fourth; the rest is the day of the year.\<close>

definition clamp4 :: "int \<Rightarrow> int" where
  "clamp4 n = n - n div 4"

definition year_day :: "int \<Rightarrow> int \<times> int" where
  "year_day d =
     (let n400 = d div 146097; d400 = d mod 146097;
          n100 = clamp4 (d400 div 36524); d100 = d400 - 36524 * n100;
          n4 = d100 div 1461; d4 = d100 mod 1461;
          n1 = clamp4 (d4 div 365)
      in (400 * n400 + 100 * n100 + 4 * n4 + n1 + 1, d4 - 365 * n1))"

definition is_leap :: "int \<Rightarrow> bool" where
  "is_leap y \<longleftrightarrow> y mod 4 = 0 \<and> (y mod 100 \<noteq> 0 \<or> y mod 400 = 0)"

definition month_lengths :: "bool \<Rightarrow> int list" where
  "month_lengths leap = [31, if leap then 29 else 28, 31, 30, 31, 30, 31, 31, 30, 31, 30, 31]"

fun month_day :: "int list \<Rightarrow> int \<Rightarrow> int \<Rightarrow> int \<times> int" where
  "month_day [] m d = (m, d + 1)"
| "month_day (l # ls) m d = (if d < l then (m, d + 1) else month_day ls (m + 1) (d - l))"

definition trim_zeros :: "string \<Rightarrow> string" where
  "trim_zeros s = rev (dropWhile (\<lambda>c. c = CHR ''0'') (rev s))"

definition fraction :: "int \<Rightarrow> string" where
  "fraction ns = (if ns = 0 then [] else CHR ''.'' # trim_zeros (padded 9 ns))"

text \<open>\<open>t.UTC().Format(time.RFC3339Nano)\<close>.\<close>

definition format_RFC3339Nano :: "time \<Rightarrow> string" where
  "format_RFC3339Nano t =
     (let secs = t div second; ns = t mod second;
          (year, yday) = year_day (secs div 86400 + 719162);
          (month, day) = month_day (month_lengths (is_leap year)) 1 yday;
          s = secs mod 86400
      in padded 4 year @ CHR ''-'' # padded 2 month @ CHR ''-'' # padded 2 day @ CHR ''T'' #
         padded 2 (s div 3600) @ CHR '':'' # padded 2 (s mod 3600 div 60) @ CHR '':'' #
         padded 2 (s mod 60) @ fraction ns @ ''Z'')"

section \<open>SHA-256\<close>

text \<open>The constants are the first 32 bits of the fractional parts of the cube roots of the first 64
  primes, and of the square roots of the first eight; \<open>root_bits\<close> finds an integer root bit by bit.\<close>

fun root_bits :: "nat \<Rightarrow> nat \<Rightarrow> int \<Rightarrow> int \<Rightarrow> int" where
  "root_bits k 0 n root = root"
| "root_bits k (Suc b) n root =
     (let try_root = root + 2 ^ b in root_bits k b n (if try_root ^ k \<le> n then try_root else root))"

definition small_primes :: "int list" where
  "small_primes = filter (\<lambda>p. list_all (\<lambda>d. p mod d \<noteq> 0) [2..p - 1]) [2..311]"

definition sha256_K :: "32 word list" where
  "sha256_K = map (\<lambda>p. of_int (root_bits 3 36 (p * 2 ^ 96) 0)) small_primes"

definition sha256_init :: "32 word list" where
  "sha256_init = map (\<lambda>p. of_int (root_bits 2 36 (p * 2 ^ 64) 0)) (take 8 small_primes)"

text \<open>The padded message: a one bit, zeros, and the length in bits as 64 bits.\<close>

definition sha256_pad :: "int list \<Rightarrow> int list" where
  "sha256_pad bytes =
     (let n = length bytes; bits = 8 * int n
      in bytes @ 128 # replicate ((119 - n mod 64) mod 64) 0 @
         map (\<lambda>k. bits div 2 ^ (8 * k) mod 256) [7, 6, 5, 4, 3, 2, 1, 0])"

fun be_words :: "int list \<Rightarrow> 32 word list" where
  "be_words (a # b # c # d # rest) = of_int (((a * 256 + b) * 256 + c) * 256 + d) # be_words rest"
| "be_words _ = []"

definition sha256_schedule :: "32 word list \<Rightarrow> 32 word list" where
  "sha256_schedule block =
     ((\<lambda>ws. let t = length ws; x = ws ! (t - 15); y = ws ! (t - 2);
              s0 = word_rotr 7 x XOR word_rotr 18 x XOR drop_bit 3 x;
              s1 = word_rotr 17 y XOR word_rotr 19 y XOR drop_bit 10 y
          in ws @ [ws ! (t - 16) + s0 + ws ! (t - 7) + s1]) ^^ 48) block"

fun sha256_round :: "32 word \<times> 32 word \<Rightarrow> 32 word list \<Rightarrow> 32 word list" where
  "sha256_round (k, wt) [a, b, c, d, e, f, g, h] =
     (let s1 = word_rotr 6 e XOR word_rotr 11 e XOR word_rotr 25 e;
          ch = (e AND f) XOR (NOT e AND g);
          t1 = h + s1 + ch + k + wt;
          s0 = word_rotr 2 a XOR word_rotr 13 a XOR word_rotr 22 a;
          maj = (a AND b) XOR (a AND c) XOR (b AND c)
      in [t1 + s0 + maj, a, b, c, d + t1, e, f, g])"
| "sha256_round _ st = st"

definition sha256_block :: "32 word list \<Rightarrow> 32 word list \<Rightarrow> 32 word list" where
  "sha256_block block st =
     map2 (+) st (fold sha256_round (zip sha256_K (sha256_schedule block)) st)"

function sha256_blocks :: "32 word list \<Rightarrow> 32 word list \<Rightarrow> 32 word list" where
  "sha256_blocks ws st =
     (if ws = [] then st else sha256_blocks (drop 16 ws) (sha256_block (take 16 ws) st))"
  by pat_completeness auto
termination
  by (relation "measure (length \<circ> fst)") (auto simp: length_greater_0_conv)

declare sha256_blocks.simps [simp del]

definition Sum256 :: "string \<Rightarrow> 32 word list" where
  "Sum256 s = sha256_blocks (be_words (sha256_pad (map of_char s))) sha256_init"

definition hex_digit :: "int \<Rightarrow> char" where
  "hex_digit d = char_of (if d < 10 then 48 + nat d else 87 + nat d)"

definition hex_word :: "32 word \<Rightarrow> string" where
  "hex_word x = map (\<lambda>k. hex_digit (uint x div 16 ^ k mod 16)) [7, 6, 5, 4, 3, 2, 1, 0]"

text \<open>\<open>hex.EncodeToString(digest[:])\<close>.\<close>

definition EncodeToString :: "32 word list \<Rightarrow> string" where
  "EncodeToString digest = concat (map hex_word digest)"

section \<open>Numbers are determined by their text\<close>

definition is_digit :: "char \<Rightarrow> bool" where
  "is_digit c \<longleftrightarrow> 48 \<le> (of_char c :: nat) \<and> (of_char c :: nat) \<le> 57"

definition read_digits :: "string \<Rightarrow> int" where
  "read_digits s = foldl (\<lambda>n c. 10 * n + (int (of_char c) - 48)) 0 s"

lemma read_digits_snoc: "read_digits (s @ [c]) = 10 * read_digits s + (int (of_char c) - 48)"
  by (simp add: read_digits_def)

lemma of_char_digit: "0 \<le> d \<Longrightarrow> d \<le> 9 \<Longrightarrow> of_char (digit d) = 48 + nat d"
  by (simp add: digit_def take_bit_eq_mod)

lemma decimal_induct [consumes 1, case_names small large]:
  assumes "0 \<le> n" "\<And>n. 0 \<le> n \<Longrightarrow> n < 10 \<Longrightarrow> P n" "\<And>n. 10 \<le> n \<Longrightarrow> P (n div 10) \<Longrightarrow> P n"
  shows "P (n::int)"
  using assms(1)
proof (induction n rule: decimal.induct)
  case (1 n)
  then show ?case
    by (cases "n < 10") (auto intro: assms)
qed

lemma read_decimal [simp]: "0 \<le> n \<Longrightarrow> read_digits (decimal n) = n"
proof (induction rule: decimal_induct)
  case (small n)
  then show ?case
    by (simp add: decimal.simps [of n] read_digits_def of_char_digit)
next
  case (large n)
  then show ?case
    by (simp add: decimal.simps [of n] read_digits_snoc of_char_digit)
qed

lemma decimal_digits: "0 \<le> n \<Longrightarrow> list_all is_digit (decimal n)"
proof (induction rule: decimal_induct)
  case (small n)
  then show ?case
    by (simp add: decimal.simps [of n] is_digit_def of_char_digit)
next
  case (large n)
  then show ?case
    by (simp add: decimal.simps [of n] is_digit_def of_char_digit)
qed

lemma decimal_not_empty [simp]: "decimal n \<noteq> []"
  by (simp add: decimal.simps [of n])

lemma decimal_inj: "0 \<le> m \<Longrightarrow> 0 \<le> n \<Longrightarrow> decimal m = decimal n \<longleftrightarrow> m = n"
  by (metis read_decimal)

lemma not_digit [simp]: "\<not> is_digit CHR ''-''" "\<not> is_digit CHR '':''" "\<not> is_digit CHR ''.''" "\<not> is_digit CHR ''Z''"
  by (simp_all add: is_digit_def)

lemma Itoa_inj: "Itoa m = Itoa n \<longleftrightarrow> m = n"
proof
  assume eq: "Itoa m = Itoa n"
  have hd: "hd (decimal k) \<noteq> CHR ''-''" if "0 \<le> k" for k
    using decimal_digits [OF that] by (cases "decimal k") auto
  show "m = n"
  proof (cases "m < 0 \<longleftrightarrow> n < 0")
    case True
    then show ?thesis
      using eq by (auto simp: Itoa_def decimal_inj split: if_splits)
  next
    case False
    then show ?thesis
      using eq hd [of m] hd [of n] by (auto simp: Itoa_def split: if_splits) (metis list.sel(1))+
  qed
qed simp

text \<open>Reading a block of digits up to the first other character.\<close>

lemma digits_prefix:
  assumes "list_all is_digit a" "list_all is_digit b" "\<not> is_digit c" "\<not> is_digit d"
    and "a @ c # x = b @ d # y"
  shows "a = b \<and> c = d \<and> x = y"
proof -
  have "takeWhile is_digit (a @ c # x) = a" "takeWhile is_digit (b @ d # y) = b"
    using assms(1-4) by (simp_all add: takeWhile_append list_all_iff)
  then have "a = b"
    using assms(5) by metis
  then show ?thesis
    using assms(5) by simp
qed

text \<open>Length-prefixed strings, \<open>strconv.Itoa(len(s)) + ":" + s\<close>.\<close>

definition netstring :: "string \<Rightarrow> string" where
  "netstring s = Itoa (int (length s)) @ CHR '':'' # s"

lemma netstring_split:
  assumes "netstring a @ x = netstring b @ y"
  shows "a = b \<and> x = y"
proof -
  have "decimal (int (length a)) @ CHR '':'' # (a @ x) = decimal (int (length b)) @ CHR '':'' # (b @ y)"
    using assms by (simp add: netstring_def Itoa_def)
  then have "decimal (int (length a)) = decimal (int (length b)) \<and> a @ x = b @ y"
    using digits_prefix [of "decimal (int (length a))" "decimal (int (length b))" "CHR '':''" "CHR '':''" "a @ x" "b @ y"]
    by (simp add: decimal_digits)
  then show ?thesis
    by (auto simp: decimal_inj)
qed

section \<open>Digests are determined by their text\<close>

lemma hex_digit_inj:
  assumes "hex_digit a = hex_digit b" "0 \<le> a" "a < 16" "0 \<le> b" "b < 16"
  shows "a = b"
proof -
  have "(of_char (hex_digit d) :: nat) = (if d < 10 then 48 + nat d else 87 + nat d)" if "0 \<le> d" "d < 16" for d
    using that by (simp add: hex_digit_def nat_less_iff)
  from this [of a] this [of b] assms show ?thesis
    by (simp split: if_splits)
qed

lemma nibbles_inj:
  fixes a b :: int
  assumes "\<forall>k < n. a div 16 ^ k mod 16 = b div 16 ^ k mod 16" "0 \<le> a" "a < 16 ^ n" "0 \<le> b" "b < 16 ^ n"
  shows "a = b"
  using assms
proof (induction n arbitrary: a b)
  case (Suc n)
  have "a div 16 = b div 16"
  proof (rule Suc.IH)
    show "\<forall>k < n. a div 16 div 16 ^ k mod 16 = b div 16 div 16 ^ k mod 16"
      using Suc.prems(1) by (auto simp flip: zdiv_zmult2_eq power_Suc)
  qed (use Suc.prems in auto)
  moreover have "a mod 16 = b mod 16"
    using spec [OF Suc.prems(1), of 0] by simp
  ultimately show ?case
    by (metis div_mult_mod_eq)
qed simp

lemma hex_word_inj: "hex_word x = hex_word y \<Longrightarrow> x = y"
proof -
  assume h: "hex_word x = hex_word y"
  have "uint x = uint y"
  proof (rule nibbles_inj [of 8])
    show "\<forall>k < 8. uint x div 16 ^ k mod 16 = uint y div 16 ^ k mod 16"
    proof (intro allI impI)
      fix k :: nat
      assume "k < 8"
      then have "k \<in> set [7, 6, 5, 4, 3, 2, 1, 0]"
        by simp arith
      then have "hex_digit (uint x div 16 ^ k mod 16) = hex_digit (uint y div 16 ^ k mod 16)"
        using h unfolding hex_word_def map_eq_conv by (rule bspec [rotated])
      then show "uint x div 16 ^ k mod 16 = uint y div 16 ^ k mod 16"
        by (rule hex_digit_inj) simp_all
    qed
  qed (use uint_lt2p [of x] uint_lt2p [of y] in simp_all)
  then show ?thesis
    by (simp add: word_uint_eq_iff)
qed

lemma EncodeToString_inj: "EncodeToString xs = EncodeToString ys \<Longrightarrow> xs = ys"
proof (induction xs arbitrary: ys)
  case Nil
  then show ?case
    by (cases ys) (auto simp: EncodeToString_def hex_word_def)
next
  case (Cons x xs)
  then obtain y zs where ys: "ys = y # zs"
    by (cases ys) (auto simp: EncodeToString_def hex_word_def)
  have "hex_word x @ EncodeToString xs = hex_word y @ EncodeToString zs"
    using Cons.prems by (simp add: ys EncodeToString_def)
  then have "hex_word x = hex_word y" "EncodeToString xs = EncodeToString zs"
    by (simp_all add: hex_word_def)
  then show ?case
    using Cons.IH hex_word_inj ys by blast
qed

section \<open>Instants are determined by their text\<close>

lemma length_decimal: "0 \<le> n \<Longrightarrow> n < 10 ^ k \<Longrightarrow> 0 < k \<Longrightarrow> length (decimal n) \<le> k"
proof (induction k arbitrary: n)
  case (Suc k)
  show ?case
  proof (cases "n < 10")
    case True
    then show ?thesis
      by (simp add: decimal.simps [of n])
  next
    case False
    then have "n div 10 < 10 ^ k" "0 < k"
      using Suc.prems by (auto intro: gr0I)
    then show ?thesis
      using Suc.IH [of "n div 10"] Suc.prems False by (simp add: decimal.simps [of n])
  qed
qed simp

lemma padded_facts:
  assumes "0 \<le> n"
  shows "list_all is_digit (padded k n)" "read_digits (padded k n) = n" "n < 10 ^ k \<Longrightarrow> 0 < k \<Longrightarrow> length (padded k n) = k"
proof -
  have z: "read_digits (replicate j CHR ''0'' @ s) = read_digits s" for j s
    by (induction j) (simp_all add: read_digits_def)
  show "list_all is_digit (padded k n)"
    using decimal_digits [OF assms] assms by (auto simp: padded_def Let_def list_all_iff is_digit_def)
  show "read_digits (padded k n) = n"
    using assms by (simp add: padded_def Let_def z)
  show "n < 10 ^ k \<Longrightarrow> 0 < k \<Longrightarrow> length (padded k n) = k"
    using length_decimal [OF assms, of k] assms by (simp add: padded_def Let_def)
qed

lemma padded_inj: "0 \<le> m \<Longrightarrow> 0 \<le> n \<Longrightarrow> padded k m = padded k n \<Longrightarrow> m = n"
  by (metis padded_facts(2))

lemma trim_zeros_inj:
  assumes "length a = length b" "trim_zeros a = trim_zeros b"
  shows "a = b"
proof -
  have rest: "s = trim_zeros s @ replicate (length s - length (trim_zeros s)) CHR ''0''" for s
  proof -
    let ?z = "takeWhile (\<lambda>c. c = CHR ''0'') (rev s)"
    have s: "s = trim_zeros s @ rev ?z"
      by (metis rev_append rev_rev_ident takeWhile_dropWhile_id trim_zeros_def)
    moreover have "rev ?z = replicate (length ?z) CHR ''0''"
      by (intro replicate_eqI) (auto dest: set_takeWhileD)
    moreover have "length ?z = length s - length (trim_zeros s)"
      by (metis add_diff_cancel_left' length_append length_rev s)
    ultimately show ?thesis
      by metis
  qed
  show ?thesis
    using rest [of a] rest [of b] assms by metis
qed

lemma clamp4_cycle:
  fixes d c m :: int
  assumes "0 \<le> d" "d \<le> 4 * c" "0 < c"
  shows "0 \<le> clamp4 (d div c) \<and> clamp4 (d div c) \<le> 3 \<and>
    0 \<le> d - c * clamp4 (d div c) \<and> d - c * clamp4 (d div c) \<le> c"
proof -
  have q: "0 \<le> d div c" "d div c \<le> 4"
    using assms zdiv_mono1 [of d "4 * c" c] by (simp_all add: pos_imp_zdiv_nonneg_iff)
  have r: "d = c * (d div c) + d mod c" "0 \<le> d mod c" "d mod c < c"
    using assms(3) by simp_all
  show ?thesis
  proof (cases "d div c = 4")
    case True
    have "d = 4 * c"
      using assms r(1) [unfolded True] r(2) by linarith
    then show ?thesis
      using assms by (simp add: clamp4_def)
  next
    case False
    then have "clamp4 (d div c) = d div c"
      using q by (simp add: clamp4_def)
    moreover have "d - c * (d div c) = d mod c"
      by (simp add: minus_mult_div_eq_mod)
    ultimately show ?thesis
      using q False r(2,3) by simp
  qed
qed

lemma year_day_inverse:
  assumes "year_day d = (y, yd)"
  shows "d = 365 * (y - 1) + (y - 1) div 4 - (y - 1) div 100 + (y - 1) div 400 + yd \<and> 0 \<le> yd \<and> yd \<le> 365 \<and>
    (0 \<le> d \<longrightarrow> 1 \<le> y)"
proof -
  define n400 d400 where "n400 = d div 146097" and "d400 = d mod 146097"
  define n100 where "n100 = clamp4 (d400 div 36524)"
  define d100 where "d100 = d400 - 36524 * n100"
  define n4 d4 where "n4 = d100 div 1461" and "d4 = d100 mod 1461"
  define n1 where "n1 = clamp4 (d4 div 365)"
  have y: "y = 400 * n400 + 100 * n100 + 4 * n4 + n1 + 1" and yd: "yd = d4 - 365 * n1"
    using assms unfolding year_day_def Let_def n400_def d400_def n100_def d100_def n4_def d4_def n1_def by auto
  have d400: "0 \<le> d400" "d400 \<le> 4 * 36524" "d = 146097 * n400 + d400"
    using pos_mod_bound [of 146097 d] by (simp_all add: d400_def n400_def)
  have d100: "0 \<le> n100" "n100 \<le> 3" "0 \<le> d100" "d100 \<le> 36524"
    using clamp4_cycle [OF d400(1,2)] by (simp_all add: n100_def d100_def)
  have "d100 div 1461 \<le> 36524 div 1461"
    using d100(4) by (rule zdiv_mono1) simp
  then have "n4 \<le> 24"
    unfolding n4_def by simp
  moreover have "0 \<le> n4"
    unfolding n4_def using d100(3) by (simp only: pos_imp_zdiv_nonneg_iff zero_less_numeral)
  moreover have "d100 = 1461 * n4 + d4"
    unfolding n4_def d4_def by simp
  moreover have "0 \<le> d4" "d4 < 1461"
    unfolding d4_def by (rule pos_mod_sign pos_mod_bound, simp)+
  ultimately have n4: "0 \<le> n4" "n4 \<le> 24" "d100 = 1461 * n4 + d4" "0 \<le> d4" "d4 \<le> 4 * 365"
    by simp_all
  have n1: "0 \<le> n1" "n1 \<le> 3" "0 \<le> yd" "yd \<le> 365"
    using clamp4_cycle [OF n4(4,5)] by (simp_all add: n1_def yd)
  have d: "d = 146097 * n400 + 36524 * n100 + 1461 * n4 + 365 * n1 + yd"
    using d400(3) n4(3) by (simp add: d100_def yd)
  have "(y - 1) div 4 = 100 * n400 + 25 * n100 + n4"
    by (rule int_div_pos_eq [of _ _ _ n1]) (use n1 y in simp_all)
  moreover have "(y - 1) div 100 = 4 * n400 + n100"
    by (rule int_div_pos_eq [of _ _ _ "4 * n4 + n1"]) (use n1 n4(1,2) y in simp_all)
  moreover have "(y - 1) div 400 = n400"
    by (rule int_div_pos_eq [of _ _ _ "100 * n100 + 4 * n4 + n1"]) (use n1 n4(1,2) d100(1,2) y in simp_all)
  moreover have "d = 365 * (y - 1) + (100 * n400 + 25 * n100 + n4) - (4 * n400 + n100) + n400 + yd"
    unfolding d y by simp
  ultimately have "d = 365 * (y - 1) + (y - 1) div 4 - (y - 1) div 100 + (y - 1) div 400 + yd"
    by (simp only:)
  moreover have "1 \<le> y" if "0 \<le> d"
  proof -
    have "0 \<le> n400"
      unfolding n400_def using that by (simp only: pos_imp_zdiv_nonneg_iff zero_less_numeral)
    then show ?thesis
      using n1 n4(1,2) d100(1,2) by (simp add: y)
  qed
  ultimately show ?thesis
    using n1 by blast
qed

lemma month_day_bounds:
  assumes "month_day (month_lengths leap) 1 d = (m, k)" "0 \<le> d" "d \<le> 365"
  shows "1 \<le> m" "m \<le> 13" "1 \<le> k" "k \<le> 31"
  using assms by (auto simp: month_lengths_def split: if_splits)

lemma month_day_inverse:
  "month_day ls m d = (m', k) \<Longrightarrow> m \<le> m' \<and> d = sum_list (take (nat (m' - m)) ls) + k - 1"
proof (induction ls m d rule: month_day.induct)
  case (2 l ls m d)
  show ?case
  proof (cases "d < l")
    case False
    then have ih: "m + 1 \<le> m' \<and> d - l = sum_list (take (nat (m' - (m + 1))) ls) + k - 1"
      using 2 by simp
    then have "nat (m' - m) = Suc (nat (m' - (m + 1)))"
      by linarith
    then show ?thesis
      using ih by simp
  qed (use "2.prems" in auto)
qed simp

text \<open>The fields of the layout.\<close>

lemma div_mod_same: "a div c = b div c \<Longrightarrow> a mod c = b mod c \<Longrightarrow> a = b" for a b c :: int
proof -
  assume "a div c = b div c" "a mod c = b mod c"
  then have "c * (a div c) + a mod c = c * (b div c) + b mod c"
    by simp
  then show "a = b"
    by (simp only: mult_div_mod_eq)
qed

lemma fixed_field:
  assumes "0 \<le> m" "m < 10 ^ k" "0 \<le> n" "n < 10 ^ k" "0 < k" "padded k m @ x = padded k n @ y"
  shows "m = n \<and> x = y"
  using assms padded_facts(3) [of m k] padded_facts(3) [of n k] padded_inj [of m n k] by auto

lemma field_sep:
  assumes "0 \<le> m" "m < 10 ^ 2" "0 \<le> n" "n < 10 ^ 2" "padded 2 m @ c # x = padded 2 n @ c # y"
  shows "m = n \<and> x = y"
  using fixed_field [OF assms(1-4) zero_less_numeral assms(5)] by simp

lemma fraction_inj:
  assumes "0 \<le> m" "m < second" "0 \<le> n" "n < second" "fraction m @ ''Z'' = fraction n @ ''Z''"
  shows "m = n"
proof -
  have len: "length (padded 9 m) = length (padded 9 n)"
    using assms padded_facts(3) [of _ 9] by (simp add: second_def)
  show ?thesis
    using assms trim_zeros_inj [OF len] padded_inj [of m n 9] by (auto simp: fraction_def split: if_splits)
qed

lemma date_inj:
  assumes "year_day d = (y, yd)" "month_day (month_lengths (is_leap y)) 1 yd = (m, k)"
    and "year_day d' = (y, yd')" "month_day (month_lengths (is_leap y)) 1 yd' = (m, k)"
  shows "d = d'"
  using year_day_inverse [OF assms(1)] year_day_inverse [OF assms(3)]
    month_day_inverse [OF assms(2)] month_day_inverse [OF assms(4)] by simp

lemma clock_bounds:
  fixes x :: int
  shows "0 \<le> x mod 86400 div 3600" "x mod 86400 div 3600 < 10 ^ 2" "0 \<le> x mod 86400 mod 3600 div 60"
    "x mod 86400 mod 3600 div 60 < 10 ^ 2" "0 \<le> x mod 86400 mod 60" "x mod 86400 mod 60 < 10 ^ 2"
proof -
  have "0 \<le> x mod 86400" "x mod 86400 < 86400" "0 \<le> x mod 86400 mod 3600" "x mod 86400 mod 3600 < 3600"
    "x mod 86400 mod 60 < 60"
    by simp_all
  then show "0 \<le> x mod 86400 div 3600" "x mod 86400 div 3600 < 10 ^ 2" "0 \<le> x mod 86400 mod 3600 div 60"
    "x mod 86400 mod 3600 div 60 < 10 ^ 2" "0 \<le> x mod 86400 mod 60" "x mod 86400 mod 60 < 10 ^ 2"
    by (simp_all add: pos_imp_zdiv_nonneg_iff)
qed

lemma hours_minutes_seconds: "x = 3600 * (x div 3600) + 60 * (x mod 3600 div 60) + x mod 60" for x :: int
proof -
  have "x mod 3600 mod 60 = x mod 60"
    by (rule mod_mod_cancel) simp
  then have "3600 * (x div 3600) + (60 * (x mod 3600 div 60) + x mod 60) = x"
    by (metis mult_div_mod_eq)
  then show ?thesis
    by (simp only: add.assoc)
qed

lemma format_RFC3339Nano_inj:
  assumes "zero_time \<le> t" "zero_time \<le> t'" "format_RFC3339Nano t = format_RFC3339Nano t'"
  shows "t = t'"
proof -
  have parts: "\<exists>y yd m k. year_day (t div second div 86400 + 719162) = (y, yd) \<and> 0 \<le> yd \<and> yd \<le> 365 \<and> 1 \<le> y \<and>
      month_day (month_lengths (is_leap y)) 1 yd = (m, k) \<and> 1 \<le> m \<and> m < 100 \<and> 1 \<le> k \<and> k < 100"
    if "zero_time \<le> t" for t
  proof -
    obtain y yd where y: "year_day (t div second div 86400 + 719162) = (y, yd)"
      by fastforce
    obtain m k where m: "month_day (month_lengths (is_leap y)) 1 yd = (m, k)"
      by fastforce
    have "zero_time div second div 86400 \<le> t div second div 86400"
      using that by (intro zdiv_mono1) (simp_all add: second_def)
    then have "0 \<le> t div second div 86400 + 719162"
      by (simp add: zero_time_def second_def)
    then have "0 \<le> yd" "yd \<le> 365" "1 \<le> y"
      using year_day_inverse [OF y] by simp_all
    then show ?thesis
      using y m month_day_bounds [OF m] by fastforce
  qed
  obtain y yd m k where d: "year_day (t div second div 86400 + 719162) = (y, yd)" "1 \<le> y"
    "month_day (month_lengths (is_leap y)) 1 yd = (m, k)" "1 \<le> m" "m < 100" "1 \<le> k" "k < 100"
    using parts [OF assms(1)] by blast
  obtain y' yd' m' k' where d': "year_day (t' div second div 86400 + 719162) = (y', yd')" "1 \<le> y'"
    "month_day (month_lengths (is_leap y')) 1 yd' = (m', k')" "1 \<le> m'" "m' < 100" "1 \<le> k'" "k' < 100"
    using parts [OF assms(2)] by blast
  let ?s = "t div second mod 86400" and ?s' = "t' div second mod 86400"
  have eq: "padded 4 y @ CHR ''-'' # padded 2 m @ CHR ''-'' # padded 2 k @ CHR ''T'' #
         padded 2 (?s div 3600) @ CHR '':'' # padded 2 (?s mod 3600 div 60) @ CHR '':'' #
         padded 2 (?s mod 60) @ fraction (t mod second) @ ''Z'' =
      padded 4 y' @ CHR ''-'' # padded 2 m' @ CHR ''-'' # padded 2 k' @ CHR ''T'' #
         padded 2 (?s' div 3600) @ CHR '':'' # padded 2 (?s' mod 3600 div 60) @ CHR '':'' #
         padded 2 (?s' mod 60) @ fraction (t' mod second) @ ''Z''"
    using assms(3) unfolding format_RFC3339Nano_def Let_def d d' prod.case .
  have years: "list_all is_digit (padded 4 y)" "list_all is_digit (padded 4 y')"
    using padded_facts(1) d(2) d'(2) by simp_all
  have small: "0 \<le> m" "m < 10 ^ 2" "0 \<le> m'" "m' < 10 ^ 2" "0 \<le> k" "k < 10 ^ 2" "0 \<le> k'" "k' < 10 ^ 2"
    using d d' by simp_all
  note e1 = digits_prefix [OF years not_digit(1) not_digit(1) eq]
  note e2 = field_sep [OF small(1-4) conjunct2 [OF conjunct2 [OF e1]]]
  note e3 = field_sep [OF small(5-8) conjunct2 [OF e2]]
  note e4 = field_sep [OF clock_bounds(1,2) clock_bounds(1,2) conjunct2 [OF e3]]
  note e5 = field_sep [OF clock_bounds(3,4) clock_bounds(3,4) conjunct2 [OF e4]]
  note e6 = fixed_field [OF clock_bounds(5,6) clock_bounds(5,6) zero_less_numeral conjunct2 [OF e5]]
  have yy: "y = y'"
    using padded_inj [OF _ _ conjunct1 [OF e1]] d(2) d'(2) by simp
  have ns: "t mod second = t' mod second"
    by (rule fraction_inj [OF _ _ _ _ conjunct2 [OF e6]]) (simp_all add: second_def)
  have days: "t div second div 86400 = t' div second div 86400"
    using date_inj [OF d(1,3), of "t' div second div 86400 + 719162" yd'] d'(1,3) yy conjunct1 [OF e2] conjunct1 [OF e3]
    by simp
  have "?s = 3600 * (?s' div 3600) + 60 * (?s' mod 3600 div 60) + ?s' mod 60"
    using hours_minutes_seconds [of ?s] by (simp only: conjunct1 [OF e4] conjunct1 [OF e5] conjunct1 [OF e6])
  then have "?s = ?s'"
    by (simp only: hours_minutes_seconds [of ?s', symmetric])
  then have "t div second = t' div second"
    by (rule div_mod_same [OF days])
  then show ?thesis
    using ns by (rule div_mod_same)
qed

end
