(* ===== verification/Sqlite_Unique.thy ===== *)
theory Sqlite_Unique
  imports Sqlite_Base Go_Format
begin

text \<open>
  Idempotent puts of the SQLite jobs repository, src/backends/sqlite/repositories/jobsrepo/api.go:
  the registry of deduplication keys, unique puts of one job and of a batch, and pruning the
  registry. The fingerprint of a job's content is the SHA-256 digest of a length-prefixed text. What
  they promise is in \<open>Sqlite_Idempotency\<close>.
\<close>

section \<open>The fingerprint\<close>

definition canonical_content :: "string \<Rightarrow> SchemaVersion \<Rightarrow> string \<Rightarrow> time \<Rightarrow> string" where
  "canonical_content nm schemaVersion payload availableAt =
     netstring nm @ netstring (Itoa schemaVersion) @ netstring payload @
     netstring (format_RFC3339Nano availableAt)"

definition jobFingerprint :: "string \<Rightarrow> SchemaVersion \<Rightarrow> string \<Rightarrow> time \<Rightarrow> string" where
  "jobFingerprint nm schemaVersion payload availableAt =
     EncodeToString (Sum256 (canonical_content nm schemaVersion payload availableAt))"

section \<open>The registry\<close>

text \<open>\<open>INSERT ... ON CONFLICT(deduplication_key) DO NOTHING\<close>: a row whose key is there already is skipped; a
  row whose identifier is there already under another key violates the other unique constraint.\<close>

fun add_keys :: "key_row list \<Rightarrow> key_row list \<Rightarrow> key_row list" where
  "add_keys [] ks = ks"
| "add_keys (k # rows) ks =
     add_keys rows (if k_deduplication_key k \<in> set (map k_deduplication_key ks) then ks else ks @ [k])"

definition insert_keys ::
  "key_row list \<Rightarrow> 'a sqlite_scheme \<Rightarrow> (error + int) \<times> 'a sqlite_scheme" where
  "insert_keys rows =
     exec_stmt (\<lambda>w. let ks = add_keys rows (db_keys w)
       in if wf_keys ks then (Inr (int (length ks) - int (length (db_keys w))), w\<lparr>db_keys := ks\<rparr>)
          else (Inl (ErrNew ''constraint failed''), w))"

definition select_keys ::
  "string list \<Rightarrow> 'a sqlite_scheme \<Rightarrow> (error + key_row list) \<times> 'a sqlite_scheme" where
  "select_keys keys =
     exec_stmt (\<lambda>w. (Inr (filter (\<lambda>k. k_deduplication_key k \<in> set keys) (db_keys w)), w))"

section \<open>One job\<close>

definition createJobVersionedUnique ::
  "'a sqlite_scheme runtime \<Rightarrow> string \<Rightarrow> string \<Rightarrow> SchemaVersion \<Rightarrow> string \<Rightarrow> time \<Rightarrow> 'a sqlite_scheme \<Rightarrow>
   (error + UniquePutResult) \<times> 'a sqlite_scheme" where
  "createJobVersionedUnique rt deduplicationKey nm schemaVersion payload availableAt w =
     (let (u, w) = uuid_New rt w; (created, w) = time_Now rt w;
          fingerprint = jobFingerprint nm schemaVersion payload availableAt
      in case insert_keys [\<lparr>k_deduplication_key = deduplicationKey, k_job_id = JobID u,
             k_fingerprint = fingerprint, k_created_at = UnixMilli created\<rparr>] w of
           (Inl err, w) \<Rightarrow> (Inl (ErrWrap ''register idempotency key: %w'' [err]), w)
         | (Inr inserted, w) \<Rightarrow>
      (case select_keys [deduplicationKey] w of
         (Inl err, w) \<Rightarrow> (Inl (ErrWrap ''read idempotency key: %w'' [err]), w)
       | (Inr [], w) \<Rightarrow> (Inl (ErrWrap ''read idempotency key: %w'' [Sentinel ErrNoRows]), w)
       | (Inr (stored # _), w) \<Rightarrow>
           if k_fingerprint stored \<noteq> fingerprint then (Inl (Sentinel ErrIdempotencyConflict), w)
           else if inserted = 0 then (Inr \<lparr>up_JobID = k_job_id stored, up_Created = False\<rparr>, w)
           else
             (case insert_jobs [new_row (k_job_id stored) nm schemaVersion payload (Some deduplicationKey)
                 availableAt created] w of
                (Inl err, w) \<Rightarrow> (Inl (ErrWrap ''create idempotent job: %w'' [err]), w)
              | (Inr _, w) \<Rightarrow> (Inr \<lparr>up_JobID = k_job_id stored, up_Created = True\<rparr>, w))))"

definition sqlite_CreateJobVersionedUniqueResult ::
  "'a sqlite_scheme runtime \<Rightarrow> string \<Rightarrow> string \<Rightarrow> SchemaVersion \<Rightarrow> string \<Rightarrow> time \<Rightarrow> 'a sqlite_scheme \<Rightarrow>
   (error + UniquePutResult) \<times> 'a sqlite_scheme" where
  "sqlite_CreateJobVersionedUniqueResult rt deduplicationKey nm schemaVersion payload availableAt w =
     (if deduplicationKey = [] then (Inl (ErrNew ''empty deduplication key''), w)
      else case JobCapability_Validate \<lparr>cap_Name = nm, cap_SchemaVersion = schemaVersion\<rparr> of
             Some err \<Rightarrow> (Inl (ErrWrap ''validate capability: %w'' [err]), w)
           | None \<Rightarrow> withImmediateTransaction
               (createJobVersionedUnique rt deduplicationKey nm schemaVersion payload availableAt) w)"

definition sqlite_CreateJobVersionedUnique ::
  "'a sqlite_scheme runtime \<Rightarrow> string \<Rightarrow> string \<Rightarrow> SchemaVersion \<Rightarrow> string \<Rightarrow> time \<Rightarrow> 'a sqlite_scheme \<Rightarrow>
   (error + JobID) \<times> 'a sqlite_scheme" where
  "sqlite_CreateJobVersionedUnique rt deduplicationKey nm schemaVersion payload availableAt w =
     (case sqlite_CreateJobVersionedUniqueResult rt deduplicationKey nm schemaVersion payload availableAt w of
        (Inl err, w) \<Rightarrow> (Inl err, w)
      | (Inr result, w) \<Rightarrow> (Inr (up_JobID result), w))"

section \<open>A batch\<close>

record preparedUniqueBatchPut =
  pp_put :: UniqueBatchPut
  pp_jobID :: JobID
  pp_fingerprint :: string
  pp_createdAt :: time

fun validate_unique_batch :: "string set \<Rightarrow> UniqueBatchPut list \<Rightarrow> error option" where
  "validate_unique_batch seen [] = None"
| "validate_unique_batch seen (item # items) =
     (if ub_DeduplicationKey item = [] then Some (ErrNew ''item %d has an empty deduplication key'')
      else if ub_DeduplicationKey item \<in> seen then Some (ErrNew ''duplicate deduplication key %q'')
      else case JobCapability_Validate \<lparr>cap_Name = ub_Name item, cap_SchemaVersion = ub_SchemaVersion item\<rparr> of
             Some err \<Rightarrow> Some (ErrWrap ''item %d: %w'' [err])
           | None \<Rightarrow> validate_unique_batch (insert (ub_DeduplicationKey item) seen) items)"

fun prepareUniqueBatchPuts ::
  "'w runtime \<Rightarrow> UniqueBatchPut list \<Rightarrow> time \<Rightarrow> 'w \<Rightarrow> preparedUniqueBatchPut list \<times> 'w" where
  "prepareUniqueBatchPuts rt [] createdAt w = ([], w)"
| "prepareUniqueBatchPuts rt (item # items) createdAt w =
     (let (u, w) = uuid_New rt w; (prepared, w) = prepareUniqueBatchPuts rt items createdAt w
      in (\<lparr>pp_put = item, pp_jobID = JobID u,
           pp_fingerprint = jobFingerprint (ub_Name item) (ub_SchemaVersion item) (ub_Payload item) (ub_AvailableAt item),
           pp_createdAt = createdAt\<rparr> # prepared, w))"

definition registerUniqueBatchKeys ::
  "preparedUniqueBatchPut list \<Rightarrow> 'a sqlite_scheme \<Rightarrow> (error + key_row list) \<times> 'a sqlite_scheme" where
  "registerUniqueBatchKeys prepared w =
     (case insert_keys (map (\<lambda>item. \<lparr>k_deduplication_key = ub_DeduplicationKey (pp_put item), k_job_id = pp_jobID item,
             k_fingerprint = pp_fingerprint item, k_created_at = UnixMilli (pp_createdAt item)\<rparr>) prepared) w of
        (Inl err, w) \<Rightarrow> (Inl (ErrWrap ''register batch idempotency keys: %w'' [err]), w)
      | (Inr _, w) \<Rightarrow>
          (case select_keys (map (ub_DeduplicationKey \<circ> pp_put) prepared) w of
             (Inl err, w) \<Rightarrow> (Inl (ErrWrap ''load batch idempotency keys: %w'' [err]), w)
           | (Inr stored, w) \<Rightarrow> (Inr stored, w)))"

definition unique_row :: "preparedUniqueBatchPut \<Rightarrow> job_row" where
  "unique_row item =
     new_row (pp_jobID item) (ub_Name (pp_put item)) (ub_SchemaVersion (pp_put item)) (ub_Payload (pp_put item))
       (Some (ub_DeduplicationKey (pp_put item))) (ub_AvailableAt (pp_put item)) (pp_createdAt item)"

definition insertUniqueBatchJobs ::
  "preparedUniqueBatchPut list \<Rightarrow> 'a sqlite_scheme \<Rightarrow> error option \<times> 'a sqlite_scheme" where
  "insertUniqueBatchJobs created w =
     (if created = [] then (None, w)
      else case insert_jobs (map unique_row created) w of
             (Inl err, w) \<Rightarrow> (Some (ErrWrap ''insert unique job batch: %w'' [err]), w)
           | (Inr _, w) \<Rightarrow> (None, w))"

text \<open>The loop over the prepared puts: results in input order, and the puts that registered their key.\<close>

fun match_stored ::
  "key_row list \<Rightarrow> preparedUniqueBatchPut list \<Rightarrow> error + (UniquePutResult list \<times> preparedUniqueBatchPut list)" where
  "match_stored stored [] = Inr ([], [])"
| "match_stored stored (item # items) =
     (case row_at k_deduplication_key stored (ub_DeduplicationKey (pp_put item)) of
        None \<Rightarrow> Inl (Sentinel ErrIdempotencyConflict)
      | Some key \<Rightarrow>
          if k_fingerprint key \<noteq> pp_fingerprint item then Inl (Sentinel ErrIdempotencyConflict)
          else case match_stored stored items of
                 Inl err \<Rightarrow> Inl err
               | Inr (results, created) \<Rightarrow>
                   (let isCreated = (k_job_id key = pp_jobID item)
                    in Inr (\<lparr>up_JobID = k_job_id key, up_Created = isCreated\<rparr> # results,
                            if isCreated then item # created else created)))"

definition unique_batch_tx ::
  "preparedUniqueBatchPut list \<Rightarrow> 'a sqlite_scheme \<Rightarrow> (error + UniquePutResult list) \<times> 'a sqlite_scheme" where
  "unique_batch_tx prepared w =
     (case registerUniqueBatchKeys prepared w of
        (Inl err, w) \<Rightarrow> (Inl err, w)
      | (Inr stored, w) \<Rightarrow>
          (case match_stored stored prepared of
             Inl err \<Rightarrow> (Inl err, w)
           | Inr (results, created) \<Rightarrow>
               (case insertUniqueBatchJobs created w of
                  (Some err, w) \<Rightarrow> (Inl err, w)
                | (None, w) \<Rightarrow> (Inr results, w))))"

definition sqlite_CreateJobVersionedUniqueBatch ::
  "'a sqlite_scheme runtime \<Rightarrow> UniqueBatchPut list \<Rightarrow> 'a sqlite_scheme \<Rightarrow>
   (error + UniquePutResult list) \<times> 'a sqlite_scheme" where
  "sqlite_CreateJobVersionedUniqueBatch rt items w =
     (if int (length items) < 1 \<or> int (length items) > MaxReservationBatchSize
      then (Inl (ErrNew ''item count must be between 1 and %d''), w)
      else case validate_unique_batch {} items of
             Some err \<Rightarrow> (Inl err, w)
           | None \<Rightarrow>
               (let (now, w) = time_Now rt w; (prepared, w) = prepareUniqueBatchPuts rt items now w
                in case sqlite_RunInTx_result (unique_batch_tx prepared) w of
                     (Inl err, w) \<Rightarrow> (Inl (ErrWrap ''create unique versioned job batch: %w'' [err]), w)
                   | (Inr results, w) \<Rightarrow> (Inr results, w)))"

section \<open>Pruning\<close>

definition delete_keys ::
  "(key_row list \<Rightarrow> job_row list \<Rightarrow> key_row \<Rightarrow> bool) \<Rightarrow> 'a sqlite_scheme \<Rightarrow> (error + int) \<times> 'a sqlite_scheme" where
  "delete_keys p =
     exec_stmt (\<lambda>w. (Inr (sql_count (p (db_keys w) (db_jobs w)) (db_keys w)),
       w\<lparr>db_keys := sql_delete (p (db_keys w) (db_jobs w)) (db_keys w)\<rparr>))"

definition prunable :: "time \<Rightarrow> nat \<Rightarrow> key_row list \<Rightarrow> job_row list \<Rightarrow> key_row list" where
  "prunable before limit ks js =
     sql_select (\<lambda>k. k_created_at k < UnixMilli before \<and>
         \<not> list_ex (\<lambda>r. r_deduplication_key r = Some (k_deduplication_key k)) js)
       (\<lambda>k. (k_created_at k, k_deduplication_key k)) limit ks"

definition sqlite_PruneJobIdempotencyKeys ::
  "time \<Rightarrow> int \<Rightarrow> 'a sqlite_scheme \<Rightarrow> (error + int) \<times> 'a sqlite_scheme" where
  "sqlite_PruneJobIdempotencyKeys before limit w =
     (if limit < 1 \<or> limit > 10000 then (Inl (ErrNew ''limit must be between 1 and 10000''), w)
      else delete_keys (\<lambda>ks js k. k_deduplication_key k \<in> k_deduplication_key ` set (prunable before (nat limit) ks js)) w)"

section \<open>What the statements did\<close>

lemma insert_keys_cases:
  assumes "insert_keys rows w = (r, w')"
  obtains (failed) e F where "r = Inl e" "w' = w\<lparr>db_faults := F\<rparr>"
    | (ran) F where "wf_keys (add_keys rows (db_keys w))"
        "r = Inr (int (length (add_keys rows (db_keys w))) - int (length (db_keys w)))"
        "w' = w\<lparr>db_faults := F, db_keys := add_keys rows (db_keys w)\<rparr>"
  using assms unfolding insert_keys_def
  by (cases rule: exec_stmt_cases) (auto simp: Let_def split: if_splits intro: that)

lemma select_keys_cases:
  assumes "select_keys keys w = (r, w')"
  obtains (failed) e F where "r = Inl e" "w' = w\<lparr>db_faults := F\<rparr>"
    | (ran) F where "r = Inr (filter (\<lambda>k. k_deduplication_key k \<in> set keys) (db_keys w))" "w' = w\<lparr>db_faults := F\<rparr>"
  using assms unfolding select_keys_def
  by (cases rule: exec_stmt_cases) (auto intro: that)

lemma insert_jobs_cases:
  assumes "insert_jobs rows w = (r, w')"
  obtains (failed) e F where "r = Inl e" "w' = w\<lparr>db_faults := F\<rparr>"
    | (ran) F where "r = Inr (int (length rows))" "wf_jobs (db_jobs w @ rows)"
        "w' = w\<lparr>db_faults := F, db_jobs := db_jobs w @ rows\<rparr>"
  using assms unfolding insert_jobs_def
  by (cases rule: exec_stmt_cases) (auto split: if_splits intro: that)

lemma delete_keys_cases:
  assumes "delete_keys p w = (r, w')"
  obtains (failed) e F where "r = Inl e" "w' = w\<lparr>db_faults := F\<rparr>"
    | (ran) F where "r = Inr (sql_count (p (db_keys w) (db_jobs w)) (db_keys w))"
        "w' = w\<lparr>db_faults := F, db_keys := sql_delete (p (db_keys w) (db_jobs w)) (db_keys w)\<rparr>"
  using assms unfolding delete_keys_def
  by (cases rule: exec_stmt_cases) (auto intro: that)

end
