(* ===== verification/Sqlite_Jobs.thy ===== *)
theory Sqlite_Jobs
  imports Sqlite_Unique Sqlite_Queries
begin

text \<open>
  The lease lifecycle of the SQLite jobs repository, src/backends/sqlite/repositories/jobsrepo/api.go:
  creating, claiming (plain and byte-bounded), extending, releasing, finalizing, deferring,
  deleting and rescheduling. Each operation is the guards of the Go code followed by its SQL
  statements on the tables. \<open>str\<close> is the text form of a UUID, by which SQLite orders identifiers.
\<close>

section \<open>Guards\<close>

definition validateBatchClaim :: "LeaseToken \<Rightarrow> int \<Rightarrow> error option" where
  "validateBatchClaim leaseToken limit =
     (case LeaseToken_Validate leaseToken of
        Some err \<Rightarrow> Some (ErrWrap ''invalid lease token: %w'' [err])
      | None \<Rightarrow>
          if limit < 1 \<or> limit > MaxReservationBatchSize
          then Some (ErrNew ''limit must be between 1 and %d'') else None)"

definition validateBatchLease :: "JobID list \<Rightarrow> LeaseToken \<Rightarrow> error option" where
  "validateBatchLease jobIDs leaseToken =
     (if jobIDs = [] \<or> int (length jobIDs) > MaxReservationBatchSize
      then Some (ErrNew ''job ID count must be between 1 and %d'')
      else if list_ex JobID_IsZero jobIDs then Some (ErrNew ''invalid job id'')
      else case LeaseToken_Validate leaseToken of
             Some err \<Rightarrow> Some (ErrWrap ''invalid lease token: %w'' [err])
           | None \<Rightarrow> None)"

text \<open>The loop of \<open>validateBatchOutcomes\<close>.\<close>

fun validate_outcomes_loop :: "JobID set \<Rightarrow> BatchJobOutcome list \<Rightarrow> error option" where
  "validate_outcomes_loop seen [] = None"
| "validate_outcomes_loop seen (outcome # outcomes) =
     (case JobID_Validate (bo_JobID outcome) of
        Some err \<Rightarrow> Some (ErrWrap ''outcome %d: %w'' [err])
      | None \<Rightarrow>
          if bo_JobID outcome \<in> seen then Some (ErrNew ''duplicate outcome JobID %s'')
          else
            (let rest = validate_outcomes_loop (insert (bo_JobID outcome) seen) outcomes
             in case bo_Kind outcome of
                  BatchJobOutcomeSuccess \<Rightarrow> rest
                | BatchJobOutcomeRetry \<Rightarrow>
                    if time_IsZero (bo_AvailableAt outcome)
                    then Some (ErrNew ''outcome %d has an empty availability time'') else rest
                | BatchJobOutcomeDefer \<Rightarrow>
                    if time_IsZero (bo_AvailableAt outcome)
                    then Some (ErrNew ''outcome %d has an empty availability time'') else rest
                | BatchJobOutcomeDLQ \<Rightarrow>
                    if bo_Reason outcome = []
                    then Some (ErrNew ''outcome %d has an invalid DLQ record'') else rest
                | BatchJobOutcomeUnknown _ \<Rightarrow> Some (ErrNew ''outcome %d has unknown kind %d'')))"

definition validateBatchOutcomes :: "LeaseToken \<Rightarrow> BatchJobOutcome list \<Rightarrow> error option" where
  "validateBatchOutcomes leaseToken outcomes =
     (case LeaseToken_Validate leaseToken of
        Some err \<Rightarrow> Some (ErrWrap ''invalid lease token: %w'' [err])
      | None \<Rightarrow>
          if int (length outcomes) < 1 \<or> int (length outcomes) > MaxReservationBatchSize
          then Some (ErrNew ''outcome count must be between 1 and %d'')
          else validate_outcomes_loop {} outcomes)"

section \<open>Row predicates\<close>

text \<open>\<open>available_at <= now AND (reserved_at IS NULL OR reserved_at <= now)\<close>.\<close>

definition claimable :: "time \<Rightarrow> job_row \<Rightarrow> bool" where
  "claimable now r \<longleftrightarrow> r_available_at r \<le> UnixMilli now \<and>
     (case r_reserved_at r of None \<Rightarrow> True | Some d \<Rightarrow> d \<le> UnixMilli now)"

text \<open>\<open>lease_token = token AND reserved_at > now\<close>; a NULL deadline compares as false.\<close>

definition leased :: "LeaseToken \<Rightarrow> time \<Rightarrow> job_row \<Rightarrow> bool" where
  "leased token now r \<longleftrightarrow> r_lease_token r = token \<and>
     (case r_reserved_at r of None \<Rightarrow> False | Some d \<Rightarrow> d > UnixMilli now)"

text \<open>\<open>(name = ? AND schema_version = ?) OR ...\<close>\<close>

definition has_capability :: "JobCapability list \<Rightarrow> job_row \<Rightarrow> bool" where
  "has_capability caps r \<longleftrightarrow>
     list_ex (\<lambda>c. r_name r = cap_Name c \<and> r_schema_version r = cap_SchemaVersion c) caps"

definition claim_key :: "(uuid \<Rightarrow> string) \<Rightarrow> job_row \<Rightarrow> int \<times> int \<times> string" where
  "claim_key str r = (r_available_at r, r_created_at r, JobID_String str (r_id r))"

text \<open>\<open>SET attempts = attempts + 1, reserved_at = ?, lease_token = ?\<close>\<close>

definition take_lease :: "time \<Rightarrow> LeaseToken \<Rightarrow> job_row \<Rightarrow> job_row" where
  "take_lease until token r =
     r\<lparr>r_attempts := r_attempts r + 1, r_reserved_at := Some (UnixMilli until), r_lease_token := token\<rparr>"

section \<open>Creating\<close>

definition sqlite_CreateJobVersioned ::
  "'a sqlite_scheme runtime \<Rightarrow> string \<Rightarrow> SchemaVersion \<Rightarrow> string \<Rightarrow> time \<Rightarrow> 'a sqlite_scheme \<Rightarrow>
   (error + JobID) \<times> 'a sqlite_scheme" where
  "sqlite_CreateJobVersioned rt nm schemaVersion payload availableAt w =
     (case JobCapability_Validate \<lparr>cap_Name = nm, cap_SchemaVersion = schemaVersion\<rparr> of
        Some err \<Rightarrow> (Inl (ErrWrap ''validate capability: %w'' [err]), w)
      | None \<Rightarrow>
          (let (u, w) = uuid_New rt w; (now, w) = time_Now rt w
           in case insert_jobs [new_row (JobID u) nm schemaVersion payload None availableAt now] w of
                (Inl err, w) \<Rightarrow> (Inl err, w)
              | (Inr _, w) \<Rightarrow> (Inr (JobID u), w)))"

section \<open>Claiming\<close>

definition findAndReserveBatchWithExecutor ::
  "(uuid \<Rightarrow> string) \<Rightarrow> time \<Rightarrow> time \<Rightarrow> LeaseToken \<Rightarrow> JobCapability list \<Rightarrow> int \<Rightarrow> 'a sqlite_scheme \<Rightarrow>
   (error + Job list) \<times> 'a sqlite_scheme" where
  "findAndReserveBatchWithExecutor str now until leaseToken capabilities limit w =
     (case exec_stmt (\<lambda>w. (Inr (sql_select (\<lambda>r. claimable now r \<and> has_capability capabilities r)
              (claim_key str) (nat limit) (db_jobs w)), w)) w of
        (Inl err, w) \<Rightarrow> (Inl err, w)
      | (Inr rows, w) \<Rightarrow>
          if rows = [] then (Inl (Sentinel ErrNoJobs), w)
          else
            (let jobIDs = map r_id rows
             in case update_jobs (\<lambda>r. r_id r \<in> set jobIDs) (take_lease until leaseToken) w of
                  (Inl err, w) \<Rightarrow> (Inl err, w)
                | (Inr affected, w) \<Rightarrow>
                    if affected \<noteq> int (length rows) then (Inl (Sentinel ErrNoJobs), w)
                    else (Inr (map (\<lambda>job. job\<lparr>job_Attempts := job_Attempts job + 1,
                                 job_ReservedAt := Some until, job_LeaseToken := leaseToken\<rparr>)
                               (map scanJob rows)), w)))"

definition findAndReserveBatch ::
  "(uuid \<Rightarrow> string) \<Rightarrow> time \<Rightarrow> time \<Rightarrow> LeaseToken \<Rightarrow> JobCapability list \<Rightarrow> int \<Rightarrow> 'a sqlite_scheme \<Rightarrow>
   (error + Job list) \<times> 'a sqlite_scheme" where
  "findAndReserveBatch str now until leaseToken capabilities limit w =
     (case validateBatchClaim leaseToken limit of
        Some err \<Rightarrow> (Inl err, w)
      | None \<Rightarrow> withImmediateTransaction
          (findAndReserveBatchWithExecutor str now until leaseToken capabilities limit) w)"

definition sqlite_FindAndReserveJobsForCapabilities ::
  "(uuid \<Rightarrow> string) \<Rightarrow> time \<Rightarrow> time \<Rightarrow> LeaseToken \<Rightarrow> JobCapability list \<Rightarrow> int \<Rightarrow> 'a sqlite_scheme \<Rightarrow>
   (error + Job list) \<times> 'a sqlite_scheme" where
  "sqlite_FindAndReserveJobsForCapabilities str now until leaseToken capabilities limit w =
     (if capabilities = [] then (Inl (Sentinel ErrNoJobs), w)
      else case first_some JobCapability_Validate capabilities of
             Some err \<Rightarrow> (Inl (ErrWrap ''invalid capability: %w'' [err]), w)
           | None \<Rightarrow> findAndReserveBatch str now until leaseToken capabilities limit w)"

definition sqlite_FindAndReserveJobsForCapability ::
  "(uuid \<Rightarrow> string) \<Rightarrow> time \<Rightarrow> time \<Rightarrow> LeaseToken \<Rightarrow> JobCapability \<Rightarrow> int \<Rightarrow> 'a sqlite_scheme \<Rightarrow>
   (error + Job list) \<times> 'a sqlite_scheme" where
  "sqlite_FindAndReserveJobsForCapability str now until leaseToken capability limit w =
     sqlite_FindAndReserveJobsForCapabilities str now until leaseToken [capability] limit w"

text \<open>The loop over the candidates of a bounded claim: the longest prefix within the byte limit, and
  always the first candidate. Each candidate is its identifier and its payload size.\<close>

fun bounded_claim_loop ::
  "int \<Rightarrow> JobID list \<Rightarrow> int \<Rightarrow> bool \<Rightarrow> (JobID \<times> int) list \<Rightarrow> JobID list" where
  "bounded_claim_loop maxBytes jobIDs usedBytes limitReached [] = jobIDs"
| "bounded_claim_loop maxBytes jobIDs usedBytes limitReached ((jobID, payloadBytes) # rows) =
     (if limitReached then bounded_claim_loop maxBytes jobIDs usedBytes limitReached rows
      else if jobIDs = [] \<or> usedBytes + payloadBytes \<le> maxBytes
      then bounded_claim_loop maxBytes (jobIDs @ [jobID]) (usedBytes + payloadBytes)
             (usedBytes + payloadBytes > maxBytes) rows
      else bounded_claim_loop maxBytes jobIDs usedBytes True rows)"

definition findAndReserveBatchBoundedWithExecutor ::
  "(uuid \<Rightarrow> string) \<Rightarrow> time \<Rightarrow> time \<Rightarrow> LeaseToken \<Rightarrow> JobCapability \<Rightarrow> BatchClaimLimits \<Rightarrow> 'a sqlite_scheme \<Rightarrow>
   (error + Job list) \<times> 'a sqlite_scheme" where
  "findAndReserveBatchBoundedWithExecutor str now until leaseToken capability limits w =
     (case exec_stmt (\<lambda>w. (Inr (map (\<lambda>r. (r_id r, int (length (r_payload r))))
              (sql_select (\<lambda>r. claimable now r \<and> has_capability [capability] r)
                 (claim_key str) (nat (bl_MaxMessages limits)) (db_jobs w))), w)) w of
        (Inl err, w) \<Rightarrow> (Inl err, w)
      | (Inr candidates, w) \<Rightarrow>
          (let jobIDs = bounded_claim_loop (bl_MaxBytes limits) [] 0 False candidates
           in if jobIDs = [] then (Inl (Sentinel ErrNoJobs), w)
              else case update_jobs (\<lambda>r. r_id r \<in> set jobIDs) (take_lease until leaseToken) w of
                     (Inl err, w) \<Rightarrow> (Inl err, w)
                   | (Inr affected, w) \<Rightarrow>
                       if affected \<noteq> int (length jobIDs) then (Inl (Sentinel ErrNoJobs), w)
                       else case exec_stmt (\<lambda>w. (Inr (sort_key (claim_key str)
                                (filter (\<lambda>r. r_id r \<in> set jobIDs \<and> r_lease_token r = leaseToken) (db_jobs w))), w)) w of
                              (Inl err, w) \<Rightarrow> (Inl err, w)
                            | (Inr rows, w) \<Rightarrow>
                                if length rows \<noteq> length jobIDs then (Inl (Sentinel ErrNoJobs), w)
                                else (Inr (map scanJob rows), w)))"

definition sqlite_FindAndReserveJobsForCapabilityBounded ::
  "(uuid \<Rightarrow> string) \<Rightarrow> time \<Rightarrow> time \<Rightarrow> LeaseToken \<Rightarrow> JobCapability \<Rightarrow> BatchClaimLimits \<Rightarrow> 'a sqlite_scheme \<Rightarrow>
   (error + Job list) \<times> 'a sqlite_scheme" where
  "sqlite_FindAndReserveJobsForCapabilityBounded str now until leaseToken capability limits w =
     (case validateBatchClaim leaseToken (bl_MaxMessages limits) of
        Some err \<Rightarrow> (Inl err, w)
      | None \<Rightarrow>
          if bl_MaxBytes limits < 1 then (Inl (ErrNew ''max bytes must be positive: %d''), w)
          else case JobCapability_Validate capability of
                 Some err \<Rightarrow> (Inl (ErrWrap ''invalid capability: %w'' [err]), w)
               | None \<Rightarrow> withImmediateTransaction
                   (findAndReserveBatchBoundedWithExecutor str now until leaseToken capability limits) w)"

section \<open>Leases\<close>

definition sqlite_ExtendJobLeases ::
  "JobID list \<Rightarrow> LeaseToken \<Rightarrow> time \<Rightarrow> time \<Rightarrow> 'a sqlite_scheme \<Rightarrow> (error + int) \<times> 'a sqlite_scheme" where
  "sqlite_ExtendJobLeases jobIDs leaseToken now until w =
     (case validateBatchLease jobIDs leaseToken of
        Some err \<Rightarrow> (Inl err, w)
      | None \<Rightarrow> update_jobs (\<lambda>r. r_id r \<in> set jobIDs \<and> leased leaseToken now r)
                  (\<lambda>r. r\<lparr>r_reserved_at := Some (UnixMilli until)\<rparr>) w)"

definition sqlite_ReleaseUnstartedJobsWithLease ::
  "JobID list \<Rightarrow> LeaseToken \<Rightarrow> time \<Rightarrow> 'a sqlite_scheme \<Rightarrow> (error + int) \<times> 'a sqlite_scheme" where
  "sqlite_ReleaseUnstartedJobsWithLease jobIDs leaseToken now w =
     (case validateBatchLease jobIDs leaseToken of
        Some err \<Rightarrow> (Inl err, w)
      | None \<Rightarrow> update_jobs (\<lambda>r. r_id r \<in> set jobIDs \<and> leased leaseToken now r \<and> r_attempts r > 0)
                  (\<lambda>r. r\<lparr>r_attempts := r_attempts r - 1, r_reserved_at := None,
                         r_lease_token := LeaseTokenNil\<rparr>) w)"

definition sqlite_DeleteJobWithLease ::
  "JobID \<Rightarrow> LeaseToken \<Rightarrow> time \<Rightarrow> 'a sqlite_scheme \<Rightarrow> (error + int) \<times> 'a sqlite_scheme" where
  "sqlite_DeleteJobWithLease jobID leaseToken now w =
     (if JobID_IsZero jobID then (Inl (ErrNew ''invalid job id''), w)
      else case LeaseToken_Validate leaseToken of
             Some err \<Rightarrow> (Inl (ErrWrap ''invalid lease token: %w'' [err]), w)
           | None \<Rightarrow> delete_jobs (\<lambda>r. r_id r = jobID \<and> leased leaseToken now r) w)"

definition sqlite_RescheduleJobWithLease ::
  "JobID \<Rightarrow> LeaseToken \<Rightarrow> time \<Rightarrow> time \<Rightarrow> 'a sqlite_scheme \<Rightarrow> (error + int) \<times> 'a sqlite_scheme" where
  "sqlite_RescheduleJobWithLease jobID leaseToken now availableAt w =
     (if JobID_IsZero jobID then (Inl (ErrNew ''invalid job id''), w)
      else case LeaseToken_Validate leaseToken of
             Some err \<Rightarrow> (Inl (ErrWrap ''invalid lease token: %w'' [err]), w)
           | None \<Rightarrow> update_jobs (\<lambda>r. r_id r = jobID \<and> leased leaseToken now r)
                       (\<lambda>r. r\<lparr>r_available_at := UnixMilli availableAt, r_reserved_at := None,
                              r_lease_token := LeaseTokenNil\<rparr>) w)"

section \<open>Batch outcomes\<close>

text \<open>The rows of the \<open>input\<close> common table expression.\<close>

definition outcome_ids :: "(BatchJobOutcomeKind \<Rightarrow> bool) \<Rightarrow> BatchJobOutcome list \<Rightarrow> JobID set" where
  "outcome_ids p outcomes = bo_JobID ` {x \<in> set outcomes. p (bo_Kind x)}"

definition outcome_of :: "BatchJobOutcome list \<Rightarrow> JobID \<Rightarrow> BatchJobOutcome option" where
  "outcome_of outcomes i = find (\<lambda>x. bo_JobID x = i) outcomes"

definition is_terminal :: "BatchJobOutcomeKind \<Rightarrow> bool" where
  "is_terminal k \<longleftrightarrow> k = BatchJobOutcomeSuccess \<or> k = BatchJobOutcomeDLQ"

definition is_delayed :: "BatchJobOutcomeKind \<Rightarrow> bool" where
  "is_delayed k \<longleftrightarrow> k = BatchJobOutcomeRetry \<or> k = BatchJobOutcomeDefer"

definition deleteBatchTerminalOutcomes ::
  "LeaseToken \<Rightarrow> time \<Rightarrow> BatchJobOutcome list \<Rightarrow> 'a sqlite_scheme \<Rightarrow> (error + int) \<times> 'a sqlite_scheme" where
  "deleteBatchTerminalOutcomes leaseToken now outcomes =
     delete_jobs (\<lambda>r. r_id r \<in> outcome_ids is_terminal outcomes \<and> leased leaseToken now r)"

definition apply_delay :: "BatchJobOutcome list \<Rightarrow> job_row \<Rightarrow> job_row" where
  "apply_delay outcomes r =
     (case outcome_of outcomes (r_id r) of
        None \<Rightarrow> r
      | Some x \<Rightarrow> r\<lparr>r_attempts := (if bo_Kind x = BatchJobOutcomeDefer then r_attempts r - 1 else r_attempts r),
                   r_available_at := UnixMilli (bo_AvailableAt x), r_reserved_at := None,
                   r_lease_token := LeaseTokenNil\<rparr>)"

definition updateBatchRetryOutcomes ::
  "LeaseToken \<Rightarrow> time \<Rightarrow> BatchJobOutcome list \<Rightarrow> 'a sqlite_scheme \<Rightarrow> (error + int) \<times> 'a sqlite_scheme" where
  "updateBatchRetryOutcomes leaseToken now outcomes =
     update_jobs (\<lambda>r. r_id r \<in> outcome_ids is_delayed outcomes \<and> leased leaseToken now r \<and> r_attempts r > 0)
       (apply_delay outcomes)"

text \<open>The callback of \<open>ApplyBatchJobOutcomes\<close>. It succeeds only when \<open>affected\<close>, the sum of both
  counts, is the number of outcomes, so that number is what the operation then returns.\<close>

definition apply_outcomes_tx ::
  "LeaseToken \<Rightarrow> time \<Rightarrow> BatchJobOutcome list \<Rightarrow> 'a sqlite_scheme \<Rightarrow> error option \<times> 'a sqlite_scheme" where
  "apply_outcomes_tx leaseToken now outcomes w =
     (case deleteBatchTerminalOutcomes leaseToken now outcomes w of
        (Inl err, w) \<Rightarrow> (Some err, w)
      | (Inr deleted, w) \<Rightarrow>
      (case updateBatchRetryOutcomes leaseToken now outcomes w of
         (Inl err, w) \<Rightarrow> (Some err, w)
       | (Inr updated, w) \<Rightarrow>
           if deleted + updated \<noteq> int (length outcomes)
           then (Some (ErrWrap ''%w: finalized %d of %d batch jobs'' [Sentinel ErrLeaseLost]), w)
           else (None, w)))"

definition sqlite_ApplyBatchJobOutcomes ::
  "LeaseToken \<Rightarrow> time \<Rightarrow> BatchJobOutcome list \<Rightarrow> 'a sqlite_scheme \<Rightarrow> (error + int) \<times> 'a sqlite_scheme" where
  "sqlite_ApplyBatchJobOutcomes leaseToken now outcomes w =
     (case validateBatchOutcomes leaseToken outcomes of
        Some err \<Rightarrow> (Inl err, w)
      | None \<Rightarrow>
          (case sqlite_RunInTx (apply_outcomes_tx leaseToken now outcomes) w of
             (Some err, w) \<Rightarrow> (Inl (ErrWrap ''apply batch job outcomes: %w'' [err]), w)
           | (None, w) \<Rightarrow> (Inr (int (length outcomes)), w)))"

definition sqlite_DeferJobWithLease ::
  "JobID \<Rightarrow> LeaseToken \<Rightarrow> time \<Rightarrow> time \<Rightarrow> 'a sqlite_scheme \<Rightarrow> (error + int) \<times> 'a sqlite_scheme" where
  "sqlite_DeferJobWithLease jobID leaseToken now availableAt w =
     sqlite_ApplyBatchJobOutcomes leaseToken now
       [\<lparr>bo_JobID = jobID, bo_Kind = BatchJobOutcomeDefer, bo_AvailableAt = availableAt, bo_Reason = []\<rparr>] w"

section \<open>The repository\<close>

text \<open>The interface value the service holds when it is configured with this repository.\<close>

definition sqlite_batch_repo ::
  "(uuid \<Rightarrow> string) \<Rightarrow> 'a sqlite_scheme BatchJobsRepository" where
  "sqlite_batch_repo str =
     \<lparr>FindAndReserveJobsForCapability = (\<lambda>_. sqlite_FindAndReserveJobsForCapability str),
      ApplyBatchJobOutcomes = (\<lambda>_. sqlite_ApplyBatchJobOutcomes),
      MaxExecutionBatchSize = MaxReservationBatchSize,
      FindAndReserveJobsForCapabilityBounded =
        Some (\<lambda>_. sqlite_FindAndReserveJobsForCapabilityBounded str)\<rparr>"

definition sqlite_repo ::
  "(uuid \<Rightarrow> string) \<Rightarrow> 'a sqlite_scheme runtime \<Rightarrow> 'a sqlite_scheme JobsRepository" where
  "sqlite_repo str rt =
     \<lparr>CreateJobVersioned = (\<lambda>_. sqlite_CreateJobVersioned rt),
      FindAndReserveJobsForCapabilities = (\<lambda>_. sqlite_FindAndReserveJobsForCapabilities str),
      ExtendJobLeases = (\<lambda>_. sqlite_ExtendJobLeases),
      ReleaseUnstartedJobsWithLease = (\<lambda>_. sqlite_ReleaseUnstartedJobsWithLease),
      DeleteJobWithLease = (\<lambda>_. sqlite_DeleteJobWithLease),
      RescheduleJobWithLease = (\<lambda>_. sqlite_RescheduleJobWithLease),
      MaxReservationBatch = MaxReservationBatchSize,
      asBatchJobsRepository = Some (sqlite_batch_repo str),
      asDeferJobsRepository = Some (\<lambda>_. sqlite_DeferJobWithLease),
      asUniqueJobsRepository = Some (\<lambda>_. sqlite_CreateJobVersionedUniqueResult rt),
      asUniqueBatchJobsRepository = Some (\<lambda>_. sqlite_CreateJobVersionedUniqueBatch rt),
      asJobsStatRepository = Some (\<lambda>_. sqlite_GetQueueStats)\<rparr>"

section \<open>Lemmas\<close>

subsection \<open>Claims\<close>

definition claimed_job :: "time \<Rightarrow> LeaseToken \<Rightarrow> job_row \<Rightarrow> Job" where
  "claimed_job until token r =
     (scanJob r)\<lparr>job_Attempts := r_attempts r + 1, job_ReservedAt := Some until, job_LeaseToken := token\<rparr>"

definition claim_rows ::
  "(uuid \<Rightarrow> string) \<Rightarrow> time \<Rightarrow> JobCapability list \<Rightarrow> int \<Rightarrow> job_row list \<Rightarrow> job_row list" where
  "claim_rows str now capabilities limit js =
     sql_select (\<lambda>r. claimable now r \<and> has_capability capabilities r) (claim_key str) (nat limit) js"

definition lease_rows :: "JobID list \<Rightarrow> time \<Rightarrow> LeaseToken \<Rightarrow> job_row list \<Rightarrow> job_row list" where
  "lease_rows ids until token js = sql_update (\<lambda>r. r_id r \<in> set ids) (take_lease until token) js"

lemma claimed_job_ID [simp]: "job_ID (claimed_job until token r) = r_id r"
  by (simp add: claimed_job_def scanJob_def)

lemma take_lease_simps [simp]:
  "r_id (take_lease until token r) = r_id r"
  "r_deduplication_key (take_lease until token r) = r_deduplication_key r"
  "r_schema_version (take_lease until token r) = r_schema_version r"
  "r_lease_token (take_lease until token r) = token"
  "r_reserved_at (take_lease until token r) = Some (UnixMilli until)"
  "claim_key str (take_lease until token r) = claim_key str r"
  by (simp_all add: take_lease_def claim_key_def)

lemma claim_executor_ok:
  assumes "findAndReserveBatchWithExecutor str now until token caps limit w = (Inr jobs, w')"
  obtains F where
    "claim_rows str now caps limit (db_jobs w) \<noteq> []"
    "jobs = map (claimed_job until token) (claim_rows str now caps limit (db_jobs w))"
    "w' = w\<lparr>db_faults := F, db_jobs := lease_rows (map job_ID jobs) until token (db_jobs w)\<rparr>"
  using assms
  by (auto simp: findAndReserveBatchWithExecutor_def Let_def
      split: prod.splits sum.splits if_splits elim!: exec_stmt_cases update_jobs_cases)
     (rule that, auto simp: claim_rows_def lease_rows_def claimed_job_def scanJob_def comp_def)

lemma claim_ok:
  assumes "sqlite_FindAndReserveJobsForCapabilities str now until token caps limit w = (Inr jobs, w')"
  obtains F where
    "token \<noteq> LeaseTokenNil" "1 \<le> limit" "limit \<le> MaxReservationBatchSize"
    "claim_rows str now caps limit (db_jobs w) \<noteq> []"
    "jobs = map (claimed_job until token) (claim_rows str now caps limit (db_jobs w))"
    "w' = w\<lparr>db_faults := F, db_jobs := lease_rows (map job_ID jobs) until token (db_jobs w)\<rparr>"
  using assms
  by (auto simp: sqlite_FindAndReserveJobsForCapabilities_def findAndReserveBatch_def
      validateBatchClaim_def split: if_splits option.splits
      elim!: withImmediateTransaction_ok claim_executor_ok)
     (rule that, auto simp: table_simps)

lemma claim_rows_count:
  assumes "distinct (map r_id js)"
  shows "sql_count (\<lambda>r. r_id r \<in> set (map r_id (claim_rows str now caps limit js))) js =
    int (length (claim_rows str now caps limit js))"
proof -
  let ?rows = "claim_rows str now caps limit js"
  have "distinct (map r_id ?rows)"
    using assms unfolding claim_rows_def by (rule distinct_sql_select)
  moreover have "\<exists>r \<in> set js. r_id r = i \<and> True" if "i \<in> set (map r_id ?rows)" for i
    using that sql_select_sat unfolding claim_rows_def by fastforce
  ultimately show ?thesis
    using sql_count_ids [of r_id js "map r_id ?rows" "\<lambda>_. True"] assms by simp
qed


end
