(* ===== verification/Service_API.thy ===== *)
theory Service_API
  imports Service_Options Sqlite_Jobs
begin

text \<open>
  The producer's side of a service, src/outbox/api.go: puts, unique puts, atomic unique batches and the
  queue statistics. The properties run them on the SQLite repository.
\<close>

section \<open>Puts\<close>

definition PutVersioned ::
  "'w Service \<Rightarrow> ctx \<Rightarrow> string \<Rightarrow> SchemaVersion \<Rightarrow> string \<Rightarrow> time \<Rightarrow> 'w \<Rightarrow> (error + JobID) \<times> 'w" where
  "PutVersioned sv c nm schemaVersion payload availableAt w =
     (case JobCapability_Validate \<lparr>cap_Name = nm, cap_SchemaVersion = schemaVersion\<rparr> of
        Some err \<Rightarrow> (Inl err, w)
      | None \<Rightarrow>
          (case CreateJobVersioned (the (o_jobsRepo (sv_Options sv))) c nm schemaVersion payload availableAt w of
             (Inl err, w) \<Rightarrow> (Inl (ErrWrap ''create versioned job: %w'' [err]), w)
           | (Inr jobID, w) \<Rightarrow> (Inr jobID, w)))"

definition Put :: "'w Service \<Rightarrow> ctx \<Rightarrow> string \<Rightarrow> string \<Rightarrow> time \<Rightarrow> 'w \<Rightarrow> (error + JobID) \<times> 'w" where
  "Put sv c nm payload availableAt w = PutVersioned sv c nm DefaultSchemaVersion payload availableAt w"

definition PutVersionedUnique ::
  "'w Service \<Rightarrow> ctx \<Rightarrow> string \<Rightarrow> string \<Rightarrow> SchemaVersion \<Rightarrow> string \<Rightarrow> time \<Rightarrow> 'w \<Rightarrow> (error + UniquePutResult) \<times> 'w" where
  "PutVersionedUnique sv c deduplicationKey nm schemaVersion payload availableAt w =
     (case o_uniqueJobsRepo (sv_Options sv) of
        None \<Rightarrow> (Inl (Sentinel ErrUniqueRepositoryNotConfigured), w)
      | Some createUnique \<Rightarrow>
          if deduplicationKey = [] then (Inl (ErrNew ''outbox deduplication key is empty''), w)
          else case JobCapability_Validate \<lparr>cap_Name = nm, cap_SchemaVersion = schemaVersion\<rparr> of
                 Some err \<Rightarrow> (Inl err, w)
               | None \<Rightarrow>
                   (case createUnique c deduplicationKey nm schemaVersion payload availableAt w of
                      (Inl err, w) \<Rightarrow> (Inl (ErrWrap ''create unique versioned job: %w'' [err]), w)
                    | (Inr result, w) \<Rightarrow> (Inr result, w)))"

text \<open>The loop that validates the items of a batch.\<close>

fun validate_items :: "string set \<Rightarrow> UniqueBatchPut list \<Rightarrow> error option" where
  "validate_items seen [] = None"
| "validate_items seen (item # items) =
     (if ub_DeduplicationKey item = []
      then Some (ErrNew ''outbox unique batch item %d has an empty deduplication key'')
      else if ub_DeduplicationKey item \<in> seen
      then Some (ErrNew ''outbox unique batch item %d duplicates deduplication key %q'')
      else case JobCapability_Validate \<lparr>cap_Name = ub_Name item, cap_SchemaVersion = ub_SchemaVersion item\<rparr> of
             Some err \<Rightarrow> Some (ErrWrap ''outbox unique batch item %d: %w'' [err])
           | None \<Rightarrow> validate_items (insert (ub_DeduplicationKey item) seen) items)"

definition PutVersionedUniqueBatch ::
  "'w Service \<Rightarrow> ctx \<Rightarrow> UniqueBatchPut list \<Rightarrow> 'w \<Rightarrow> (error + UniquePutResult list) \<times> 'w" where
  "PutVersionedUniqueBatch sv c items w =
     (case o_uniqueBatchJobsRepo (sv_Options sv) of
        None \<Rightarrow> (Inl (Sentinel ErrUniqueRepositoryNotConfigured), w)
      | Some createBatch \<Rightarrow>
          if items = [] then (Inl (ErrNew ''outbox unique batch is empty''), w)
          else if int (length items) > MaxReservationBatchSize
          then (Inl (ErrNew ''outbox unique batch contains %d items; maximum is %d''), w)
          else case validate_items {} items of
                 Some err \<Rightarrow> (Inl err, w)
               | None \<Rightarrow>
                   (case createBatch c items w of
                      (Inl err, w) \<Rightarrow> (Inl (ErrWrap ''create unique versioned job batch: %w'' [err]), w)
                    | (Inr results, w) \<Rightarrow>
                        if length results \<noteq> length items
                        then (Inl (ErrNew ''unique batch repository returned %d results for %d items''), w)
                        else if list_ex (\<lambda>result. JobID_IsZero (up_JobID result)) results
                        then (Inl (ErrNew ''unique batch repository returned an empty JobID at index %d''), w)
                        else (Inr results, w)))"

section \<open>Statistics\<close>

definition GetQueueStats :: "'w runtime \<Rightarrow> 'w Service \<Rightarrow> ctx \<Rightarrow> 'w \<Rightarrow> (error + QueueStats) \<times> 'w" where
  "GetQueueStats rt sv c w =
     (case o_jobsStatRepo (sv_Options sv) of
        None \<Rightarrow> (Inl (Sentinel ErrJobStatNotInit), w)
      | Some getQueueStats \<Rightarrow>
          (let (observedAt, w) = time_Now rt w
           in case getQueueStats c observedAt w of
                (Inl err, w) \<Rightarrow> (Inl (ErrWrap ''get queue stats: %w'' [err]), w)
              | (Inr stats, w) \<Rightarrow>
                  (Inr (stats\<lparr>qs_ObservedAt := observedAt,
                     qs_ByCapability := sort_key (\<lambda>g. (cs_Name g, cs_SchemaVersion g)) (qs_ByCapability stats)\<rparr>), w)))"

definition QueueStats_of :: "'w runtime \<Rightarrow> 'w Service \<Rightarrow> ctx \<Rightarrow> 'w \<Rightarrow> (error + QueueStats) \<times> 'w" where
  "QueueStats_of rt sv c w = GetQueueStats rt sv c w"

end
