(* ===== verification/Service_Lifecycle.thy ===== *)
theory Service_Lifecycle
  imports Go_Base
begin

text \<open>
  The lifecycle of a service shared by its goroutines: \<open>Run\<close>, \<open>BeginDrain\<close>, \<open>IsDraining\<close> and
  \<open>Readiness\<close> of src/outbox/service.go and the claim boundary \<open>claimMu\<close> of src/outbox/service_claim.go.
  Every atomic access is one step, and the steps of a running \<open>Run\<close>, of any number of \<open>BeginDrain\<close>
  calls and of any number of claiming workers interleave freely.
\<close>

section \<open>State and steps\<close>

text \<open>Where \<open>Run\<close> is: not running, started, past its look at the drain channel, serving.\<close>

datatype run_pc = RunIdle | RunStarted | RunSawOpen | RunServing

record lifecycle =
  lc_running :: bool
  lc_ready :: bool
  lc_drain :: bool
  lc_run :: run_pc
  lc_drain_waiting :: nat
  lc_drain_locked :: bool
  lc_drain_returned :: nat
  lc_admitting :: nat
  lc_claiming :: nat

text \<open>\<open>lc_drain\<close> says that the drain channel is closed. \<open>lc_drain_waiting\<close> counts the \<open>BeginDrain\<close> calls that
  wait for the write lock, \<open>lc_drain_locked\<close> says that one holds it, \<open>lc_drain_returned\<close> counts those that have
  returned. \<open>lc_admitting\<close> counts the workers that hold the read lock and have not looked at the drain channel,
  \<open>lc_claiming\<close> those that hold it and are calling the repository.\<close>

definition lc_initial :: lifecycle where
  "lc_initial =
     \<lparr>lc_running = False, lc_ready = False, lc_drain = False, lc_run = RunIdle, lc_drain_waiting = 0,
      lc_drain_locked = False, lc_drain_returned = 0, lc_admitting = 0, lc_claiming = 0\<rparr>"

definition lc_readers :: "lifecycle \<Rightarrow> nat" where
  "lc_readers l = lc_admitting l + lc_claiming l"

datatype lc_event =
    RunCalled | RunRefused | RunLooks | RunBecomesReady | RunReturns
  | DrainCalled | DrainLocks | DrainCloses | DrainReturns
  | ClaimLocks | ClaimRefused | ClaimStarts | ClaimEnds

text \<open>The steps of \<open>Run\<close>: the compare-and-swap of \<open>running\<close>, the select on the drain channel, the store to
  \<open>ready\<close>, and the deferred stores when it returns.\<close>

inductive run_step :: "lifecycle \<Rightarrow> lc_event \<Rightarrow> lifecycle \<Rightarrow> bool" where
  run_called: "\<not> lc_running l \<Longrightarrow> run_step l RunCalled (l\<lparr>lc_running := True, lc_run := RunStarted\<rparr>)"
| run_refused: "lc_running l \<Longrightarrow> run_step l RunRefused l"
| run_looks: "lc_run l = RunStarted \<Longrightarrow>
    run_step l RunLooks (l\<lparr>lc_run := (if lc_drain l then RunServing else RunSawOpen)\<rparr>)"
| run_ready: "lc_run l = RunSawOpen \<Longrightarrow> run_step l RunBecomesReady (l\<lparr>lc_ready := True, lc_run := RunServing\<rparr>)"
| run_returns: "lc_run l = RunServing \<Longrightarrow>
    run_step l RunReturns (l\<lparr>lc_ready := False, lc_running := False, lc_run := RunIdle\<rparr>)"

text \<open>The steps of a call of \<open>BeginDrain\<close>: the store to \<open>ready\<close>, the write lock, the closing of the channel
  and the unlock.\<close>

inductive drain_step :: "lifecycle \<Rightarrow> lc_event \<Rightarrow> lifecycle \<Rightarrow> bool" where
  drain_called: "drain_step l DrainCalled (l\<lparr>lc_ready := False, lc_drain_waiting := lc_drain_waiting l + 1\<rparr>)"
| drain_locks: "0 < lc_drain_waiting l \<Longrightarrow> \<not> lc_drain_locked l \<Longrightarrow> lc_readers l = 0 \<Longrightarrow>
    drain_step l DrainLocks (l\<lparr>lc_drain_waiting := lc_drain_waiting l - 1, lc_drain_locked := True\<rparr>)"
| drain_closes: "lc_drain_locked l \<Longrightarrow> drain_step l DrainCloses (l\<lparr>lc_drain := True\<rparr>)"
| drain_returns: "lc_drain_locked l \<Longrightarrow> lc_drain l \<Longrightarrow>
    drain_step l DrainReturns (l\<lparr>lc_drain_locked := False, lc_drain_returned := lc_drain_returned l + 1\<rparr>)"

text \<open>The steps of a claiming worker: the read lock, the look at the channel, and the repository call up to the
  deferred unlock.\<close>

inductive claim_step :: "lifecycle \<Rightarrow> lc_event \<Rightarrow> lifecycle \<Rightarrow> bool" where
  claim_locks: "\<not> lc_drain_locked l \<Longrightarrow> claim_step l ClaimLocks (l\<lparr>lc_admitting := lc_admitting l + 1\<rparr>)"
| claim_refused: "0 < lc_admitting l \<Longrightarrow> lc_drain l \<Longrightarrow>
    claim_step l ClaimRefused (l\<lparr>lc_admitting := lc_admitting l - 1\<rparr>)"
| claim_starts: "0 < lc_admitting l \<Longrightarrow> \<not> lc_drain l \<Longrightarrow>
    claim_step l ClaimStarts (l\<lparr>lc_admitting := lc_admitting l - 1, lc_claiming := lc_claiming l + 1\<rparr>)"
| claim_ends: "0 < lc_claiming l \<Longrightarrow> claim_step l ClaimEnds (l\<lparr>lc_claiming := lc_claiming l - 1\<rparr>)"

text \<open>Any of the goroutines may take the next step.\<close>

definition lc_step :: "lifecycle \<Rightarrow> lc_event \<Rightarrow> lifecycle \<Rightarrow> bool" where
  "lc_step l e l' \<longleftrightarrow> run_step l e l' \<or> drain_step l e l' \<or> claim_step l e l'"

inductive lc_run_trace :: "lifecycle \<Rightarrow> lc_event list \<Rightarrow> lifecycle \<Rightarrow> bool" where
  none: "lc_run_trace l [] l"
| more: "lc_run_trace l es l' \<Longrightarrow> lc_step l' e l'' \<Longrightarrow> lc_run_trace l (es @ [e]) l''"

lemmas lc_step_simps = lc_step_def run_step.simps drain_step.simps claim_step.simps

lemma lc_step_cases [consumes 1, case_names run drain claim]:
  assumes "lc_step l e l'"
  obtains "run_step l e l'" | "drain_step l e l'" | "claim_step l e l'"
  using assms by (auto simp: lc_step_def)

inductive_cases claim_step_ClaimStarts: "claim_step l ClaimStarts l'"
inductive_cases run_step_ClaimStarts: "run_step l ClaimStarts l'"
inductive_cases drain_step_ClaimStarts: "drain_step l ClaimStarts l'"

lemmas lc_step_ClaimStarts = claim_step_ClaimStarts run_step_ClaimStarts drain_step_ClaimStarts

definition IsDraining :: "lifecycle \<Rightarrow> bool" where
  "IsDraining l = lc_drain l"

text \<open>\<open>Readiness\<close>, for the error \<open>ctx.Err()\<close> of its context.\<close>

definition Readiness :: "error option \<Rightarrow> lifecycle \<Rightarrow> error option" where
  "Readiness ctxErr l =
     (if ctxErr \<noteq> None then ctxErr
      else if \<not> lc_running l then Some (Sentinel ErrServiceNotRunning)
      else if IsDraining l then Some (Sentinel ErrServiceDraining)
      else if \<not> lc_ready l then Some (Sentinel ErrServiceNotRunning)
      else None)"

section \<open>The drain boundary\<close>

definition lc_ok :: "lifecycle \<Rightarrow> bool" where
  "lc_ok l \<longleftrightarrow>
     (lc_drain_locked l \<longrightarrow> lc_readers l = 0) \<and> (lc_drain l \<longrightarrow> lc_claiming l = 0) \<and>
     (0 < lc_drain_returned l \<longrightarrow> lc_drain l) \<and>
     (lc_ready l \<longrightarrow> lc_run l = RunServing) \<and> (lc_running l \<longleftrightarrow> lc_run l \<noteq> RunIdle)"

lemma lc_ok_run_step: "run_step l e l' \<Longrightarrow> lc_ok l \<Longrightarrow> lc_ok l'"
  by (induction rule: run_step.induct, simp_all add: lc_ok_def lc_readers_def) (metis run_pc.distinct(5))

lemma lc_ok_drain_step: "drain_step l e l' \<Longrightarrow> lc_ok l \<Longrightarrow> lc_ok l'"
  by (induction rule: drain_step.induct, simp_all add: lc_ok_def lc_readers_def)

lemma lc_ok_claim_step: "claim_step l e l' \<Longrightarrow> lc_ok l \<Longrightarrow> lc_ok l'"
  by (induction rule: claim_step.induct, simp_all add: lc_ok_def lc_readers_def) blast

lemma lc_ok_step: "lc_step l e l' \<Longrightarrow> lc_ok l \<Longrightarrow> lc_ok l'"
  by (cases rule: lc_step_cases) (blast intro: lc_ok_run_step lc_ok_drain_step lc_ok_claim_step)+

lemma drain_stays_step: "lc_step l e l' \<Longrightarrow> lc_drain l \<Longrightarrow> lc_drain l'"
  by (auto simp: lc_step_def elim: run_step.cases drain_step.cases claim_step.cases)

lemma lc_ok_trace: "lc_run_trace l es l' \<Longrightarrow> lc_ok l \<Longrightarrow> lc_ok l'"
  by (induction rule: lc_run_trace.induct) (auto intro: lc_ok_step)

lemma lc_ok_initial: "lc_ok lc_initial"
  by (simp add: lc_ok_def lc_initial_def lc_readers_def)

lemma drain_stays: "lc_run_trace l es l' \<Longrightarrow> lc_drain l \<Longrightarrow> lc_drain l'"
proof (induction rule: lc_run_trace.induct)
  case (more l es l' e l'')
  have "lc_drain l'" using more by blast
  with more.hyps(2) show ?case by (rule drain_stays_step)
qed

lemma no_claim_after_drain: "lc_run_trace l es l' \<Longrightarrow> lc_drain l \<Longrightarrow> ClaimStarts \<notin> set es"
proof (induction rule: lc_run_trace.induct)
  case (more l es l' e l'')
  have "lc_drain l'" using more.hyps(1) more.prems by (rule drain_stays)
  with more show ?case by (auto simp: lc_step_def elim: lc_step_ClaimStarts)
qed simp

lemma lc_ok_reached: "lc_run_trace lc_initial es l \<Longrightarrow> lc_ok l"
  by (rule lc_ok_trace [OF _ lc_ok_initial])

section \<open>Executing events\<close>

text \<open>The one successor an event has, when it can happen.\<close>

fun lc_exec :: "lc_event \<Rightarrow> lifecycle \<Rightarrow> lifecycle option" where
  "lc_exec RunCalled l = (if \<not> lc_running l then Some (l\<lparr>lc_running := True, lc_run := RunStarted\<rparr>) else None)"
| "lc_exec RunRefused l = (if lc_running l then Some l else None)"
| "lc_exec RunLooks l = (if lc_run l = RunStarted
     then Some (l\<lparr>lc_run := (if lc_drain l then RunServing else RunSawOpen)\<rparr>) else None)"
| "lc_exec RunBecomesReady l = (if lc_run l = RunSawOpen
     then Some (l\<lparr>lc_ready := True, lc_run := RunServing\<rparr>) else None)"
| "lc_exec RunReturns l = (if lc_run l = RunServing
     then Some (l\<lparr>lc_ready := False, lc_running := False, lc_run := RunIdle\<rparr>) else None)"
| "lc_exec DrainCalled l = Some (l\<lparr>lc_ready := False, lc_drain_waiting := lc_drain_waiting l + 1\<rparr>)"
| "lc_exec DrainLocks l = (if 0 < lc_drain_waiting l \<and> \<not> lc_drain_locked l \<and> lc_readers l = 0
     then Some (l\<lparr>lc_drain_waiting := lc_drain_waiting l - 1, lc_drain_locked := True\<rparr>) else None)"
| "lc_exec DrainCloses l = (if lc_drain_locked l then Some (l\<lparr>lc_drain := True\<rparr>) else None)"
| "lc_exec DrainReturns l = (if lc_drain_locked l \<and> lc_drain l
     then Some (l\<lparr>lc_drain_locked := False, lc_drain_returned := lc_drain_returned l + 1\<rparr>) else None)"
| "lc_exec ClaimLocks l = (if \<not> lc_drain_locked l then Some (l\<lparr>lc_admitting := lc_admitting l + 1\<rparr>) else None)"
| "lc_exec ClaimRefused l = (if 0 < lc_admitting l \<and> lc_drain l
     then Some (l\<lparr>lc_admitting := lc_admitting l - 1\<rparr>) else None)"
| "lc_exec ClaimStarts l = (if 0 < lc_admitting l \<and> \<not> lc_drain l
     then Some (l\<lparr>lc_admitting := lc_admitting l - 1, lc_claiming := lc_claiming l + 1\<rparr>) else None)"
| "lc_exec ClaimEnds l = (if 0 < lc_claiming l then Some (l\<lparr>lc_claiming := lc_claiming l - 1\<rparr>) else None)"

fun lc_execs :: "lc_event list \<Rightarrow> lifecycle \<Rightarrow> lifecycle option" where
  "lc_execs [] l = Some l"
| "lc_execs (e # es) l = Option.bind (lc_exec e l) (lc_execs es)"

lemma lc_exec_iff: "lc_exec e l = Some l' \<longleftrightarrow> lc_step l e l'"
  by (cases e) (auto simp: lc_step_simps split: if_splits)

lemma lc_execs_snoc: "lc_execs (es @ [e]) l = Option.bind (lc_execs es l) (lc_exec e)"
  by (induction es arbitrary: l) (auto simp: bind_eq_None_conv split: bind_splits)

lemma lc_execs_trace: "lc_execs es l = Some l' \<Longrightarrow> lc_run_trace l es l'"
proof (induction es arbitrary: l' rule: rev_induct)
  case (snoc e es)
  then show ?case
    by (auto simp: lc_execs_snoc lc_exec_iff bind_eq_Some_conv intro: lc_run_trace.more)
qed (simp add: lc_run_trace.none)

section \<open>Properties\<close>

text \<open>C29. The drain boundary: whatever the interleaving, once some call of \<open>BeginDrain\<close> has returned no
  claim is in progress, no worker starts a repository claim ever after, and readiness is never
  reported again.\<close>

theorem no_claim_after_BeginDrain:
  assumes "lc_run_trace lc_initial before l" "0 < lc_drain_returned l" "lc_run_trace l after l'"
  shows "lc_claiming l = 0 \<and> ClaimStarts \<notin> set after \<and> lc_claiming l' = 0 \<and> Readiness ctxErr l' \<noteq> None"
proof -
  have l: "lc_ok l" using assms(1) by (rule lc_ok_reached)
  then have d: "lc_drain l" using assms(2) by (simp add: lc_ok_def)
  have "lc_ok l'" "lc_drain l'"
    using lc_ok_trace [OF assms(3) l] drain_stays [OF assms(3) d] by blast+
  then show ?thesis
    using l d no_claim_after_drain [OF assms(3) d] by (auto simp: lc_ok_def Readiness_def IsDraining_def)
qed

definition drained :: lifecycle where
  "drained = the (lc_execs [RunCalled, ClaimLocks, DrainCalled, ClaimStarts, ClaimEnds, DrainLocks, DrainCloses,
     DrainReturns] lc_initial)"

theorem no_claim_after_BeginDrain_witness:
  "0 < lc_drain_returned drained \<and> ClaimStarts \<notin> set [ClaimLocks, ClaimRefused] \<and>
   Readiness None (drained\<lparr>lc_admitting := 0\<rparr>) \<noteq> None"
proof -
  have 1: "lc_run_trace lc_initial [RunCalled, ClaimLocks, DrainCalled, ClaimStarts, ClaimEnds, DrainLocks,
      DrainCloses, DrainReturns] drained"
    by (rule lc_execs_trace) (simp add: drained_def lc_initial_def lc_readers_def)
  have 2: "0 < lc_drain_returned drained"
    by (simp add: drained_def lc_initial_def lc_readers_def)
  have 3: "lc_run_trace drained [ClaimLocks, ClaimRefused] (drained\<lparr>lc_admitting := 0\<rparr>)"
    by (rule lc_execs_trace) (simp add: drained_def lc_initial_def lc_readers_def)
  show ?thesis
    using no_claim_after_BeginDrain [OF 1 2 3, of None] 2 by blast
qed

end
