(* ===== verification/Lease_Manager.thy ===== *)
theory Lease_Manager
  imports Repository "HOL-Library.AList"
begin

text \<open>
  The lease ledger of one claimed batch, \<open>batchLeaseManager\<close> of src/outbox/service_batch.go: the
  deadlines the worker believes to hold, their conservative lower bound, the heartbeat that extends
  them, admission of a job to its handler, and the fenced finalization of jobs. Every method takes
  the ledger and the world and returns both. The heartbeat goroutine takes the ledger's lock between
  any two methods, as often as the scheduler lets it.
\<close>

section \<open>The ledger\<close>

record manager =
  bm_leaseToken :: LeaseToken
  bm_reserveFor :: duration
  bm_orderedIDs :: "JobID list"
  bm_outstanding :: "(JobID \<times> time) list"
  bm_earliestUntil :: time
  bm_err :: "error option"
  bm_running :: bool
  bm_cause :: "error option"

text \<open>\<open>bm_running\<close> says that the heartbeat goroutine has not returned, \<open>bm_cause\<close> is the cause of the
  batch context once it is cancelled; the first cause stays.\<close>

definition cancelBatch :: "error \<Rightarrow> manager \<Rightarrow> manager" where
  "cancelBatch err m = m\<lparr>bm_cause := (case bm_cause m of None \<Rightarrow> Some err | Some c \<Rightarrow> Some c)\<rparr>"

text \<open>The running minimum of the deadlines, with Go's zero time as "none yet".\<close>

definition earlier :: "time \<Rightarrow> time \<Rightarrow> time" where
  "earlier earliest until = (if time_IsZero earliest \<or> until < earliest then until else earliest)"

text \<open>\<open>job.ReservedAt.Time\<close>, the zero time when the column was NULL.\<close>

definition ReservedAt_Time :: "Job \<Rightarrow> time" where
  "ReservedAt_Time job = (case job_ReservedAt job of Some t \<Rightarrow> t | None \<Rightarrow> zero_time)"

definition note_lease :: "Job \<Rightarrow> manager \<Rightarrow> manager" where
  "note_lease job m =
     m\<lparr>bm_orderedIDs := bm_orderedIDs m @ [job_ID job],
       bm_outstanding := AList.update (job_ID job) (ReservedAt_Time job) (bm_outstanding m),
       bm_earliestUntil := earlier (bm_earliestUntil m) (ReservedAt_Time job)\<rparr>"

definition newBatchLeaseManager :: "Job list \<Rightarrow> LeaseToken \<Rightarrow> duration \<Rightarrow> manager" where
  "newBatchLeaseManager jobs leaseToken reserveFor =
     fold note_lease jobs
       \<lparr>bm_leaseToken = leaseToken, bm_reserveFor = reserveFor, bm_orderedIDs = [], bm_outstanding = [],
        bm_earliestUntil = zero_time, bm_err = None, bm_running = True, bm_cause = None\<rparr>"

definition recomputeEarliestLocked :: "manager \<Rightarrow> manager" where
  "recomputeEarliestLocked m =
     m\<lparr>bm_earliestUntil := foldl earlier zero_time (map snd (bm_outstanding m))\<rparr>"

definition failLeaseLocked :: "error \<Rightarrow> manager \<Rightarrow> error option \<times> manager" where
  "failLeaseLocked err m = (Some err, cancelBatch err (m\<lparr>bm_err := Some err\<rparr>))"

definition checkLeasesLocked :: "time \<Rightarrow> manager \<Rightarrow> error option \<times> manager" where
  "checkLeasesLocked now m =
     (if now < bm_earliestUntil m then (None, m)
      else if list_ex (\<lambda>(jobID, until). \<not> until > now) (bm_outstanding m)
      then failLeaseLocked (ErrWrap ''%w: expired lease for job %s'' [Sentinel ErrLeaseLost]) m
      else (None, recomputeEarliestLocked m))"

section \<open>Contexts of a batch\<close>

text \<open>\<open>context.Cause\<close> of a context derived from the batch context: the cause the ledger has recorded,
  or whatever the surrounding context reports, which then becomes the cause of the batch.\<close>

definition batch_Cause ::
  "'w runtime \<Rightarrow> ctx \<Rightarrow> manager \<Rightarrow> 'w \<Rightarrow> error option \<times> manager \<times> 'w" where
  "batch_Cause rt c m w =
     (if \<not> detached c \<and> bm_cause m \<noteq> None then (bm_cause m, m, w)
      else case context_Cause rt c w of
             (None, w) \<Rightarrow> (None, m, w)
           | (Some err, w) \<Rightarrow> (Some err, if c = BatchCtx then cancelBatch err m else m, w))"

definition batchStartError :: "'w runtime \<Rightarrow> ctx \<Rightarrow> manager \<Rightarrow> 'w \<Rightarrow> error option \<times> manager \<times> 'w" where
  "batchStartError rt c m w =
     (case batch_Cause rt c m w of
        (Some cause, m, w) \<Rightarrow> (Some cause, m, w)
      | (None, m, w) \<Rightarrow>
          (case drain_closed rt w of
             (True, w) \<Rightarrow> (Some (Sentinel ErrServiceDraining), m, w)
           | (False, w) \<Rightarrow> (None, m, w)))"

section \<open>Extending leases\<close>

text \<open>The loop over \<open>orderedIDs\<close> in \<open>ensureLeasesLocked\<close>: the earliest deadline, and the outstanding
  jobs whose deadline is too early.\<close>

fun scan_outstanding ::
  "(JobID \<times> time) list \<Rightarrow> time \<Rightarrow> JobID list \<Rightarrow> JobID list \<Rightarrow> time \<Rightarrow> JobID list \<times> time" where
  "scan_outstanding outstanding requiredUntil [] jobIDs earliest = (jobIDs, earliest)"
| "scan_outstanding outstanding requiredUntil (jobID # rest) jobIDs earliest =
     (case map_of outstanding jobID of
        None \<Rightarrow> scan_outstanding outstanding requiredUntil rest jobIDs earliest
      | Some until \<Rightarrow>
          scan_outstanding outstanding requiredUntil rest
            (if until < requiredUntil then jobIDs @ [jobID] else jobIDs) (earlier earliest until))"

definition extension_until :: "time \<Rightarrow> time \<Rightarrow> time" where
  "extension_until requiredUntil targetUntil =
     (let targetUntil = (if targetUntil < requiredUntil then requiredUntil else targetUntil)
      in truncate_ms targetUntil + millisecond)"

definition extension_failed :: "error \<Rightarrow> error" where
  "extension_failed err =
     the (errors_Join [Some (Sentinel ErrLeaseLost), Some (ErrWrap ''extend reservation batch leases: %w'' [err])])"

definition extend_ledger :: "JobID list \<Rightarrow> time \<Rightarrow> manager \<Rightarrow> manager" where
  "extend_ledger jobIDs until m =
     recomputeEarliestLocked
       (m\<lparr>bm_outstanding := fold (\<lambda>jobID. AList.update jobID until) jobIDs (bm_outstanding m)\<rparr>)"

text \<open>The rest of \<open>ensureLeasesLocked\<close>, from the repository call on. The extension has to answer before
  the earliest deadline, which is then \<open>bm_earliestUntil\<close>.\<close>

definition extend_short ::
  "'w runtime \<Rightarrow> 'w JobsRepository \<Rightarrow> ctx \<Rightarrow> time \<Rightarrow> time \<Rightarrow> JobID list \<Rightarrow> manager \<Rightarrow> 'w \<Rightarrow>
   error option \<times> manager \<times> 'w" where
  "extend_short rt repo c now until jobIDs m w =
     (let extendCtx = WithDeadline c (bm_earliestUntil m)
      in case ExtendJobLeases repo extendCtx jobIDs (bm_leaseToken m) now until w of
           (Inl err, w) \<Rightarrow>
             (case failLeaseLocked (extension_failed err) m of (e, m) \<Rightarrow> (e, m, w))
         | (Inr affected, w) \<Rightarrow>
      (case batch_Cause rt extendCtx m w of
         (Some err, m, w) \<Rightarrow>
           (case failLeaseLocked (extension_failed err) m of (e, m) \<Rightarrow> (e, m, w))
       | (None, m, w) \<Rightarrow>
      if affected \<noteq> int (length jobIDs)
      then (case failLeaseLocked (ErrWrap ''%w: extended %d of %d reservation batch leases''
              [Sentinel ErrLeaseLost]) m of (e, m) \<Rightarrow> (e, m, w))
      else
        (let (now', w) = time_Now rt w
         in case checkLeasesLocked now' (extend_ledger jobIDs until m) of (e, m) \<Rightarrow> (e, m, w))))"

definition ensureLeasesLocked ::
  "'w runtime \<Rightarrow> 'w JobsRepository \<Rightarrow> ctx \<Rightarrow> time \<Rightarrow> time \<Rightarrow> manager \<Rightarrow> 'w \<Rightarrow> error option \<times> manager \<times> 'w" where
  "ensureLeasesLocked rt repo c requiredUntil targetUntil m w =
     (let (now, w) = time_Now rt w
      in case checkLeasesLocked now m of
           (Some err, m) \<Rightarrow> (Some err, m, w)
         | (None, m) \<Rightarrow>
      if \<not> bm_earliestUntil m < requiredUntil then (None, m, w)
      else
        (let (jobIDs, earliest) = scan_outstanding (bm_outstanding m) requiredUntil (bm_orderedIDs m) [] zero_time;
             m = m\<lparr>bm_earliestUntil := earliest\<rparr>
         in if jobIDs = [] then (None, m, w)
            else extend_short rt repo c now (extension_until requiredUntil targetUntil) jobIDs m w))"

section \<open>The heartbeat\<close>

definition extend ::
  "'w runtime \<Rightarrow> 'w JobsRepository \<Rightarrow> ctx \<Rightarrow> manager \<Rightarrow> 'w \<Rightarrow> error option \<times> manager \<times> 'w" where
  "extend rt repo c m w =
     (let (now, w) = time_Now rt w; target = now + bm_reserveFor m
      in ensureLeasesLocked rt repo c target target m w)"

text \<open>The loop of \<open>run\<close> for the ticks the scheduler grants; an error ends the goroutine.\<close>

fun run_ticks ::
  "'w runtime \<Rightarrow> 'w JobsRepository \<Rightarrow> nat \<Rightarrow> manager \<Rightarrow> 'w \<Rightarrow> manager \<times> 'w" where
  "run_ticks rt repo 0 m w = (m, w)"
| "run_ticks rt repo (Suc n) m w =
     (if \<not> bm_running m then (m, w)
      else case extend rt repo HeartbeatCtx m w of
             (Some _, m, w) \<Rightarrow> (m\<lparr>bm_running := False\<rparr>, w)
           | (None, m, w) \<Rightarrow> run_ticks rt repo n m w)"

text \<open>What may happen while a goroutine waits for the lock or runs outside it.\<close>

definition preempt :: "'w runtime \<Rightarrow> 'w JobsRepository \<Rightarrow> manager \<Rightarrow> 'w \<Rightarrow> manager \<times> 'w" where
  "preempt rt repo m w = (let (n, w) = heartbeat_ticks rt w in run_ticks rt repo n m w)"

definition LockContext ::
  "'w runtime \<Rightarrow> 'w JobsRepository \<Rightarrow> ctx \<Rightarrow> manager \<Rightarrow> 'w \<Rightarrow> error option \<times> manager \<times> 'w" where
  "LockContext rt repo c m w = (let (m, w) = preempt rt repo m w in batch_Cause rt c m w)"

section \<open>Methods\<close>

definition admit ::
  "'w runtime \<Rightarrow> 'w JobsRepository \<Rightarrow> ctx \<Rightarrow> manager \<Rightarrow> 'w \<Rightarrow> error option \<times> manager \<times> 'w" where
  "admit rt repo c m w =
     (let (m, w) = preempt rt repo m w
      in case batchStartError rt c m w of
           (Some err, m, w) \<Rightarrow> (Some err, m, w)
         | (None, m, w) \<Rightarrow>
      if bm_outstanding m = [] then (Some (Sentinel ErrLeaseLost), m, w)
      else
        (let (now, w) = time_Now rt w
         in case checkLeasesLocked now m of
              (Some err, m) \<Rightarrow> (Some err, m, w)
            | (None, m) \<Rightarrow>
         (case (if bm_earliestUntil m < now + go_div (bm_reserveFor m) 3
                then ensureLeasesLocked rt repo c (now + bm_reserveFor m) (now + bm_reserveFor m) m w
                else (None, m, w)) of
            (Some err, m, w) \<Rightarrow> (Some err, m, w)
          | (None, m, w) \<Rightarrow> batchStartError rt c m w)))"

definition delete_outstanding :: "JobID \<Rightarrow> manager \<Rightarrow> manager" where
  "delete_outstanding jobID m =
     (let m = m\<lparr>bm_outstanding := AList.delete jobID (bm_outstanding m)\<rparr>
      in if bm_outstanding m = [] then m\<lparr>bm_earliestUntil := zero_time\<rparr> else m)"

definition clear_outstanding :: "manager \<Rightarrow> manager" where
  "clear_outstanding m = m\<lparr>bm_outstanding := [], bm_earliestUntil := zero_time\<rparr>"

text \<open>The work of a finalization also changes the state \<open>'s\<close> of the service.\<close>

definition finalize ::
  "'w runtime \<Rightarrow> 'w JobsRepository \<Rightarrow> ctx \<Rightarrow> JobID \<Rightarrow> (ctx \<Rightarrow> 's \<Rightarrow> 'w \<Rightarrow> error option \<times> 's \<times> 'w) \<Rightarrow>
   manager \<Rightarrow> 's \<Rightarrow> 'w \<Rightarrow> error option \<times> manager \<times> 's \<times> 'w" where
  "finalize rt repo c jobID work m s w =
     (let (t, w) = time_Now rt w;
          deadline = t + leaseFinalizationTimeout;
          finalizeCtx = WithDeadline (WithoutCancel c) deadline
      in case LockContext rt repo finalizeCtx m w of
           (Some err, m, w) \<Rightarrow> (Some err, cancelBatch err m, s, w)
         | (None, m, w) \<Rightarrow>
      if map_of (bm_outstanding m) jobID = None then (Some (Sentinel ErrLeaseLost), m, s, w)
      else
        (let requiredUntil = deadline + batchFinalizationMargin;
             targetUntil = requiredUntil + bm_reserveFor m
         in case ensureLeasesLocked rt repo finalizeCtx requiredUntil targetUntil m w of
              (Some err, m, w) \<Rightarrow> (Some err, m, s, w)
            | (None, m, w) \<Rightarrow>
         (case batch_Cause rt finalizeCtx m w of
            (Some err, m, w) \<Rightarrow> (Some err, m, s, w)
          | (None, m, w) \<Rightarrow>
         (case work finalizeCtx s w of
            (Some err, s, w) \<Rightarrow> (Some err, m, s, w)
          | (None, s, w) \<Rightarrow> (None, delete_outstanding jobID m, s, w)))))"

text \<open>The loop of \<open>add\<close>: jobs noted before a bad one stay in the ledger.\<close>

fun add_loop :: "'w runtime \<Rightarrow> Job list \<Rightarrow> manager \<Rightarrow> 'w \<Rightarrow> error option \<times> manager \<times> 'w" where
  "add_loop rt [] m w = (None, m, w)"
| "add_loop rt (job # jobs) m w =
     (let (now, w) = time_Now rt w
      in case validateClaimedJobLease job (bm_leaseToken m) now of
           Some err \<Rightarrow> (Some err, m, w)
         | None \<Rightarrow>
             if map_of (bm_outstanding m) (job_ID job) \<noteq> None
             then (Some (ErrWrap ''%w: duplicate claimed job %s'' [Sentinel ErrLeaseLost]), m, w)
             else add_loop rt jobs (note_lease job m) w)"

definition add_jobs ::
  "'w runtime \<Rightarrow> 'w JobsRepository \<Rightarrow> Job list \<Rightarrow> manager \<Rightarrow> 'w \<Rightarrow> error option \<times> manager \<times> 'w" where
  "add_jobs rt repo jobs m w = (let (m, w) = preempt rt repo m w in add_loop rt jobs m w)"

definition finalizeAll ::
  "'w runtime \<Rightarrow> 'w JobsRepository \<Rightarrow> ctx \<Rightarrow> time \<Rightarrow> ('s \<Rightarrow> 'w \<Rightarrow> error option \<times> 's \<times> 'w) \<Rightarrow>
   manager \<Rightarrow> 's \<Rightarrow> 'w \<Rightarrow> error option \<times> manager \<times> 's \<times> 'w" where
  "finalizeAll rt repo c leaseUntil work m s w =
     (case LockContext rt repo c m w of
        (Some err, m, w) \<Rightarrow> (Some err, cancelBatch err m, s, w)
      | (None, m, w) \<Rightarrow>
      if bm_outstanding m = [] then (Some (Sentinel ErrLeaseLost), m, s, w)
      else case ensureLeasesLocked rt repo c leaseUntil leaseUntil m w of
             (Some err, m, w) \<Rightarrow> (Some err, m, s, w)
           | (None, m, w) \<Rightarrow>
      (case batch_Cause rt c m w of
         (Some err, m, w) \<Rightarrow> (Some err, m, s, w)
       | (None, m, w) \<Rightarrow>
      (case work s w of
         (Some err, s, w) \<Rightarrow> (Some err, m, s, w)
       | (None, s, w) \<Rightarrow> (None, clear_outstanding m, s, w))))"

definition forget :: "'w runtime \<Rightarrow> 'w JobsRepository \<Rightarrow> JobID \<Rightarrow> manager \<Rightarrow> 'w \<Rightarrow> manager \<times> 'w" where
  "forget rt repo jobID m w = (let (m, w) = preempt rt repo m w in (delete_outstanding jobID m, w))"

definition forgetAll :: "'w runtime \<Rightarrow> 'w JobsRepository \<Rightarrow> manager \<Rightarrow> 'w \<Rightarrow> manager \<times> 'w" where
  "forgetAll rt repo m w = (let (m, w) = preempt rt repo m w in (clear_outstanding m, w))"

definition outstandingIDsLocked :: "manager \<Rightarrow> JobID list" where
  "outstandingIDsLocked m = filter (\<lambda>jobID. map_of (bm_outstanding m) jobID \<noteq> None) (bm_orderedIDs m)"

definition releaseUnstarted ::
  "'w runtime \<Rightarrow> 'w JobsRepository \<Rightarrow> ctx \<Rightarrow> manager \<Rightarrow> 'w \<Rightarrow> error option \<times> manager \<times> 'w" where
  "releaseUnstarted rt repo c m w =
     (let (m, w) = preempt rt repo m w; jobIDs = outstandingIDsLocked m
      in if jobIDs = [] then (None, m, w)
         else
           (let (t, w) = time_Now rt w;
                finalizeCtx = WithDeadline (WithoutCancel c) (t + leaseFinalizationTimeout);
                (now, w) = time_Now rt w
            in case ReleaseUnstartedJobsWithLease repo finalizeCtx jobIDs (bm_leaseToken m) now w of
                 (Inl err, w) \<Rightarrow> (Some (ErrWrap ''release unstarted reservation batch jobs: %w'' [err]), m, w)
               | (Inr affected, w) \<Rightarrow>
                   if affected \<noteq> int (length jobIDs)
                   then (Some (ErrWrap ''%w: released %d of %d unstarted reservation batch jobs''
                          [Sentinel ErrLeaseLost]), m, w)
                   else (None, clear_outstanding m, w)))"

text \<open>\<open>stopAndWait\<close>: the heartbeat may still run while it is being stopped, and not afterwards.\<close>

definition stopAndWait ::
  "'w runtime \<Rightarrow> 'w JobsRepository \<Rightarrow> manager \<Rightarrow> 'w \<Rightarrow> error option \<times> manager \<times> 'w" where
  "stopAndWait rt repo m w =
     (let (m, w) = preempt rt repo m w in (bm_err m, m\<lparr>bm_running := False\<rparr>, w))"

end
