(* ===== verification/Service_State.thy ===== *)
theory Service_State
  imports Service_Options Lease_Manager Disposition
begin

text \<open>
  What the running workers share and report: the pauses and retry streaks of batch capabilities
  (src/outbox/service_execution_batch.go), the outcomes offered to the observer
  (src/outbox/observer.go), and the metadata a handler finds in its context (src/outbox/context.go).
\<close>

section \<open>Observed outcomes\<close>

datatype RuntimeOutcomeKind =
    OutcomeACKConfirmed | OutcomeRetryPersisted | OutcomeDeferPersisted | OutcomeDLQCommitted | OutcomeLeaseLost

record RuntimeOutcome =
  ro_Kind :: RuntimeOutcomeKind
  ro_JobID :: JobID
  ro_Capability :: JobCapability
  ro_Attempt :: int
  ro_AvailableAt :: time
  ro_ObservedAt :: time
  ro_ClaimedJobs :: int

text \<open>\<open>batchPaused\<close> and \<open>batchStreak\<close> are Go maps; a missing key reads as the zero value. \<open>ss_events\<close>
  lists the events offered to the observer's channel, in order; whether the consumer's buffer has
  room for one is not the service's concern.\<close>

record svc_state =
  ss_paused :: "(JobCapability \<times> time) list"
  ss_streak :: "(JobCapability \<times> int) list"
  ss_events :: "RuntimeOutcome list"

definition no_state :: svc_state where
  "no_state = \<lparr>ss_paused = [], ss_streak = [], ss_events = []\<rparr>"

definition emitOutcome :: "'w Options \<Rightarrow> RuntimeOutcome \<Rightarrow> svc_state \<Rightarrow> svc_state" where
  "emitOutcome opts event s =
     (if \<not> o_observer opts then s else s\<lparr>ss_events := ss_events s @ [event]\<rparr>)"

definition observeJobOutcome ::
  "'w runtime \<Rightarrow> 'w Options \<Rightarrow> Job \<Rightarrow> RuntimeOutcomeKind \<Rightarrow> time \<Rightarrow> svc_state \<Rightarrow> 'w \<Rightarrow> svc_state \<times> 'w" where
  "observeJobOutcome rt opts job kind availableAt s w =
     (if \<not> o_observer opts then (s, w)
      else if kind = OutcomeDLQCommitted \<and> \<not> o_atomicDLQ opts then (s, w)
      else let (now, w) = time_Now rt w
           in (emitOutcome opts
                 \<lparr>ro_Kind = kind, ro_JobID = job_ID job, ro_Capability = job_capability job,
                  ro_Attempt = job_Attempts job, ro_AvailableAt = availableAt, ro_ObservedAt = now,
                  ro_ClaimedJobs = 0\<rparr> s, w))"

definition observeLeaseLoss ::
  "'w runtime \<Rightarrow> 'w Options \<Rightarrow> error option \<Rightarrow> nat \<Rightarrow> svc_state \<Rightarrow> 'w \<Rightarrow> svc_state \<times> 'w" where
  "observeLeaseLoss rt opts err claimedJobs s w =
     (if \<not> o_observer opts \<or> \<not> errors_Is err ErrLeaseLost then (s, w)
      else let (now, w) = time_Now rt w
           in (emitOutcome opts
                 \<lparr>ro_Kind = OutcomeLeaseLost, ro_JobID = JobIDNil,
                  ro_Capability = \<lparr>cap_Name = [], cap_SchemaVersion = 0\<rparr>, ro_Attempt = 0,
                  ro_AvailableAt = zero_time, ro_ObservedAt = now, ro_ClaimedJobs = int claimedJobs\<rparr> s, w))"

text \<open>The jobs of a batch by identifier; a later duplicate overwrites an earlier one.\<close>

definition jobs_by_ID :: "Job list \<Rightarrow> JobID \<Rightarrow> Job option" where
  "jobs_by_ID jobs = map_of (rev (map (\<lambda>job. (job_ID job, job)) jobs))"

fun outcome_event :: "BatchJobOutcome \<Rightarrow> (RuntimeOutcomeKind \<times> time) option" where
  "outcome_event outcome =
     (case bo_Kind outcome of
        BatchJobOutcomeSuccess \<Rightarrow> Some (OutcomeACKConfirmed, zero_time)
      | BatchJobOutcomeRetry \<Rightarrow> Some (OutcomeRetryPersisted, bo_AvailableAt outcome)
      | BatchJobOutcomeDefer \<Rightarrow> Some (OutcomeDeferPersisted, bo_AvailableAt outcome)
      | BatchJobOutcomeDLQ \<Rightarrow> Some (OutcomeDLQCommitted, zero_time)
      | BatchJobOutcomeUnknown _ \<Rightarrow> None)"

fun observe_outcomes ::
  "'w runtime \<Rightarrow> 'w Options \<Rightarrow> Job list \<Rightarrow> BatchJobOutcome list \<Rightarrow> svc_state \<Rightarrow> 'w \<Rightarrow> svc_state \<times> 'w" where
  "observe_outcomes rt opts jobs [] s w = (s, w)"
| "observe_outcomes rt opts jobs (outcome # outcomes) s w =
     (case jobs_by_ID jobs (bo_JobID outcome) of
        None \<Rightarrow> observe_outcomes rt opts jobs outcomes s w
      | Some job \<Rightarrow>
          (case outcome_event outcome of
             None \<Rightarrow> observe_outcomes rt opts jobs outcomes s w
           | Some (kind, availableAt) \<Rightarrow>
               (let (s, w) = observeJobOutcome rt opts job kind availableAt s w
                in observe_outcomes rt opts jobs outcomes s w)))"

definition observeBatchOutcomes ::
  "'w runtime \<Rightarrow> 'w Options \<Rightarrow> Job list \<Rightarrow> BatchJobOutcome list \<Rightarrow> svc_state \<Rightarrow> 'w \<Rightarrow> svc_state \<times> 'w" where
  "observeBatchOutcomes rt opts jobs outcomes s w =
     (if \<not> o_observer opts then (s, w) else observe_outcomes rt opts jobs outcomes s w)"

section \<open>Pauses and retry streaks\<close>

definition paused_until :: "JobCapability \<Rightarrow> svc_state \<Rightarrow> time" where
  "paused_until capability s = (case map_of (ss_paused s) capability of Some t \<Rightarrow> t | None \<Rightarrow> zero_time)"

definition streak_of :: "JobCapability \<Rightarrow> svc_state \<Rightarrow> int" where
  "streak_of capability s = (case map_of (ss_streak s) capability of Some n \<Rightarrow> n | None \<Rightarrow> 0)"

definition resetBatchRetryStreak :: "JobCapability \<Rightarrow> svc_state \<Rightarrow> svc_state" where
  "resetBatchRetryStreak capability s = s\<lparr>ss_streak := AList.delete capability (ss_streak s)\<rparr>"

definition pauseBatchCapability :: "JobCapability \<Rightarrow> time \<Rightarrow> svc_state \<Rightarrow> svc_state" where
  "pauseBatchCapability capability until s =
     (if until > paused_until capability s
      then s\<lparr>ss_paused := AList.update capability until (ss_paused s)\<rparr> else s)"

definition batchCapabilityPaused :: "JobCapability \<Rightarrow> time \<Rightarrow> svc_state \<Rightarrow> bool \<times> svc_state" where
  "batchCapabilityPaused capability now s =
     (let until = paused_until capability s
      in if time_IsZero until \<or> \<not> until > now
         then (False, s\<lparr>ss_paused := AList.delete capability (ss_paused s)\<rparr>)
         else (True, s))"

definition topLevelBatchRetryTime ::
  "'w runtime \<Rightarrow> JobCapability \<Rightarrow> error option \<Rightarrow> svc_state \<Rightarrow> 'w \<Rightarrow> time \<times> svc_state \<times> 'w" where
  "topLevelBatchRetryTime rt capability err s w =
     (let (now, w) = time_Now rt w
      in case DeferTime err of
           Some deferAt \<Rightarrow>
             (let deferAt = (if deferAt < now then now else deferAt)
              in (deferAt, pauseBatchCapability capability deferAt s, w))
         | None \<Rightarrow>
      (case RetryTime err of
         Some retryAt \<Rightarrow>
           (let retryAt = (if retryAt < now then now else retryAt)
            in (retryAt, pauseBatchCapability capability retryAt s, w))
       | None \<Rightarrow>
           (let streak = streak_of capability s + 1;
                s = s\<lparr>ss_streak := AList.update capability streak (ss_streak s)\<rparr>;
                availableAt = now + batchAttemptBackoff streak
            in (availableAt,
                if availableAt > paused_until capability s
                then s\<lparr>ss_paused := AList.update capability availableAt (ss_paused s)\<rparr> else s, w))))"

section \<open>Metadata of the running attempt\<close>

record JobMetadata =
  md_ID :: JobID
  md_Attempt :: int

definition withJobMetadata :: "ctx \<Rightarrow> Job \<Rightarrow> ctx" where
  "withJobMetadata c job = WithJobMetadata c (uuid_of_JobID (job_ID job)) (job_Attempts job)"

text \<open>\<open>ctx.Value\<close>: the innermost value of the key.\<close>

fun metadata_Value :: "ctx \<Rightarrow> JobMetadata option" where
  "metadata_Value (WithJobMetadata c uuid attempt) = Some \<lparr>md_ID = JobID uuid, md_Attempt = attempt\<rparr>"
| "metadata_Value (WithDeadline c t) = metadata_Value c"
| "metadata_Value (WithoutCancel c) = metadata_Value c"
| "metadata_Value _ = None"

definition JobMetadataFromContext :: "ctx option \<Rightarrow> JobMetadata option" where
  "JobMetadataFromContext c =
     (case c of
        None \<Rightarrow> None
      | Some c \<Rightarrow>
          (case metadata_Value c of
             None \<Rightarrow> None
           | Some metadata \<Rightarrow>
               if md_ID metadata = JobIDNil \<or> md_Attempt metadata \<le> 0 then None else Some metadata))"

definition JobIDFromContext :: "ctx option \<Rightarrow> JobID" where
  "JobIDFromContext c =
     (case JobMetadataFromContext c of Some metadata \<Rightarrow> md_ID metadata | None \<Rightarrow> JobIDNil)"

section \<open>Lemmas\<close>

lemma paused_until_pause:
  "paused_until c' (pauseBatchCapability c until s) =
     (if c' = c then max (paused_until c s) until else paused_until c' s)"
  by (auto simp: pauseBatchCapability_def paused_until_def update_conv')

lemma batchCapabilityPaused_iff:
  assumes "zero_time \<le> now"
  shows "fst (batchCapabilityPaused c now s) \<longleftrightarrow> now < paused_until c s"
  using assms by (auto simp: batchCapabilityPaused_def Let_def time_IsZero_def)

lemma batchCapabilityPaused_keeps:
  "c' \<noteq> c \<or> fst (batchCapabilityPaused c now s) \<Longrightarrow>
   paused_until c' (snd (batchCapabilityPaused c now s)) = paused_until c' s"
  by (auto simp: batchCapabilityPaused_def paused_until_def Let_def delete_conv' split: if_splits)

lemma observeJobOutcome_state:
  "observeJobOutcome rt opts job kind at s w = (s', w') \<Longrightarrow>
   ss_paused s' = ss_paused s \<and> ss_streak s' = ss_streak s"
  by (auto simp: observeJobOutcome_def emitOutcome_def split: if_splits prod.splits)

text \<open>What a handler reads from the context it is given is what the service attached, through any
  deadline derived in between.\<close>

lemma metadata_roundtrip:
  assumes "job_ID job \<noteq> JobIDNil" "0 < job_Attempts job"
  shows "JobMetadataFromContext (Some (WithDeadline (withJobMetadata c job) t)) =
         Some \<lparr>md_ID = job_ID job, md_Attempt = job_Attempts job\<rparr>"
  using assms by (cases "job_ID job") (simp add: JobMetadataFromContext_def withJobMetadata_def)

end
