(* ===== verification/Service_Claim.thy ===== *)
theory Service_Claim
  imports Service_State
begin

text \<open>
  Claiming under the drain boundary and giving back what a cancelled claim reserved,
  src/outbox/service_claim.go and \<open>releaseClaimedBatchTail\<close> of src/outbox/service_execution_batch.go.
  A claim runs either on the context of the worker or on that of a batch whose lease ledger is alive;
  \<open>cause\<close> asks for the cause of the claim's context in either case, and \<open>'m\<close> is what it may change.
\<close>

type_synonym ('m, 'w) asks = "ctx \<Rightarrow> 'm \<Rightarrow> 'w \<Rightarrow> error option \<times> 'm \<times> 'w"

text \<open>Outside a batch nothing but the world is asked.\<close>

definition run_Cause :: "'w runtime \<Rightarrow> (unit, 'w) asks" where
  "run_Cause rt c m w = (case context_Cause rt c w of (err, w) \<Rightarrow> (err, m, w))"

definition releaseClaimedBatchTail ::
  "'w runtime \<Rightarrow> 'w JobsRepository \<Rightarrow> ctx \<Rightarrow> LeaseToken \<Rightarrow> Job list \<Rightarrow> 'w \<Rightarrow> error option \<times> 'w" where
  "releaseClaimedBatchTail rt repo c token jobs w =
     (if jobs = [] then (None, w)
      else
        (let ids = map job_ID jobs;
             (t, w) = time_Now rt w;
             finalizeCtx = WithDeadline (WithoutCancel c) (t + leaseFinalizationTimeout);
             (now, w) = time_Now rt w
         in case ReleaseUnstartedJobsWithLease repo finalizeCtx ids token now w of
              (Inl err, w) \<Rightarrow> (Some (ErrWrap ''release unstarted claimed jobs: %w'' [err]), w)
            | (Inr affected, w) \<Rightarrow>
                if affected \<noteq> int (length ids)
                then (Some (ErrWrap ''%w: released %d of %d unstarted claimed jobs'' [Sentinel ErrLeaseLost]), w)
                else (None, w)))"

text \<open>The loop of \<open>releaseCancelledClaim\<close>: the first copy of every job that is leased to the token.\<close>

fun confirmed_jobs :: "LeaseToken \<Rightarrow> time \<Rightarrow> JobID set \<Rightarrow> Job list \<Rightarrow> Job list" where
  "confirmed_jobs token now seen [] = []"
| "confirmed_jobs token now seen (job # jobs) =
     (if validateClaimedJobLease job token now \<noteq> None then confirmed_jobs token now seen jobs
      else if job_ID job \<in> seen then confirmed_jobs token now seen jobs
      else job # confirmed_jobs token now (insert (job_ID job) seen) jobs)"

definition releaseCancelledClaim ::
  "'w runtime \<Rightarrow> 'w JobsRepository \<Rightarrow> ctx \<Rightarrow> LeaseToken \<Rightarrow> Job list \<Rightarrow> 'w \<Rightarrow> error option \<times> 'w" where
  "releaseCancelledClaim rt repo c token jobs w =
     (let (now, w) = time_Now rt w
      in releaseClaimedBatchTail rt repo c token (confirmed_jobs token now {} jobs) w)"

definition claimJobsWithLease ::
  "'w runtime \<Rightarrow> 'w JobsRepository \<Rightarrow> duration \<Rightarrow> ('m, 'w) asks \<Rightarrow> ctx \<Rightarrow> LeaseToken \<Rightarrow>
   (ctx \<Rightarrow> time \<Rightarrow> time \<Rightarrow> 'w \<Rightarrow> (error + Job list) \<times> 'w) \<Rightarrow> 'm \<Rightarrow> 'w \<Rightarrow> (error + Job list) \<times> 'm \<times> 'w" where
  "claimJobsWithLease rt repo reserveFor cause c token claim m w =
     (case drain_closed rt w of
        (True, w) \<Rightarrow> (Inl (Sentinel ErrServiceDraining), m, w)
      | (False, w) \<Rightarrow>
     (let (now, w) = time_Now rt w;
          until = now + reserveFor;
          claimCtx = WithDeadline c until;
          (claimed, w) = claim claimCtx now until w;
          (claimCause, m, w) = cause claimCtx m w
      in case claimed of
           Inl claimErr \<Rightarrow> (Inl claimErr, m, w)
         | Inr jobs \<Rightarrow>
             (case claimCause of
                None \<Rightarrow> (Inr jobs, m, w)
              | Some claimCause \<Rightarrow>
                  (case releaseCancelledClaim rt repo c token jobs w of
                     (Some err, w) \<Rightarrow>
                       (Inl (the (errors_Join
                          [Some claimCause, Some (Sentinel ErrCancelledClaimCleanup), Some err])), m, w)
                   | (None, w) \<Rightarrow> (Inl claimCause, m, w)))))"

section \<open>Lemmas\<close>

lemma confirmed_jobs_iff:
  "job \<in> set (confirmed_jobs token now seen jobs) \<Longrightarrow>
     job \<in> set jobs \<and> validateClaimedJobLease job token now = None \<and> job_ID job \<notin> seen"
  by (induction token now seen jobs rule: confirmed_jobs.induct) (auto split: if_splits)

lemma confirmed_jobs_ids:
  "job_ID ` set (confirmed_jobs token now seen jobs) =
     job_ID ` {job \<in> set jobs. validateClaimedJobLease job token now = None} - seen"
  by (induction token now seen jobs rule: confirmed_jobs.induct) auto

lemma confirmed_jobs_distinct: "distinct (map job_ID (confirmed_jobs token now seen jobs))"
  by (induction token now seen jobs rule: confirmed_jobs.induct) (auto simp: confirmed_jobs_ids)

text \<open>The four ways a claim ends.\<close>

lemma claimJobsWithLease_cases:
  assumes "claimJobsWithLease rt repo reserveFor cause c token claim m w = (r, m', w')"
  obtains (draining) "fst (drain_closed rt w)" "r = Inl (Sentinel ErrServiceDraining)" "m' = m"
      "w' = snd (drain_closed rt w)"
  | (failed) w1 now w2 err w3 where "drain_closed rt w = (False, w1)" "time_Now rt w1 = (now, w2)"
      "claim (WithDeadline c (now + reserveFor)) now (now + reserveFor) w2 = (Inl err, w3)" "r = Inl err"
  | (cancelled) w1 now w2 jobs w3 e w4 x w5 where "drain_closed rt w = (False, w1)" "time_Now rt w1 = (now, w2)"
      "claim (WithDeadline c (now + reserveFor)) now (now + reserveFor) w2 = (Inr jobs, w3)"
      "cause (WithDeadline c (now + reserveFor)) m w3 = (Some e, m', w4)"
      "releaseCancelledClaim rt repo c token jobs w4 = (x, w')"
      "r = Inl (case x of None \<Rightarrow> e | Some err \<Rightarrow> ErrJoin [e, Sentinel ErrCancelledClaimCleanup, err])"
  | (claimed) w1 now w2 jobs w3 where "drain_closed rt w = (False, w1)" "time_Now rt w1 = (now, w2)"
      "claim (WithDeadline c (now + reserveFor)) now (now + reserveFor) w2 = (Inr jobs, w3)"
      "cause (WithDeadline c (now + reserveFor)) m w3 = (None, m', w')" "r = Inr jobs"
  using assms
  by (auto simp: claimJobsWithLease_def Let_def errors_Join_def map_filter_simps
      split: prod.splits bool.splits sum.splits option.splits)

end
