(* ===== verification/Service_Single.thy ===== *)
theory Service_Single
  imports Service_Claim
begin

text \<open>
  Processing of a reservation batch by single handlers, the methods of \<open>Service\<close> in
  src/outbox/service_batch.go and \<open>executeJob\<close>, \<open>handleJob\<close> of src/outbox/service.go. A method takes
  the lease ledger of the batch, the shared state of the service and the world, and returns them.
  Reading the cause of the batch context outside the ledger's lock is \<^const>\<open>LockContext\<close>: the
  heartbeat may have run meanwhile. A handler ends by returning or by panicking.
\<close>

section \<open>Repositories of a service\<close>

definition jobsRepo :: "'w Service \<Rightarrow> 'w JobsRepository" where
  "jobsRepo sv = the (o_jobsRepo (sv_Options sv))"

definition jobsFailedRepo :: "'w Service \<Rightarrow> 'w CreateFailedJobVersioned" where
  "jobsFailedRepo sv = the (o_jobsFailedRepo (sv_Options sv))"

definition transactor_RunInTx :: "'w Service \<Rightarrow> 'w RunInTx" where
  "transactor_RunInTx sv = tr_RunInTx (the (o_transactor (sv_Options sv)))"

section \<open>Claiming\<close>

fun eligible_capabilities :: "time \<Rightarrow> JobCapability list \<Rightarrow> svc_state \<Rightarrow> JobCapability list \<times> svc_state" where
  "eligible_capabilities now [] s = ([], s)"
| "eligible_capabilities now (capability # capabilities) s =
     (let (paused, s) = batchCapabilityPaused capability now s;
          (eligible, s) = eligible_capabilities now capabilities s
      in (if paused then eligible else capability # eligible, s))"

fun validate_claims :: "'w runtime \<Rightarrow> LeaseToken \<Rightarrow> Job list \<Rightarrow> 'w \<Rightarrow> error option \<times> 'w" where
  "validate_claims rt leaseToken [] w = (None, w)"
| "validate_claims rt leaseToken (job # jobs) w =
     (let (now, w) = time_Now rt w
      in case validateClaimedJobLease job leaseToken now of
           Some err \<Rightarrow> (Some err, w)
         | None \<Rightarrow> validate_claims rt leaseToken jobs w)"

definition claimBatch ::
  "'w runtime \<Rightarrow> 'w Service \<Rightarrow> ctx \<Rightarrow> JobCapability list \<Rightarrow> svc_state \<Rightarrow> 'w \<Rightarrow>
   (error + Job list \<times> LeaseToken) \<times> svc_state \<times> 'w" where
  "claimBatch rt sv c capabilities s w =
     (if capabilities = [] then (Inl (Sentinel ErrNoJobs), s, w)
      else
        (let (now, w) = time_Now rt w;
             (eligible, s) = eligible_capabilities now capabilities s
         in if eligible = [] then (Inl (Sentinel ErrNoJobs), s, w)
            else
              (let (uuid, w) = uuid_New rt w; leaseToken = LeaseToken uuid;
                   batchSize = o_reservationBatchSize (sv_Options sv)
               in case claimJobsWithLease rt (jobsRepo sv) (o_reserveFor (sv_Options sv)) (run_Cause rt) c leaseToken
                      (\<lambda>claimCtx now until. FindAndReserveJobsForCapabilities (jobsRepo sv) claimCtx now until
                         leaseToken eligible batchSize) () w of
                    (Inl err, _, w) \<Rightarrow> (Inl (ErrWrap ''find and reserve job batch: %w'' [err]), s, w)
                  | (Inr jobs, _, w) \<Rightarrow>
                      if jobs = [] then (Inl (Sentinel ErrEmptyReservationBatch), s, w)
                      else if int (length jobs) > batchSize
                      then (Inl (ErrNew ''reservation batch repository returned %d jobs for limit %d''), s, w)
                      else
                        (case validate_claims rt leaseToken jobs w of
                           (Some err, w) \<Rightarrow> (Inl err, s, w)
                         | (None, w) \<Rightarrow> (Inr (jobs, leaseToken), s, w)))))"

section \<open>Outcomes of one job\<close>

definition deferLeased ::
  "'w runtime \<Rightarrow> 'w Service \<Rightarrow> Job \<Rightarrow> time \<Rightarrow> ctx \<Rightarrow> svc_state \<Rightarrow> 'w \<Rightarrow> error option \<times> svc_state \<times> 'w" where
  "deferLeased rt sv job availableAt c s w =
     (case asDeferJobsRepository (jobsRepo sv) of
        None \<Rightarrow> (Some (Sentinel ErrBatchRepositoryNotConfigured), s, w)
      | Some deferJob \<Rightarrow>
          (let (now, w) = time_Now rt w;
               availableAt = (if availableAt < now then now else availableAt)
           in case deferJob c (job_ID job) (job_LeaseToken job) now availableAt w of
                (Inl err, w) \<Rightarrow> (Some (ErrWrap ''defer leased job: %w'' [err]), s, w)
              | (Inr affected, w) \<Rightarrow>
                  if affected \<noteq> 1 then (Some (Sentinel ErrLeaseLost), s, w)
                  else
                    (let s = pauseBatchCapability
                           \<lparr>cap_Name = job_Name job, cap_SchemaVersion = job_SchemaVersion job\<rparr> availableAt s;
                         (s, w) = observeJobOutcome rt (sv_Options sv) job OutcomeDeferPersisted availableAt s w
                     in (None, s, w))))"

definition ackBatch ::
  "'w runtime \<Rightarrow> 'w Service \<Rightarrow> Job \<Rightarrow> ctx \<Rightarrow> svc_state \<Rightarrow> 'w \<Rightarrow> error option \<times> svc_state \<times> 'w" where
  "ackBatch rt sv job c s w =
     (let (now, w) = time_Now rt w
      in case DeleteJobWithLease (jobsRepo sv) c (job_ID job) (job_LeaseToken job) now w of
           (Inl err, w) \<Rightarrow> (Some (ErrWrap ''delete reservation batch job: %w'' [err]), s, w)
         | (Inr affected, w) \<Rightarrow>
             if affected \<noteq> 1 then (Some (Sentinel ErrLeaseLost), s, w)
             else (let (s, w) = observeJobOutcome rt (sv_Options sv) job OutcomeACKConfirmed zero_time s w
                   in (None, s, w)))"

text \<open>The callback \<open>dlqBatch\<close> runs in a transaction.\<close>

definition dlq_tx :: "'w runtime \<Rightarrow> 'w Service \<Rightarrow> Job \<Rightarrow> string \<Rightarrow> ctx \<Rightarrow> 'w \<Rightarrow> error option \<times> 'w" where
  "dlq_tx rt sv job reason txCtx w =
     (case jobsFailedRepo sv txCtx (job_ID job) (job_Name job) (job_SchemaVersion job) (job_Payload job) reason w of
        (Inl err, w) \<Rightarrow> (Some (ErrWrap ''create versioned failed job: %w'' [err]), w)
      | (Inr _, w) \<Rightarrow>
          (let (now, w) = time_Now rt w
           in case DeleteJobWithLease (jobsRepo sv) txCtx (job_ID job) (job_LeaseToken job) now w of
                (Inl err, w) \<Rightarrow> (Some (ErrWrap ''delete reservation batch job: %w'' [err]), w)
              | (Inr affected, w) \<Rightarrow>
                  if affected \<noteq> 1 then (Some (Sentinel ErrLeaseLost), w) else (None, w)))"

definition dlqBatch ::
  "'w runtime \<Rightarrow> 'w Service \<Rightarrow> Job \<Rightarrow> string \<Rightarrow> ctx \<Rightarrow> svc_state \<Rightarrow> 'w \<Rightarrow> error option \<times> svc_state \<times> 'w" where
  "dlqBatch rt sv job reason c s w =
     (case transactor_RunInTx sv c (dlq_tx rt sv job reason c) w of
        (Some err, w) \<Rightarrow> (Some err, s, w)
      | (None, w) \<Rightarrow>
          (let (s, w) = observeJobOutcome rt (sv_Options sv) job OutcomeDLQCommitted zero_time s w
           in (None, s, w)))"

definition rescheduleLeased ::
  "'w runtime \<Rightarrow> 'w Service \<Rightarrow> Job \<Rightarrow> time \<Rightarrow> ctx \<Rightarrow> svc_state \<Rightarrow> 'w \<Rightarrow> error option \<times> svc_state \<times> 'w" where
  "rescheduleLeased rt sv job availableAt c s w =
     (let (now, w) = time_Now rt w;
          availableAt = (if availableAt < now then now else availableAt)
      in case RescheduleJobWithLease (jobsRepo sv) c (job_ID job) (job_LeaseToken job) now availableAt w of
           (Inl err, w) \<Rightarrow> (Some (ErrWrap ''reschedule job: %w'' [err]), s, w)
         | (Inr affected, w) \<Rightarrow>
             if affected \<noteq> 1 then (Some (Sentinel ErrLeaseLost), s, w)
             else (let (s, w) = observeJobOutcome rt (sv_Options sv) job OutcomeRetryPersisted availableAt s w
                   in (None, s, w)))"

section \<open>Running one job\<close>

definition handleJob :: "'w JobHandler \<Rightarrow> Job \<Rightarrow> ctx \<Rightarrow> 'w \<Rightarrow> error option \<times> 'w" where
  "handleJob j job c w =
     (case h_Handle j (withJobMetadata c job) (job_Payload job) w of
        (Returns err, w) \<Rightarrow> (err, w)
      | (Panics r, w) \<Rightarrow> (Some (ErrNew (''panic in job %q: '' @ r)), w))"

definition executeJob ::
  "'w runtime \<Rightarrow> 'w JobsRepository \<Rightarrow> 'w JobHandler \<Rightarrow> Job \<Rightarrow> ctx \<Rightarrow> manager \<Rightarrow> 'w \<Rightarrow>
   error option \<times> manager \<times> 'w" where
  "executeJob rt repo j job c m w =
     (let (t, w) = time_Now rt w;
          handlerCtx = WithDeadline c (t + h_ExecutionTimeout j);
          (err, w) = handleJob j job handlerCtx w
      in case LockContext rt repo handlerCtx m w of
           (Some cause, m, w) \<Rightarrow> (Some cause, m, w)
         | (None, m, w) \<Rightarrow> (err, m, w))"

text \<open>What \<open>processBatchJob\<close> does after the handler: the first result says that the job was started.\<close>

definition settle_job ::
  "'w runtime \<Rightarrow> 'w Service \<Rightarrow> 'w JobHandler \<Rightarrow> Job \<Rightarrow> error option \<Rightarrow> ctx \<Rightarrow> manager \<Rightarrow> svc_state \<Rightarrow> 'w \<Rightarrow>
   error option \<times> manager \<times> svc_state \<times> 'w" where
  "settle_job rt sv handler job handleErr c m s w =
     (let finish = (\<lambda>work m s w. finalize rt (jobsRepo sv) c (job_ID job) work m s w)
      in case handleErr of
           None \<Rightarrow> finish (ackBatch rt sv job) m s w
         | Some e \<Rightarrow>
             if IsPermanent handleErr
             then finish (dlqBatch rt sv job (''permanent failure: '' @ err_Error rt e)) m s w
             else (case DeferTime handleErr of
                Some availableAt \<Rightarrow> finish (deferLeased rt sv job availableAt) m s w
              | None \<Rightarrow>
             if job_Attempts job \<ge> h_MaxAttempts handler
             then finish (dlqBatch rt sv job (''max attempts exceeded: '' @ err_Error rt e)) m s w
             else if RetryTime handleErr \<noteq> None \<or> o_retryPolicy (sv_Options sv) \<noteq> None
             then (let (now, w) = time_Now rt w
                   in case retryTime (o_retryPolicy (sv_Options sv)) job handleErr now 0 of
                        Inl err \<Rightarrow> (Some err, m, s, w)
                      | Inr availableAt \<Rightarrow> finish (rescheduleLeased rt sv job availableAt) m s w)
             else (let (m, w) = forget rt (jobsRepo sv) (job_ID job) m w in (None, m, s, w))))"

definition processBatchJob ::
  "'w runtime \<Rightarrow> 'w Service \<Rightarrow> Job \<Rightarrow> ctx \<Rightarrow> manager \<Rightarrow> svc_state \<Rightarrow> 'w \<Rightarrow>
   (bool \<times> error option) \<times> manager \<times> svc_state \<times> 'w" where
  "processBatchJob rt sv job c m s w =
     (case map_of (sv_jobs sv) (job_capability job) of
        None \<Rightarrow> ((False, Some (ErrWrap ''%w: %s schema version %d'' [Sentinel ErrUnsupportedClaim])), m, s, w)
      | Some handler \<Rightarrow>
     (case admit rt (jobsRepo sv) c m w of
        (Some err, m, w) \<Rightarrow> ((False, Some err), m, s, w)
      | (None, m, w) \<Rightarrow>
     (case executeJob rt (jobsRepo sv) handler job c m w of
        (handleErr, m, w) \<Rightarrow>
     (case LockContext rt (jobsRepo sv) c m w of
        (Some cause, m, w) \<Rightarrow> ((True, Some cause), m, s, w)
      | (None, m, w) \<Rightarrow>
          (case settle_job rt sv handler job handleErr c m s w of
             (err, m, s, w) \<Rightarrow> ((True, err), m, s, w))))))"

section \<open>Processing a batch\<close>

text \<open>The loop of \<open>findAndProcessBatch\<close>: it stops at the first error.\<close>

fun process_jobs ::
  "'w runtime \<Rightarrow> 'w Service \<Rightarrow> Job list \<Rightarrow> ctx \<Rightarrow> manager \<Rightarrow> svc_state \<Rightarrow> 'w \<Rightarrow>
   error option \<times> manager \<times> svc_state \<times> 'w" where
  "process_jobs rt sv [] c m s w = (None, m, s, w)"
| "process_jobs rt sv (job # jobs) c m s w =
     (case processBatchJob rt sv job c m s w of
        ((started, None), m, s, w) \<Rightarrow> process_jobs rt sv jobs c m s w
      | ((started, Some err), m, s, w) \<Rightarrow>
          (let (m, w) = (if started then forget rt (jobsRepo sv) (job_ID job) m w else (m, w))
           in (Some err, m, s, w)))"

definition batch_error :: "error option \<Rightarrow> error option \<Rightarrow> error option \<Rightarrow> error option" where
  "batch_error processErr heartbeatErr releaseErr =
     (let processErr = (if processErr = None \<and> heartbeatErr \<noteq> None then heartbeatErr else processErr)
      in if errors_Is processErr ErrServiceDraining \<and> releaseErr = None \<and> heartbeatErr = None
         then Some (Sentinel ErrServiceDraining)
         else if processErr = None \<and> releaseErr = None then None
         else errors_Join [processErr, heartbeatErr, releaseErr])"

definition findAndProcessBatch ::
  "'w runtime \<Rightarrow> 'w Service \<Rightarrow> JobCapability list \<Rightarrow> svc_state \<Rightarrow> 'w \<Rightarrow> error option \<times> svc_state \<times> 'w" where
  "findAndProcessBatch rt sv capabilities s w =
     (case claimBatch rt sv RunCtx capabilities s w of
        (Inl err, s, w) \<Rightarrow>
          (let (s, w) = observeLeaseLoss rt (sv_Options sv) (Some err) 0 s w in (Some err, s, w))
      | (Inr (jobs, leaseToken), s, w) \<Rightarrow>
          (let m = newBatchLeaseManager jobs leaseToken (o_reserveFor (sv_Options sv));
               (processErr, m, s, w) = process_jobs rt sv jobs BatchCtx m s w;
               (heartbeatErr, m, w) = stopAndWait rt (jobsRepo sv) m w;
               (releaseErr, m, w) = releaseUnstarted rt (jobsRepo sv) RunCtx m w;
               retErr = batch_error processErr heartbeatErr releaseErr;
               (s, w) = observeLeaseLoss rt (sv_Options sv) retErr (length jobs) s w
           in (retErr, s, w)))"

end
