(* ===== verification/Service_Execution.thy ===== *)
theory Service_Execution
  imports Service_Single
begin

text \<open>
  Execution batches, src/outbox/service_execution_batch.go: claiming for one batch capability,
  collecting more jobs until the batch is full or its fill window ends, running the batch handler,
  and applying the outcomes of all items in one transaction. The collecting loop may run for ever if
  the clock stands still; functions that contain it return \<open>None\<close> then.
\<close>

section \<open>Claiming\<close>

definition batchCollectorClaimLimit :: int where "batchCollectorClaimLimit = 1"
definition batchFillPollInterval :: duration where "batchFillPollInterval = 2 * millisecond"
definition batchFillClaimHeadroom :: duration where "batchFillClaimHeadroom = 5 * millisecond"

definition claimExecutionBatchSingletonWithToken ::
  "'w runtime \<Rightarrow> 'w Service \<Rightarrow> 'w BatchJobsRepository \<Rightarrow> ('m, 'w) asks \<Rightarrow> ctx \<Rightarrow> JobCapability \<Rightarrow> LeaseToken \<Rightarrow>
   'm \<Rightarrow> 'w \<Rightarrow> (error + Job list) \<times> 'm \<times> 'w" where
  "claimExecutionBatchSingletonWithToken rt sv batchRepo cause c capability leaseToken m w =
     (case claimJobsWithLease rt (jobsRepo sv) (o_reserveFor (sv_Options sv)) cause c leaseToken
         (\<lambda>claimCtx now until. FindAndReserveJobsForCapability batchRepo claimCtx now until leaseToken capability
            batchCollectorClaimLimit) m w of
        (Inl err, m, w) \<Rightarrow> (Inl (ErrWrap ''find and reserve execution batch: %w'' [err]), m, w)
      | (Inr jobs, m, w) \<Rightarrow>
          (case validateClaimedExecutionBatch rt jobs capability leaseToken batchCollectorClaimLimit w of
             (Some err, w) \<Rightarrow> (Inl err, m, w)
           | (None, w) \<Rightarrow> (Inr jobs, m, w)))"

definition claimExecutionBatchBoundedWithToken ::
  "'w runtime \<Rightarrow> 'w Service \<Rightarrow>
   (ctx \<Rightarrow> time \<Rightarrow> time \<Rightarrow> LeaseToken \<Rightarrow> JobCapability \<Rightarrow> BatchClaimLimits \<Rightarrow> 'w \<Rightarrow> (error + Job list) \<times> 'w) \<Rightarrow>
   ('m, 'w) asks \<Rightarrow> ctx \<Rightarrow> JobCapability \<Rightarrow> BatchClaimLimits \<Rightarrow> LeaseToken \<Rightarrow> 'm \<Rightarrow> 'w \<Rightarrow>
   (error + Job list) \<times> 'm \<times> 'w" where
  "claimExecutionBatchBoundedWithToken rt sv bounded cause c capability limits leaseToken m w =
     (case claimJobsWithLease rt (jobsRepo sv) (o_reserveFor (sv_Options sv)) cause c leaseToken
         (\<lambda>claimCtx now until. bounded claimCtx now until leaseToken capability limits) m w of
        (Inl err, m, w) \<Rightarrow> (Inl (ErrWrap ''find and reserve execution batch: %w'' [err]), m, w)
      | (Inr jobs, m, w) \<Rightarrow>
          (case validateClaimedExecutionBatch rt jobs capability leaseToken (bl_MaxMessages limits) w of
             (Some err, w) \<Rightarrow> (Inl err, m, w)
           | (None, w) \<Rightarrow>
               (case validateBoundedExecutionBatchPayload jobs (bl_MaxBytes limits) of
                  Some err \<Rightarrow> (Inl err, m, w)
                | None \<Rightarrow> (Inr jobs, m, w))))"

definition claimExecutionBatchForFill ::
  "'w runtime \<Rightarrow> 'w Service \<Rightarrow> 'w BatchJobsRepository \<Rightarrow> ('m, 'w) asks \<Rightarrow> ctx \<Rightarrow> JobCapability \<Rightarrow> LeaseToken \<Rightarrow>
   BatchClaimLimits \<Rightarrow> 'm \<Rightarrow> 'w \<Rightarrow> (error + Job list) \<times> 'm \<times> 'w" where
  "claimExecutionBatchForFill rt sv batchRepo cause c capability leaseToken limits m w =
     (case FindAndReserveJobsForCapabilityBounded batchRepo of
        None \<Rightarrow> claimExecutionBatchSingletonWithToken rt sv batchRepo cause c capability leaseToken m w
      | Some bounded \<Rightarrow>
          claimExecutionBatchBoundedWithToken rt sv bounded cause c capability limits leaseToken m w)"

definition claimInitialExecutionBatch ::
  "'w runtime \<Rightarrow> 'w Service \<Rightarrow> 'w BatchJobsRepository \<Rightarrow> ctx \<Rightarrow> JobCapability \<Rightarrow> BatchConfig \<Rightarrow> 'w \<Rightarrow>
   (error + Job list \<times> LeaseToken) \<times> 'w" where
  "claimInitialExecutionBatch rt sv batchRepo c capability config w =
     (let (uuid, w) = uuid_New rt w; leaseToken = LeaseToken uuid;
          (r, _, w) =
            (case FindAndReserveJobsForCapabilityBounded batchRepo of
               None \<Rightarrow> claimExecutionBatchSingletonWithToken rt sv batchRepo (run_Cause rt) c capability leaseToken () w
             | Some bounded \<Rightarrow>
                 claimExecutionBatchBoundedWithToken rt sv bounded (run_Cause rt) c capability
                   \<lparr>bl_MaxMessages = bc_MaxMessages config, bl_MaxBytes = bc_MaxBytes config\<rparr> leaseToken () w)
      in case r of
           Inl err \<Rightarrow> (Inl err, w)
         | Inr jobs \<Rightarrow> (Inr (jobs, leaseToken), w))"

section \<open>Filling a batch\<close>

text \<open>The three results of \<open>claimExecutionBatchWithinFillWindow\<close>: jobs, the end of the window, an error.\<close>

datatype fill_claim = FillClaimed "Job list" | FillDeadlineReached | FillFailed error

definition claimExecutionBatchWithinFillWindow ::
  "'w runtime \<Rightarrow> 'w Service \<Rightarrow> 'w BatchJobsRepository \<Rightarrow> ctx \<Rightarrow> JobCapability \<Rightarrow> LeaseToken \<Rightarrow> BatchClaimLimits \<Rightarrow>
   time \<Rightarrow> manager \<Rightarrow> 'w \<Rightarrow> fill_claim \<times> manager \<times> 'w" where
  "claimExecutionBatchWithinFillWindow rt sv batchRepo c capability leaseToken limits deadline m w =
     (let (now, w) = time_Now rt w; cause = LockContext rt (jobsRepo sv)
      in if deadline - now \<le> batchFillClaimHeadroom then (FillDeadlineReached, m, w)
         else
           (let claimCtx = WithDeadline c deadline;
                (r, m, w) = claimExecutionBatchForFill rt sv batchRepo cause claimCtx capability leaseToken limits m w;
                (claimCause, m, w) = cause claimCtx m w
            in case r of
                 Inr jobs \<Rightarrow> (FillClaimed jobs, m, w)
               | Inl err \<Rightarrow>
                   if errors_Is (Some err) ErrCancelledClaimCleanup then (FillFailed err, m, w)
                   else (case cause c m w of
                           (Some e, m, w) \<Rightarrow> (FillFailed e, m, w)
                         | (None, m, w) \<Rightarrow>
                             if errors_Is claimCause Context_DeadlineExceeded then (FillDeadlineReached, m, w)
                             else (FillFailed err, m, w))))"

text \<open>How one round of the loop ends: with a final result, or with the jobs collected so far.\<close>

datatype fill_step = FillDone "error option" "Job list" | FillMore "Job list" int

text \<open>The wait after a claim that found no jobs.\<close>

definition fill_wait ::
  "'w runtime \<Rightarrow> 'w Service \<Rightarrow> ctx \<Rightarrow> time \<Rightarrow> Job list \<Rightarrow> int \<Rightarrow> manager \<Rightarrow> 'w \<Rightarrow> fill_step \<times> manager \<times> 'w" where
  "fill_wait rt sv c deadline jobs usedBytes m w =
     (let (now, w) = time_Now rt w; remainingWait = deadline - now
      in if remainingWait \<le> 0 then (FillDone None jobs, m, w)
         else case timer_wait rt c (min remainingWait batchFillPollInterval) w of
                (WokeDone, w) \<Rightarrow>
                  (case LockContext rt (jobsRepo sv) c m w of (cause, m, w) \<Rightarrow> (FillDone cause jobs, m, w))
              | (WokeDrain, w) \<Rightarrow> (FillDone (Some (Sentinel ErrServiceDraining)) jobs, m, w)
              | (WokeTimer, w) \<Rightarrow> (FillMore jobs usedBytes, m, w))"

text \<open>What a round does with the jobs it claimed: keep those that fit, and give the others back.\<close>

definition fill_take ::
  "'w runtime \<Rightarrow> 'w Service \<Rightarrow> ctx \<Rightarrow> BatchConfig \<Rightarrow> Job list \<Rightarrow> Job list \<Rightarrow> int \<Rightarrow> manager \<Rightarrow> 'w \<Rightarrow>
   fill_step \<times> manager \<times> 'w" where
  "fill_take rt sv c config claimed jobs usedBytes m w =
     (let (selected, tail) = selectBatchPayloadLimitWithUsed claimed (bc_MaxBytes config) usedBytes
      in case add_jobs rt (jobsRepo sv) selected m w of
           (Some err, m, w) \<Rightarrow> (FillDone (Some err) jobs, m, w)
         | (None, m, w) \<Rightarrow>
             (let jobs = jobs @ selected
              in case releaseClaimedBatchTail rt (jobsRepo sv) c (bm_leaseToken m) tail w of
                   (Some err, w) \<Rightarrow> (FillDone (Some err) jobs, m, w)
                 | (None, w) \<Rightarrow>
                     if tail \<noteq> [] then (FillDone None jobs, m, w)
                     else (FillMore jobs (usedBytes + sum_list (map payload_len selected)), m, w)))"

definition fill_round ::
  "'w runtime \<Rightarrow> 'w Service \<Rightarrow> 'w BatchJobsRepository \<Rightarrow> ctx \<Rightarrow> JobCapability \<Rightarrow> BatchConfig \<Rightarrow> time \<Rightarrow>
   Job list \<Rightarrow> int \<Rightarrow> manager \<Rightarrow> 'w \<Rightarrow> fill_step \<times> manager \<times> 'w" where
  "fill_round rt sv batchRepo c capability config deadline jobs usedBytes m w =
     (if \<not> (int (length jobs) < bc_MaxMessages config \<and> usedBytes < bc_MaxBytes config)
      then (FillDone None jobs, m, w)
      else
        (let (now, w) = time_Now rt w
         in if deadline - now \<le> 0 then (FillDone None jobs, m, w)
            else case claimExecutionBatchWithinFillWindow rt sv batchRepo c capability (bm_leaseToken m)
                     \<lparr>bl_MaxMessages = bc_MaxMessages config - int (length jobs),
                      bl_MaxBytes = bc_MaxBytes config - usedBytes\<rparr> deadline m w of
                   (FillDeadlineReached, m, w) \<Rightarrow> (FillDone None jobs, m, w)
                 | (FillFailed err, m, w) \<Rightarrow>
                     if errors_Is (Some err) ErrNoJobs then fill_wait rt sv c deadline jobs usedBytes m w
                     else (FillDone (Some (ErrWrap ''fill execution batch: %w'' [err])) jobs, m, w)
                 | (FillClaimed claimed, m, w) \<Rightarrow> fill_take rt sv c config claimed jobs usedBytes m w))"

partial_function (option) fill_loop ::
  "'w runtime \<Rightarrow> 'w Service \<Rightarrow> 'w BatchJobsRepository \<Rightarrow> ctx \<Rightarrow> JobCapability \<Rightarrow> BatchConfig \<Rightarrow> time \<Rightarrow>
   Job list \<Rightarrow> int \<Rightarrow> manager \<Rightarrow> 'w \<Rightarrow> ((error option \<times> Job list) \<times> manager \<times> 'w) option" where
  "fill_loop rt sv batchRepo c capability config deadline jobs usedBytes m w =
     (case fill_round rt sv batchRepo c capability config deadline jobs usedBytes m w of
        (FillDone err jobs, m, w) \<Rightarrow> Some ((err, jobs), m, w)
      | (FillMore jobs usedBytes, m, w) \<Rightarrow>
          fill_loop rt sv batchRepo c capability config deadline jobs usedBytes m w)"

definition fillExecutionBatch ::
  "'w runtime \<Rightarrow> 'w Service \<Rightarrow> 'w BatchJobsRepository \<Rightarrow> ctx \<Rightarrow> JobCapability \<Rightarrow> BatchConfig \<Rightarrow> Job list \<Rightarrow>
   manager \<Rightarrow> 'w \<Rightarrow> ((error option \<times> Job list) \<times> manager \<times> 'w) option" where
  "fillExecutionBatch rt sv batchRepo c capability config initial m w =
     (let usedBytes = sum_list (map payload_len initial)
      in if int (length initial) \<ge> bc_MaxMessages config \<or> usedBytes \<ge> bc_MaxBytes config
         then Some ((None, initial), m, w)
         else let (now, w) = time_Now rt w
              in fill_loop rt sv batchRepo c capability config (now + bc_MaxWait config) initial usedBytes m w)"

section \<open>Running the batch handler\<close>

definition executeBatchHandler ::
  "'w runtime \<Rightarrow> 'w JobsRepository \<Rightarrow> 'w BatchJobHandler \<Rightarrow> BatchJobItem list \<Rightarrow> ctx \<Rightarrow> manager \<Rightarrow> 'w \<Rightarrow>
   (BatchItemResult list \<times> error option) \<times> manager \<times> 'w" where
  "executeBatchHandler rt repo job items c m w =
     (let (t, w) = time_Now rt w;
          handlerCtx = WithDeadline c (t + bh_ExecutionTimeout job)
      in case bh_HandleBatch job handlerCtx items w of
           (Panics recovered, w) \<Rightarrow> (([], Some (HandlerPanicError (bh_Name job) recovered)), m, w)
         | (Returns (result, err), w) \<Rightarrow>
             (case LockContext rt repo handlerCtx m w of
                (Some cause, m, w) \<Rightarrow> (([], Some cause), m, w)
              | (None, m, w) \<Rightarrow> ((result, err), m, w)))"

section \<open>Outcomes of a batch\<close>

fun create_dlq_records ::
  "'w Service \<Rightarrow> ctx \<Rightarrow> Job list \<Rightarrow> BatchJobOutcome list \<Rightarrow> 'w \<Rightarrow> error option \<times> 'w" where
  "create_dlq_records sv c jobs [] w = (None, w)"
| "create_dlq_records sv c jobs (outcome # outcomes) w =
     (if bo_Kind outcome \<noteq> BatchJobOutcomeDLQ then create_dlq_records sv c jobs outcomes w
      else case jobs_by_ID jobs (bo_JobID outcome) of
             None \<Rightarrow> (Some (ErrWrap ''%w: DLQ outcome references unknown job %s'' [Sentinel ErrInvalidBatchResult]), w)
           | Some job \<Rightarrow>
               (case jobsFailedRepo sv c (job_ID job) (job_Name job) (job_SchemaVersion job) (job_Payload job)
                   (bo_Reason outcome) w of
                  (Inl err, w) \<Rightarrow> (Some (ErrWrap ''create versioned failed batch job: %w'' [err]), w)
                | (Inr _, w) \<Rightarrow> create_dlq_records sv c jobs outcomes w))"

definition createExecutionBatchDLQRecords ::
  "'w Service \<Rightarrow> ctx \<Rightarrow> Job list \<Rightarrow> BatchJobOutcome list \<Rightarrow> 'w \<Rightarrow> error option \<times> 'w" where
  "createExecutionBatchDLQRecords sv c jobs outcomes w = create_dlq_records sv c jobs outcomes w"

text \<open>The callback of the finalizing transaction.\<close>

definition execution_outcomes_tx ::
  "'w runtime \<Rightarrow> 'w Service \<Rightarrow> 'w BatchJobsRepository \<Rightarrow> LeaseToken \<Rightarrow> Job list \<Rightarrow> BatchJobOutcome list \<Rightarrow> ctx \<Rightarrow>
   'w \<Rightarrow> error option \<times> 'w" where
  "execution_outcomes_tx rt sv batchRepo leaseToken jobs outcomes txCtx w =
     (case createExecutionBatchDLQRecords sv txCtx jobs outcomes w of
        (Some err, w) \<Rightarrow> (Some err, w)
      | (None, w) \<Rightarrow>
          (let (now, w) = time_Now rt w
           in case ApplyBatchJobOutcomes batchRepo txCtx leaseToken now outcomes w of
                (Inl err, w) \<Rightarrow> (Some (ErrWrap ''apply batch job outcomes: %w'' [err]), w)
              | (Inr affected, w) \<Rightarrow>
                  if affected \<noteq> int (length outcomes)
                  then (Some (ErrWrap ''%w: finalized %d of %d batch jobs'' [Sentinel ErrLeaseLost]), w)
                  else (None, w)))"

definition applyExecutionBatchOutcomes ::
  "'w runtime \<Rightarrow> 'w Service \<Rightarrow> 'w BatchJobsRepository \<Rightarrow> Job list \<Rightarrow> BatchJobOutcome list \<Rightarrow> ctx \<Rightarrow> manager \<Rightarrow>
   svc_state \<Rightarrow> 'w \<Rightarrow> error option \<times> manager \<times> svc_state \<times> 'w" where
  "applyExecutionBatchOutcomes rt sv batchRepo jobs outcomes c m s w =
     (let finalizationTimeout = executionBatchFinalizationTimeout outcomes;
          (t, w) = time_Now rt w;
          deadline = t + finalizationTimeout;
          finalizeCtx = WithDeadline (WithoutCancel c) deadline
      in case finalizeAll rt (jobsRepo sv) finalizeCtx (deadline + batchFinalizationMargin)
             (\<lambda>s w. case transactor_RunInTx sv finalizeCtx
                          (execution_outcomes_tx rt sv batchRepo (bm_leaseToken m) jobs outcomes finalizeCtx) w of
                      (err, w) \<Rightarrow> (err, s, w)) m s w of
           (Some err, m, s, w) \<Rightarrow> (Some err, m, s, w)
         | (None, m, s, w) \<Rightarrow>
             (let (s, w) = observeBatchOutcomes rt (sv_Options sv) jobs outcomes s w in (None, m, s, w)))"

text \<open>The loop of \<open>finishExecutionBatch\<close> over the validated results of the items.\<close>

fun item_outcomes ::
  "'w runtime \<Rightarrow> 'w Service \<Rightarrow> JobCapability \<Rightarrow> 'w BatchJobHandler \<Rightarrow> time \<Rightarrow> (Job \<times> error option) list \<Rightarrow>
   svc_state \<Rightarrow> (error + BatchJobOutcome list) \<times> svc_state" where
  "item_outcomes rt sv capability handler now [] s = (Inr [], s)"
| "item_outcomes rt sv capability handler now ((job, itemErr) # rest) s =
     (let outcome = \<lparr>bo_JobID = job_ID job, bo_Kind = BatchJobOutcomeSuccess, bo_AvailableAt = zero_time,
                     bo_Reason = []\<rparr>;
          reason = (\<lambda>what. what @ err_Error rt (the itemErr));
          (decided, s) =
            (if itemErr = None then (Inr outcome, s)
             else if IsPermanent itemErr
             then (Inr (dlqExecutionBatchOutcome job (reason ''permanent failure: '')), s)
             else case DeferTime itemErr of
                    Some availableAt \<Rightarrow>
                      (let availableAt = (if availableAt < now then now else availableAt)
                       in (Inr (outcome\<lparr>bo_Kind := BatchJobOutcomeDefer, bo_AvailableAt := availableAt\<rparr>),
                           pauseBatchCapability capability availableAt s))
                  | None \<Rightarrow>
                      if job_Attempts job \<ge> bh_MaxAttempts handler
                      then (Inr (dlqExecutionBatchOutcome job (reason ''max attempts exceeded: '')), s)
                      else (case retryTime (o_retryPolicy (sv_Options sv)) job itemErr now
                               (batchAttemptBackoff (job_Attempts job)) of
                              Inl err \<Rightarrow> (Inl err, s)
                            | Inr availableAt \<Rightarrow>
                                (Inr (outcome\<lparr>bo_Kind := BatchJobOutcomeRetry, bo_AvailableAt := availableAt\<rparr>), s)))
      in case decided of
           Inl err \<Rightarrow> (Inl err, s)
         | Inr outcome \<Rightarrow>
             (case item_outcomes rt sv capability handler now rest s of
                (Inl err, s) \<Rightarrow> (Inl err, s)
              | (Inr outcomes, s) \<Rightarrow> (Inr (outcome # outcomes), s)))"

definition finishExecutionBatch ::
  "'w runtime \<Rightarrow> 'w Service \<Rightarrow> 'w BatchJobsRepository \<Rightarrow> JobCapability \<Rightarrow> 'w BatchJobHandler \<Rightarrow> Job list \<Rightarrow>
   BatchJobItem list \<Rightarrow> BatchItemResult list \<Rightarrow> error option \<Rightarrow> ctx \<Rightarrow> manager \<Rightarrow> svc_state \<Rightarrow> 'w \<Rightarrow>
   error option \<times> manager \<times> svc_state \<times> 'w" where
  "finishExecutionBatch rt sv batchRepo capability handler jobs items result handleErr c m s w =
     (case handleErr of
        Some e \<Rightarrow>
          if IsHandlerPanic handleErr then (handleErr, m, s, w)
          else if result \<noteq> []
          then (errors_Join [Some (ErrWrap ''%w: non-empty result with top-level error'' [Sentinel ErrInvalidBatchResult]),
                  handleErr], m, s, w)
          else if IsPermanent handleErr
          then (Some (ErrWrap ''permanent top-level batch failure: %w'' [e]), m, s, w)
          else
            (let (availableAt, s, w) = topLevelBatchRetryTime rt capability handleErr s w;
                 outcomes = map (\<lambda>job. \<lparr>bo_JobID = job_ID job, bo_Kind = BatchJobOutcomeDefer,
                                         bo_AvailableAt = availableAt, bo_Reason = []\<rparr>) jobs
             in applyExecutionBatchOutcomes rt sv batchRepo jobs outcomes c m s w)
      | None \<Rightarrow>
          (case validateBatchResult items result of
             Inl err \<Rightarrow> (Some err, m, s, w)
           | Inr errs \<Rightarrow>
               (let s = resetBatchRetryStreak capability s;
                    (now, w) = time_Now rt w
                in case item_outcomes rt sv capability handler now (zip jobs errs) s of
                     (Inl err, s) \<Rightarrow> (Some err, m, s, w)
                   | (Inr outcomes, s) \<Rightarrow>
                       applyExecutionBatchOutcomes rt sv batchRepo jobs outcomes c m s w)))"

section \<open>Processing an execution batch\<close>

text \<open>Ending early: stop the heartbeat and give back what was not started.\<close>

definition abandon_batch ::
  "'w runtime \<Rightarrow> 'w Service \<Rightarrow> error option \<Rightarrow> manager \<Rightarrow> 'w \<Rightarrow> error option \<times> 'w" where
  "abandon_batch rt sv err m w =
     (let (heartbeatErr, m, w) = stopAndWait rt (jobsRepo sv) m w;
          (releaseErr, m, w) = releaseUnstarted rt (jobsRepo sv) RunCtx m w
      in (errors_Join [err, heartbeatErr, releaseErr], w))"

text \<open>Ending after the handler was interrupted: the leases are left to expire.\<close>

definition interrupt_batch ::
  "'w runtime \<Rightarrow> 'w Service \<Rightarrow> error option \<Rightarrow> manager \<Rightarrow> 'w \<Rightarrow> error option \<times> 'w" where
  "interrupt_batch rt sv err m w =
     (let (m, w) = forgetAll rt (jobsRepo sv) m w;
          (heartbeatErr, m, w) = stopAndWait rt (jobsRepo sv) m w
      in (errors_Join [err, heartbeatErr], w))"

definition batch_items :: "Job list \<Rightarrow> BatchJobItem list" where
  "batch_items jobs =
     map (\<lambda>job. \<lparr>bi_JobID = job_ID job, bi_Payload = job_Payload job, bi_Attempt = job_Attempts job\<rparr>) jobs"

text \<open>From the filled batch on.\<close>

definition run_execution_batch ::
  "'w runtime \<Rightarrow> (uuid \<Rightarrow> string) \<Rightarrow> 'w Service \<Rightarrow> 'w BatchJobsRepository \<Rightarrow> JobCapability \<Rightarrow> 'w BatchJobHandler \<Rightarrow>
   Job list \<Rightarrow> manager \<Rightarrow> svc_state \<Rightarrow> 'w \<Rightarrow> error option \<times> svc_state \<times> 'w" where
  "run_execution_batch rt str sv batchRepo capability handler filled m s w =
     (let selected = sortExecutionBatchJobs str filled
      in case admit rt (jobsRepo sv) BatchCtx m w of
           (Some err, m, w) \<Rightarrow> (case abandon_batch rt sv (Some err) m w of (err, w) \<Rightarrow> (err, s, w))
         | (None, m, w) \<Rightarrow>
      (let items = batch_items selected;
           ((result, handleErr), m, w) = executeBatchHandler rt (jobsRepo sv) handler items BatchCtx m w
       in case LockContext rt (jobsRepo sv) BatchCtx m w of
            (Some cause, m, w) \<Rightarrow> (case interrupt_batch rt sv (Some cause) m w of (err, w) \<Rightarrow> (err, s, w))
          | (None, m, w) \<Rightarrow>
       if IsHandlerPanic handleErr
       then (case interrupt_batch rt sv handleErr m w of (err, w) \<Rightarrow> (err, s, w))
       else
         (let (processErr, m, s, w) =
                finishExecutionBatch rt sv batchRepo capability handler selected items result handleErr RunCtx m s w;
              (m, w) = (if processErr \<noteq> None then forgetAll rt (jobsRepo sv) m w else (m, w));
              (heartbeatErr, m, w) = stopAndWait rt (jobsRepo sv) m w;
              processErr = (if processErr = None \<and> heartbeatErr \<noteq> None then heartbeatErr else processErr);
              (releaseErr, m, w) = releaseUnstarted rt (jobsRepo sv) RunCtx m w
          in (errors_Join [processErr, heartbeatErr, releaseErr], s, w))))"

definition findAndProcessExecutionBatch ::
  "'w runtime \<Rightarrow> (uuid \<Rightarrow> string) \<Rightarrow> 'w Service \<Rightarrow> JobCapability \<Rightarrow> svc_state \<Rightarrow> 'w \<Rightarrow>
   ((bool \<times> error option) \<times> svc_state \<times> 'w) option" where
  "findAndProcessExecutionBatch rt str sv capability s w =
     (let opts = sv_Options sv;
          report = (\<lambda>processed retErr claimedJobs s w.
            case observeLeaseLoss rt opts retErr claimedJobs s w of (s, w) \<Rightarrow> Some ((processed, retErr), s, w))
      in case map_of (sv_batchJobs sv) capability of
           None \<Rightarrow> report False (Some (ErrNew ''batch capability disappeared: %s schema version %d'')) 0 s w
         | Some registration \<Rightarrow>
      (case asBatchJobsRepository (jobsRepo sv) of
         None \<Rightarrow> report False (Some (Sentinel ErrBatchRepositoryNotConfigured)) 0 s w
       | Some batchRepo \<Rightarrow>
      (case claimInitialExecutionBatch rt sv batchRepo RunCtx capability (reg_config registration) w of
         (Inl err, w) \<Rightarrow>
           if errors_Is (Some err) ErrNoJobs then report False None 0 s w
           else report False (Some err) 0 s w
       | (Inr (jobs, leaseToken), w) \<Rightarrow>
           (let m = newBatchLeaseManager jobs leaseToken (o_reserveFor opts)
            in case fillExecutionBatch rt sv batchRepo BatchCtx capability (reg_config registration) jobs m w of
                 None \<Rightarrow> None
               | Some ((Some fillErr, filled), m, w) \<Rightarrow>
                   (case abandon_batch rt sv (Some fillErr) m w of
                      (err, w) \<Rightarrow> report True err (length filled) s w)
               | Some ((None, filled), m, w) \<Rightarrow>
                   (case run_execution_batch rt str sv batchRepo capability (reg_job registration) filled m s w of
                      (err, s, w) \<Rightarrow> report True err (length filled) s w)))))"

section \<open>An invariant of the collecting loop\<close>

lemma fill_loop_invariant:
  assumes "fill_loop rt sv repo c cap config deadline jobs used m w = Some (r, m', w')" "I w"
    and step: "\<And>jobs used m w x m' w'.
      I w \<Longrightarrow> fill_round rt sv repo c cap config deadline jobs used m w = (x, m', w') \<Longrightarrow> I w'"
  shows "I w'"
proof -
  define P where "P = (\<lambda>rt' sv' repo' c' cap' config' deadline' (jobs :: Job list) (used :: int) (m :: manager) w
      (y :: (error option \<times> Job list) \<times> manager \<times> 'a).
      rt' = rt \<and> sv' = sv \<and> repo' = repo \<and> c' = c \<and> cap' = cap \<and> config' = config \<and> deadline' = deadline \<longrightarrow>
      I w \<longrightarrow> I (snd (snd y)))"
  have "P rt sv repo c cap config deadline jobs used m w (r, m', w')"
  proof (rule fill_loop.raw_induct [OF _ assms(1)])
    fix loop rt' sv' repo' c' cap' config' deadline' jobs used m w y
    assume IH: "\<And>rt sv repo c cap config deadline jobs used m w y.
        loop rt sv repo c cap config deadline jobs used m w = Some y \<Longrightarrow>
        P rt sv repo c cap config deadline jobs used m w y"
      and run: "(case fill_round rt' sv' repo' c' cap' config' deadline' jobs used m w of
          (FillDone err jobs, m, w) \<Rightarrow> Some ((err, jobs), m, w)
        | (FillMore jobs used, m, w) \<Rightarrow> loop rt' sv' repo' c' cap' config' deadline' jobs used m w) = Some y"
    show "P rt' sv' repo' c' cap' config' deadline' jobs used m w y"
      unfolding P_def
    proof (intro impI)
      assume eq: "rt' = rt \<and> sv' = sv \<and> repo' = repo \<and> c' = c \<and> cap' = cap \<and> config' = config \<and> deadline' = deadline"
        and "I w"
      obtain x m1 w1 where x: "fill_round rt sv repo c cap config deadline jobs used m w = (x, m1, w1)"
        by (metis prod_cases3)
      then have "I w1"
        using step \<open>I w\<close> by blast
      then show "I (snd (snd y))"
        using run IH [unfolded P_def] x eq by (cases x) auto
    qed
  qed
  then show ?thesis
    using assms(2) by (simp add: P_def)
qed

end
