(* ===== verification/Service_Worker.thy ===== *)
theory Service_Worker
  imports Service_Execution
begin

text \<open>
  The worker loop of src/outbox/service.go and \<open>processOneAvailableBatch\<close> of
  src/outbox/service_execution_batch.go: a worker alternates between execution batches, whose
  capabilities it visits in rotation, and reservation batches of single jobs.
\<close>

section \<open>Scheduling\<close>

record workerSchedule =
  ws_batchCursor :: nat
  ws_preferBatch :: bool

text \<open>The schedule \<open>Run\<close> gives to worker \<open>i\<close>.\<close>

definition initial_schedule :: "nat \<Rightarrow> workerSchedule" where
  "initial_schedule i = \<lparr>ws_batchCursor = i, ws_preferBatch = (i mod 2 = 0)\<rparr>"

text \<open>The loop of \<open>processOneAvailableBatch\<close> over the offsets; the result carries the next cursor.\<close>

fun try_batches ::
  "'w runtime \<Rightarrow> (uuid \<Rightarrow> string) \<Rightarrow> 'w Service \<Rightarrow> JobCapability list \<Rightarrow> nat \<Rightarrow> nat list \<Rightarrow> nat \<Rightarrow> svc_state \<Rightarrow> 'w \<Rightarrow>
   ((bool \<times> error option) \<times> nat \<times> svc_state \<times> 'w) option" where
  "try_batches rt str sv capabilities start [] cursor s w = Some ((False, None), cursor, s, w)"
| "try_batches rt str sv capabilities start (offset # offsets) cursor s w =
     (let index = (start + offset) mod length capabilities;
          capability = capabilities ! index;
          (now, w) = time_Now rt w;
          (paused, s) = batchCapabilityPaused capability now s
      in if paused then try_batches rt str sv capabilities start offsets cursor s w
         else case findAndProcessExecutionBatch rt str sv capability s w of
                None \<Rightarrow> None
              | Some ((processed, err), s, w) \<Rightarrow>
                  if err \<noteq> None \<or> processed
                  then Some ((processed, err),
                         if processed then (index + 1) mod length capabilities else cursor, s, w)
                  else try_batches rt str sv capabilities start offsets cursor s w)"

definition processOneAvailableBatch ::
  "'w runtime \<Rightarrow> (uuid \<Rightarrow> string) \<Rightarrow> 'w Service \<Rightarrow> JobCapability list \<Rightarrow> nat \<Rightarrow> svc_state \<Rightarrow> 'w \<Rightarrow>
   ((bool \<times> error option) \<times> nat \<times> svc_state \<times> 'w) option" where
  "processOneAvailableBatch rt str sv capabilities cursor s w =
     (if capabilities = [] then Some ((False, None), cursor, s, w)
      else try_batches rt str sv capabilities (cursor mod length capabilities) [0..<length capabilities] cursor s w)"

definition processOneAvailableSingle ::
  "'w runtime \<Rightarrow> 'w Service \<Rightarrow> JobCapability list \<Rightarrow> svc_state \<Rightarrow> 'w \<Rightarrow> (bool \<times> error option) \<times> svc_state \<times> 'w" where
  "processOneAvailableSingle rt sv singleCapabilities s w =
     (if singleCapabilities = [] then ((False, None), s, w)
      else case findAndProcessBatch rt sv singleCapabilities s w of
             (None, s, w) \<Rightarrow> ((True, None), s, w)
           | (Some err, s, w) \<Rightarrow>
               if errors_Is (Some err) ErrNoJobs \<or> errors_Is (Some err) ErrServiceDraining
               then ((False, None), s, w)
               else ((False, Some err), s, w))"

text \<open>The batch attempt of \<open>processWorkerWork\<close>: draining is not an error.\<close>

definition batch_attempt ::
  "'w runtime \<Rightarrow> (uuid \<Rightarrow> string) \<Rightarrow> 'w Service \<Rightarrow> JobCapability list \<Rightarrow> workerSchedule \<Rightarrow> svc_state \<Rightarrow> 'w \<Rightarrow>
   ((bool \<times> bool \<times> error option) \<times> workerSchedule \<times> svc_state \<times> 'w) option" where
  "batch_attempt rt str sv batchCapabilities schedule s w =
     (case processOneAvailableBatch rt str sv batchCapabilities (ws_batchCursor schedule) s w of
        None \<Rightarrow> None
      | Some ((didWork, err), cursor, s, w) \<Rightarrow>
          (let schedule = schedule\<lparr>ws_batchCursor := cursor\<rparr>
           in if errors_Is err ErrServiceDraining then Some ((True, False, None), schedule, s, w)
              else Some ((False, didWork, err),
                     if didWork then schedule\<lparr>ws_preferBatch := False\<rparr> else schedule, s, w)))"

definition processWorkerWork ::
  "'w runtime \<Rightarrow> (uuid \<Rightarrow> string) \<Rightarrow> 'w Service \<Rightarrow> JobCapability list \<Rightarrow> JobCapability list \<Rightarrow> workerSchedule \<Rightarrow>
   svc_state \<Rightarrow> 'w \<Rightarrow> ((bool \<times> error option) \<times> workerSchedule \<times> svc_state \<times> 'w) option" where
  "processWorkerWork rt str sv singleCapabilities batchCapabilities schedule s w =
     (case (if ws_preferBatch schedule then batch_attempt rt str sv batchCapabilities schedule s w
            else Some ((False, False, None), schedule, s, w)) of
        None \<Rightarrow> None
      | Some ((draining, didWork, err), schedule, s, w) \<Rightarrow>
          if draining then Some ((False, None), schedule, s, w)
          else if err \<noteq> None \<or> didWork then Some ((didWork, err), schedule, s, w)
          else
            (case processOneAvailableSingle rt sv singleCapabilities s w of
               ((didWork, err), s, w) \<Rightarrow>
                 if err \<noteq> None \<or> didWork
                 then Some ((didWork, err),
                        if didWork then schedule\<lparr>ws_preferBatch := True\<rparr> else schedule, s, w)
                 else if ws_preferBatch schedule then Some ((False, None), schedule, s, w)
                 else (case batch_attempt rt str sv batchCapabilities schedule s w of
                         None \<Rightarrow> None
                       | Some ((draining, didWork, err), schedule, s, w) \<Rightarrow>
                           Some ((didWork, err), schedule, s, w))))"

section \<open>The worker loop\<close>

definition waitForWorker :: "'w runtime \<Rightarrow> 'w Service \<Rightarrow> ctx \<Rightarrow> 'w \<Rightarrow> bool \<times> 'w" where
  "waitForWorker rt sv c w =
     (case timer_wait rt c (o_idleTime (sv_Options sv)) w of
        (WokeDone, w) \<Rightarrow> (True, w) | (WokeDrain, w) \<Rightarrow> (True, w) | (WokeTimer, w) \<Rightarrow> (False, w))"

text \<open>One turn of the loop of \<open>runWorker\<close>: it returns, or goes on with the next schedule. \<open>ctx.Err()\<close> is
  not nil exactly when the context has a cause.\<close>

datatype worker_step = WorkerReturns "error option" | WorkerContinues workerSchedule

definition worker_turn ::
  "'w runtime \<Rightarrow> (uuid \<Rightarrow> string) \<Rightarrow> 'w Service \<Rightarrow> JobCapability list \<Rightarrow> JobCapability list \<Rightarrow> workerSchedule \<Rightarrow>
   svc_state \<Rightarrow> 'w \<Rightarrow> (worker_step \<times> svc_state \<times> 'w) option" where
  "worker_turn rt str sv singleCapabilities batchCapabilities schedule s w =
     (case drain_closed rt w of
        (True, w) \<Rightarrow> Some (WorkerReturns None, s, w)
      | (False, w) \<Rightarrow>
     (case processWorkerWork rt str sv singleCapabilities batchCapabilities schedule s w of
        None \<Rightarrow> None
      | Some ((didWork, Some err), schedule, s, w) \<Rightarrow>
          (case context_Cause rt RunCtx w of
             (Some _, w) \<Rightarrow> Some (WorkerReturns None, s, w)
           | (None, w) \<Rightarrow> Some (WorkerReturns (Some err), s, w))
      | Some ((didWork, None), schedule, s, w) \<Rightarrow>
          if didWork then Some (WorkerContinues schedule, s, w)
          else (case waitForWorker rt sv RunCtx w of
                  (True, w) \<Rightarrow> Some (WorkerReturns None, s, w)
                | (False, w) \<Rightarrow> Some (WorkerContinues schedule, s, w))))"

partial_function (option) runWorker ::
  "'w runtime \<Rightarrow> (uuid \<Rightarrow> string) \<Rightarrow> 'w Service \<Rightarrow> JobCapability list \<Rightarrow> JobCapability list \<Rightarrow> workerSchedule \<Rightarrow>
   svc_state \<Rightarrow> 'w \<Rightarrow> (error option \<times> svc_state \<times> 'w) option" where
  "runWorker rt str sv singleCapabilities batchCapabilities schedule s w =
     Option.bind (worker_turn rt str sv singleCapabilities batchCapabilities schedule s w)
       (\<lambda>(step, s, w). case step of
          WorkerReturns err \<Rightarrow> Some (err, s, w)
        | WorkerContinues schedule \<Rightarrow> runWorker rt str sv singleCapabilities batchCapabilities schedule s w)"

section \<open>An invariant of the worker loop\<close>

lemma runWorker_invariant:
  assumes "runWorker rt str sv single batch sched s w = Some (r, s', w')" "I w"
    and step: "\<And>sched s w x s' w'.
      I w \<Longrightarrow> worker_turn rt str sv single batch sched s w = Some (x, s', w') \<Longrightarrow> I w'"
  shows "I w'"
proof -
  define P where "P = (\<lambda>rt' str' sv' single' batch' (sched :: workerSchedule) (s :: svc_state) w
      (y :: error option \<times> svc_state \<times> 'a).
      rt' = rt \<and> str' = str \<and> sv' = sv \<and> single' = single \<and> batch' = batch \<longrightarrow> I w \<longrightarrow> I (snd (snd y)))"
  have "P rt str sv single batch sched s w (r, s', w')"
  proof (rule runWorker.raw_induct [OF _ assms(1)])
    fix loop rt' str' sv' single' batch' sched s w y
    assume IH: "\<And>rt str sv single batch sched s w y.
        loop rt str sv single batch sched s w = Some y \<Longrightarrow> P rt str sv single batch sched s w y"
      and run: "Option.bind (worker_turn rt' str' sv' single' batch' sched s w)
        (\<lambda>(step, s, w). case step of WorkerReturns err \<Rightarrow> Some (err, s, w)
          | WorkerContinues schedule \<Rightarrow> loop rt' str' sv' single' batch' schedule s w) = Some y"
    show "P rt' str' sv' single' batch' sched s w y"
      unfolding P_def
    proof (intro impI)
      assume eq: "rt' = rt \<and> str' = str \<and> sv' = sv \<and> single' = single \<and> batch' = batch" and "I w"
      then obtain x s1 w1 where x: "worker_turn rt str sv single batch sched s w = Some (x, s1, w1)"
        using run by (auto simp: bind_eq_Some_conv)
      then have "I w1"
        using step \<open>I w\<close> by blast
      then show "I (snd (snd y))"
        using run IH [unfolded P_def] x eq by (cases x) auto
    qed
  qed
  then show ?thesis
    using assms(2) by (simp add: P_def)
qed

end
