(* ===== verification/Service_Delivery.thy ===== *)
theory Service_Delivery
  imports Service_Worker
begin

text \<open>
  At-least-once delivery. The interface between the workers and their storage is the locale
  \<open>delivery\<close>: what every operation of the repositories, the transactor, the process and the handlers
  does to the stored jobs, the dead letters and the jobs a handler has succeeded on. Under it a worker
  never loses a job: a job that was stored stays stored, or a handler returned success for it, or it is
  a dead letter.
\<close>

section \<open>Accounting for jobs\<close>

text \<open>\<open>ids\<close> are the stored jobs of a world, \<open>dead\<close> the dead letters and \<open>done\<close> the jobs on which a handler has
  returned success. \<open>ok\<close> is the phase of the world, inside or outside a transaction.\<close>

definition accounted ::
  "('w \<Rightarrow> JobID set) \<Rightarrow> ('w \<Rightarrow> JobID set) \<Rightarrow> ('w \<Rightarrow> JobID set) \<Rightarrow> ('w \<Rightarrow> bool) \<Rightarrow> 'w \<Rightarrow> 'w \<Rightarrow> bool" where
  "accounted ids dead succ ok w w' \<longleftrightarrow>
     (ok w \<longrightarrow> ok w' \<and> dead w \<subseteq> dead w' \<and> succ w \<subseteq> succ w' \<and> ids w \<subseteq> ids w' \<union> dead w' \<union> succ w')"

lemma accounted_refl: "accounted ids dead succ ok w w"
  by (auto simp: accounted_def)

lemma accounted_trans:
  "accounted ids dead succ ok w1 w2 \<Longrightarrow> accounted ids dead succ ok w2 w3 \<Longrightarrow> accounted ids dead succ ok w1 w3"
  unfolding accounted_def by blast

lemma accounted_succ: "accounted ids dead succ ok w w' \<Longrightarrow> ok w \<Longrightarrow> i \<in> succ w \<Longrightarrow> i \<in> succ w'"
  by (auto simp: accounted_def)

section \<open>The interface\<close>

locale delivery =
  fixes rt :: "'w runtime" and sv :: "'w Service"
    and ids :: "'w \<Rightarrow> JobID set" and dead :: "'w \<Rightarrow> JobID set" and succ :: "'w \<Rightarrow> JobID set"
    and ok :: "'w \<Rightarrow> bool" and tx :: "'w \<Rightarrow> bool"
  assumes now_acc: "time_Now rt w = (t, w') \<Longrightarrow> accounted ids dead succ ok w w'"
    and now_tx: "time_Now rt w = (t, w') \<Longrightarrow> accounted ids dead succ tx w w'"
    and cause_acc: "context_Cause rt c w = (e, w') \<Longrightarrow> accounted ids dead succ ok w w'"
    and drain_acc: "drain_closed rt w = (b, w') \<Longrightarrow> accounted ids dead succ ok w w'"
    and uuid_acc: "uuid_New rt w = (u, w') \<Longrightarrow> accounted ids dead succ ok w w'"
    and ticks_acc: "heartbeat_ticks rt w = (n, w') \<Longrightarrow> accounted ids dead succ ok w w'"
    and timer_acc: "timer_wait rt c dur w = (wk, w') \<Longrightarrow> accounted ids dead succ ok w w'"
    and claim_acc: "FindAndReserveJobsForCapabilities (jobsRepo sv) c now until token caps limit w = (r, w') \<Longrightarrow>
      accounted ids dead succ ok w w'"
    and extend_acc: "ExtendJobLeases (jobsRepo sv) c jobIDs token now until w = (k, w') \<Longrightarrow>
      accounted ids dead succ ok w w'"
    and release_acc: "ReleaseUnstartedJobsWithLease (jobsRepo sv) c jobIDs token now w = (k, w') \<Longrightarrow>
      accounted ids dead succ ok w w'"
    and reschedule_acc: "RescheduleJobWithLease (jobsRepo sv) c i token now at w = (k, w') \<Longrightarrow>
      accounted ids dead succ ok w w'"
    and defer_acc: "asDeferJobsRepository (jobsRepo sv) = Some deferJob \<Longrightarrow> deferJob c i token now at w = (k, w') \<Longrightarrow>
      accounted ids dead succ ok w w'"
    and delete_acc: "DeleteJobWithLease (jobsRepo sv) c i token now w = (k, w') \<Longrightarrow> ok w \<Longrightarrow> i \<in> succ w \<Longrightarrow>
      accounted ids dead succ ok w w'"
    and delete_tx: "DeleteJobWithLease (jobsRepo sv) c i token now w = (k, w') \<Longrightarrow> tx w \<Longrightarrow> i \<in> dead w \<Longrightarrow>
      accounted ids dead succ tx w w'"
    and failed_tx: "jobsFailedRepo sv c i nm version payload reason w = (x, w') \<Longrightarrow> tx w \<Longrightarrow>
      accounted ids dead succ tx w w' \<and> (\<forall>y. x = Inr y \<longrightarrow> i \<in> dead w')"
    and run_in_tx: "transactor_RunInTx sv c f w = (e, w') \<Longrightarrow>
      (\<And>v d v'. f v = (d, v') \<Longrightarrow> tx v \<Longrightarrow> succ w \<subseteq> succ v \<Longrightarrow> accounted ids dead succ tx v v') \<Longrightarrow>
      accounted ids dead succ ok w w'"
    and batch_claim_acc: "asBatchJobsRepository (jobsRepo sv) = Some repo \<Longrightarrow>
      FindAndReserveJobsForCapability repo c now until token cap limit w = (r, w') \<Longrightarrow> accounted ids dead succ ok w w'"
    and bounded_claim_acc: "asBatchJobsRepository (jobsRepo sv) = Some repo \<Longrightarrow>
      FindAndReserveJobsForCapabilityBounded repo = Some bounded \<Longrightarrow>
      bounded c now until token cap limits w = (r, w') \<Longrightarrow> accounted ids dead succ ok w w'"
    and outcomes_tx: "asBatchJobsRepository (jobsRepo sv) = Some repo \<Longrightarrow>
      ApplyBatchJobOutcomes repo c token now outcomes w = (k, w') \<Longrightarrow> tx w \<Longrightarrow>
      (\<And>out. out \<in> set outcomes \<Longrightarrow> bo_Kind out = BatchJobOutcomeSuccess \<Longrightarrow> bo_JobID out \<in> succ w) \<Longrightarrow>
      (\<And>out. out \<in> set outcomes \<Longrightarrow> bo_Kind out = BatchJobOutcomeDLQ \<Longrightarrow> bo_JobID out \<in> dead w) \<Longrightarrow>
      accounted ids dead succ tx w w'"
    and handler_acc: "map_of (sv_jobs sv) cap = Some j \<Longrightarrow> h_Handle j c payload w = (h, w') \<Longrightarrow>
      accounted ids dead succ ok w w'"
    and handler_done: "map_of (sv_jobs sv) cap = Some j \<Longrightarrow> h_Handle j c payload w = (Returns None, w') \<Longrightarrow>
      metadata_Value c = Some md \<Longrightarrow> md_ID md \<in> succ w'"
    and batch_handler_acc: "map_of (sv_batchJobs sv) cap = Some reg \<Longrightarrow>
      bh_HandleBatch (reg_job reg) c items w = (h2, w') \<Longrightarrow> accounted ids dead succ ok w w'"
    and batch_handler_done: "map_of (sv_batchJobs sv) cap = Some reg \<Longrightarrow>
      bh_HandleBatch (reg_job reg) c items w = (Returns (result, None), w') \<Longrightarrow>
      res \<in> set result \<Longrightarrow> br_Err res = None \<Longrightarrow> br_JobID res \<in> succ w'"
begin

abbreviation acc :: "'w \<Rightarrow> 'w \<Rightarrow> bool" where
  "acc \<equiv> accounted ids dead succ ok"

lemmas acc_refl = accounted_refl [of ids dead succ ok]
lemmas acc_trans = accounted_trans [of ids dead succ ok]

lemma acc_forward:
  "time_Now rt w = (t, w1) \<Longrightarrow> acc w0 w \<Longrightarrow> acc w0 w1"
  "context_Cause rt c w = (e, w1) \<Longrightarrow> acc w0 w \<Longrightarrow> acc w0 w1"
  "drain_closed rt w = (b, w1) \<Longrightarrow> acc w0 w \<Longrightarrow> acc w0 w1"
  "uuid_New rt w = (u, w1) \<Longrightarrow> acc w0 w \<Longrightarrow> acc w0 w1"
  "heartbeat_ticks rt w = (n, w1) \<Longrightarrow> acc w0 w \<Longrightarrow> acc w0 w1"
  "timer_wait rt c dur w = (wk, w1) \<Longrightarrow> acc w0 w \<Longrightarrow> acc w0 w1"
  "ExtendJobLeases (jobsRepo sv) c jobIDs token now until w = (x, w1) \<Longrightarrow> acc w0 w \<Longrightarrow> acc w0 w1"
  "ReleaseUnstartedJobsWithLease (jobsRepo sv) c jobIDs token now w = (x, w1) \<Longrightarrow> acc w0 w \<Longrightarrow> acc w0 w1"
  by (blast intro: acc_trans now_acc cause_acc drain_acc uuid_acc ticks_acc timer_acc extend_acc release_acc)+

lemma batch_Cause_acc: "batch_Cause rt c m w = (e, m', w') \<Longrightarrow> acc w0 w \<Longrightarrow> acc w0 w'"
  by (auto simp: batch_Cause_def split: if_splits prod.splits option.splits dest: acc_forward(2))

lemma start_acc: "batchStartError rt c m w = (e, m', w') \<Longrightarrow> acc w0 w \<Longrightarrow> acc w0 w'"
  by (auto simp: batchStartError_def split: option.splits prod.splits bool.splits
      dest!: batch_Cause_acc acc_forward(3))

lemma extend_short_acc:
  "extend_short rt (jobsRepo sv) c now until jobIDs m w = (e, m', w') \<Longrightarrow> acc w0 w \<Longrightarrow> acc w0 w'"
  by (auto simp: extend_short_def Let_def split: sum.splits option.splits prod.splits if_splits
      dest!: batch_Cause_acc acc_forward(1,7))

lemma ensure_acc:
  "ensureLeasesLocked rt (jobsRepo sv) c req target m w = (e, m', w') \<Longrightarrow> acc w0 w \<Longrightarrow> acc w0 w'"
  by (auto simp: ensureLeasesLocked_def Let_def split: sum.splits option.splits prod.splits if_splits
      dest!: acc_forward(1) extend_short_acc)

lemma run_ticks_acc: "run_ticks rt (jobsRepo sv) n m w = (m', w') \<Longrightarrow> acc w0 w \<Longrightarrow> acc w0 w'"
proof (induction n arbitrary: m w)
  case (Suc n)
  then show ?case
    by (auto simp: Lease_Manager.extend_def Let_def split: if_splits option.splits prod.splits
        dest!: acc_forward(1) ensure_acc)
qed simp

lemma preempt_acc: "preempt rt (jobsRepo sv) m w = (m', w') \<Longrightarrow> acc w0 w \<Longrightarrow> acc w0 w'"
  by (auto simp: preempt_def split: prod.splits dest!: acc_forward(5) run_ticks_acc)

lemma LockContext_acc: "LockContext rt (jobsRepo sv) c m w = (e, m', w') \<Longrightarrow> acc w0 w \<Longrightarrow> acc w0 w'"
  by (auto simp: LockContext_def split: prod.splits dest!: preempt_acc batch_Cause_acc)

lemma admit_acc: "admit rt (jobsRepo sv) c m w = (e, m', w') \<Longrightarrow> acc w0 w \<Longrightarrow> acc w0 w'"
  by (auto simp: admit_def Let_def split: option.splits prod.splits if_splits
      dest!: preempt_acc start_acc acc_forward(1) ensure_acc)

lemma forget_acc:
  "forget rt (jobsRepo sv) i m w = (m', w') \<Longrightarrow> acc w0 w \<Longrightarrow> acc w0 w'"
  "forgetAll rt (jobsRepo sv) m w = (m', w') \<Longrightarrow> acc w0 w \<Longrightarrow> acc w0 w'"
  "stopAndWait rt (jobsRepo sv) m w = (e, m', w') \<Longrightarrow> acc w0 w \<Longrightarrow> acc w0 w'"
  by (auto simp: forget_def forgetAll_def stopAndWait_def split: prod.splits dest!: preempt_acc)

lemma add_loop_acc: "add_loop rt jobs m w = (e, m', w') \<Longrightarrow> acc w0 w \<Longrightarrow> acc w0 w'"
  by (induction jobs arbitrary: m w)
     (auto split: prod.splits option.splits if_splits dest!: acc_forward(1))

lemma add_jobs_acc: "add_jobs rt (jobsRepo sv) jobs m w = (e, m', w') \<Longrightarrow> acc w0 w \<Longrightarrow> acc w0 w'"
  by (auto simp: add_jobs_def split: prod.splits dest!: preempt_acc add_loop_acc)

lemma releaseUnstarted_acc:
  "releaseUnstarted rt (jobsRepo sv) c m w = (e, m', w') \<Longrightarrow> acc w0 w \<Longrightarrow> acc w0 w'"
  by (auto simp: releaseUnstarted_def Let_def split: prod.splits sum.splits if_splits
      dest!: preempt_acc acc_forward(1,8))

text \<open>The work of a finalization starts from a world the worker has reached by such steps.\<close>

lemma finalize_acc:
  assumes "finalize rt (jobsRepo sv) c i work m s w = (e, m', s', w')" "acc w0 w"
    and work: "\<And>c s v e s' v'. work c s v = (e, s', v') \<Longrightarrow> acc w v \<Longrightarrow> acc v v'"
  shows "acc w0 w'"
proof -
  have "acc w w'"
    using assms(1) acc_refl [of w]
    by (auto simp: finalize_def Let_def split: prod.splits option.splits if_splits
        dest!: acc_forward(1) LockContext_acc ensure_acc batch_Cause_acc intro: acc_trans work)
  then show ?thesis
    using assms(2) acc_trans by blast
qed

lemma finalizeAll_acc:
  assumes "finalizeAll rt (jobsRepo sv) c until work m s w = (e, m', s', w')" "acc w0 w"
    and work: "\<And>s v e s' v'. work s v = (e, s', v') \<Longrightarrow> acc w v \<Longrightarrow> acc v v'"
  shows "acc w0 w'"
proof -
  have "acc w w'"
    using assms(1) acc_refl [of w]
    by (auto simp: finalizeAll_def Let_def split: prod.splits option.splits if_splits
        dest!: LockContext_acc ensure_acc batch_Cause_acc intro: acc_trans work)
  then show ?thesis
    using assms(2) acc_trans by blast
qed

end

section \<open>Claims\<close>

context delivery
begin

lemma tail_acc: "releaseClaimedBatchTail rt (jobsRepo sv) c token jobs w = (e, w') \<Longrightarrow> acc w0 w \<Longrightarrow> acc w0 w'"
  by (auto simp: releaseClaimedBatchTail_def Let_def split: prod.splits sum.splits if_splits
      dest!: acc_forward(1,8))

lemma cancelled_acc: "releaseCancelledClaim rt (jobsRepo sv) c token jobs w = (e, w') \<Longrightarrow> acc w0 w \<Longrightarrow> acc w0 w'"
  by (auto simp: releaseCancelledClaim_def split: prod.splits dest!: acc_forward(1) tail_acc)

lemma claim_lease_acc:
  assumes "claimJobsWithLease rt (jobsRepo sv) reserveFor cause c token claim m w = (r, m', w')" "acc w0 w"
    and claim: "\<And>c now until v r v'. claim c now until v = (r, v') \<Longrightarrow> acc v v'"
    and cause: "\<And>c m v e m' v'. cause c m v = (e, m', v') \<Longrightarrow> acc v v'"
  shows "acc w0 w'"
  using assms(1,2)
  by (auto simp: claimJobsWithLease_def Let_def split: prod.splits bool.splits sum.splits option.splits
      dest!: acc_forward(1,3) cancelled_acc dest: acc_trans [OF _ claim] acc_trans [OF _ cause])

lemma run_Cause_acc: "run_Cause rt c m w = (e, m', w') \<Longrightarrow> acc w w'"
  by (auto simp: run_Cause_def split: prod.splits dest: cause_acc)

lemma later_Cause_acc: "LockContext rt (jobsRepo sv) c m w = (e, m', w') \<Longrightarrow> acc w w'"
  by (rule LockContext_acc [OF _ acc_refl])

lemma validate_claims_acc: "validate_claims rt token jobs w = (e, w') \<Longrightarrow> acc w0 w \<Longrightarrow> acc w0 w'"
  by (induction jobs arbitrary: w) (auto split: prod.splits option.splits dest!: acc_forward(1))

lemma claimed_loop_acc: "claimed_batch_loop rt cap token seen jobs w = (e, w') \<Longrightarrow> acc w0 w \<Longrightarrow> acc w0 w'"
  by (induction jobs arbitrary: seen w) (auto split: prod.splits option.splits if_splits dest!: acc_forward(1))

lemma validate_batch_acc:
  "validateClaimedExecutionBatch rt jobs cap token limit w = (e, w') \<Longrightarrow> acc w0 w \<Longrightarrow> acc w0 w'"
  by (auto simp: validateClaimedExecutionBatch_def split: if_splits dest: claimed_loop_acc)

lemma claimBatch_acc: "claimBatch rt sv c caps s w = (r, s', w') \<Longrightarrow> acc w0 w \<Longrightarrow> acc w0 w'"
  by (auto simp: claimBatch_def Let_def split: prod.splits sum.splits option.splits if_splits
      dest!: acc_forward(1,4) validate_claims_acc claim_lease_acc [OF _ _ claim_acc run_Cause_acc])

lemma observe_acc:
  "observeJobOutcome rt opts job kind at s w = (s', w') \<Longrightarrow> acc w0 w \<Longrightarrow> acc w0 w'"
  "observeLeaseLoss rt opts err n s w = (s', w') \<Longrightarrow> acc w0 w \<Longrightarrow> acc w0 w'"
  by (auto simp: observeJobOutcome_def observeLeaseLoss_def split: if_splits prod.splits dest!: acc_forward(1))

lemma observe_outcomes_acc:
  "observe_outcomes rt opts jobs outcomes s w = (s', w') \<Longrightarrow> acc w0 w \<Longrightarrow> acc w0 w'"
  by (induction outcomes arbitrary: s w)
     (auto split: option.splits prod.splits simp del: outcome_event.simps dest!: observe_acc(1))

lemma observe_batch_acc:
  "observeBatchOutcomes rt opts jobs outcomes s w = (s', w') \<Longrightarrow> acc w0 w \<Longrightarrow> acc w0 w'"
  by (auto simp: observeBatchOutcomes_def split: if_splits dest: observe_outcomes_acc)

end

section \<open>Single jobs\<close>

context delivery
begin

lemma acc_okD: "acc w0 w \<Longrightarrow> ok w0 \<Longrightarrow> ok w"
  by (simp add: accounted_def)

lemma deferLeased_acc: "deferLeased rt sv job at c s w = (e, s', w') \<Longrightarrow> acc w w'"
  using acc_refl [of w]
  by (auto simp: deferLeased_def Let_def split: option.splits prod.splits sum.splits if_splits
      dest!: acc_forward(1) observe_acc(1) dest: acc_trans [OF _ defer_acc])

lemma reschedule_leased_acc: "rescheduleLeased rt sv job at c s w = (e, s', w') \<Longrightarrow> acc w w'"
  using acc_refl [of w]
  by (auto simp: rescheduleLeased_def Let_def split: prod.splits sum.splits if_splits
      dest!: acc_forward(1) observe_acc(1) dest: acc_trans [OF _ reschedule_acc])

lemma ackBatch_acc:
  assumes "ackBatch rt sv job c s w = (e, s', w')" "ok w" "job_ID job \<in> succ w"
  shows "acc w w'"
proof -
  obtain t w1 where t: "time_Now rt w = (t, w1)"
    by (cases "time_Now rt w")
  obtain k w2 where d: "DeleteJobWithLease (jobsRepo sv) c (job_ID job) (job_LeaseToken job) t w1 = (k, w2)"
    by (cases "DeleteJobWithLease (jobsRepo sv) c (job_ID job) (job_LeaseToken job) t w1")
  have 1: "acc w w1" by (rule now_acc [OF t])
  then have "ok w1" "job_ID job \<in> succ w1"
    using assms(2,3) by (auto simp: accounted_def)
  then have "acc w1 w2"
    by (rule delete_acc [OF d])
  with 1 have "acc w w2" by (rule acc_trans)
  then show ?thesis
    using assms(1) by (auto simp: ackBatch_def t d split: sum.splits if_splits prod.splits dest: observe_acc(1))
qed

lemma dlq_tx_acc:
  assumes "dlq_tx rt sv job reason c w = (e, w')" "tx w"
  shows "accounted ids dead succ tx w w'"
proof -
  let ?create = "jobsFailedRepo sv c (job_ID job) (job_Name job) (job_SchemaVersion job) (job_Payload job) reason w"
  obtain x w1 where f: "?create = (x, w1)"
    by (cases ?create)
  obtain t w2 where t: "time_Now rt w1 = (t, w2)"
    by (cases "time_Now rt w1")
  obtain k w3 where d: "DeleteJobWithLease (jobsRepo sv) c (job_ID job) (job_LeaseToken job) t w2 = (k, w3)"
    by (cases "DeleteJobWithLease (jobsRepo sv) c (job_ID job) (job_LeaseToken job) t w2")
  have 1: "accounted ids dead succ tx w w1" "\<And>y. x = Inr y \<Longrightarrow> job_ID job \<in> dead w1"
    using failed_tx [OF f assms(2)] by auto
  have 2: "accounted ids dead succ tx w1 w2"
    by (rule now_tx [OF t])
  have 3: "accounted ids dead succ tx w2 w3" if "x = Inr y" for y
    using 1 2 that assms(2) by (intro delete_tx [OF d]) (auto simp: accounted_def)
  show ?thesis
    using assms(1) 1 2 3 by (auto simp: dlq_tx_def f t d split: sum.splits if_splits intro: accounted_trans)
qed

lemma dlqBatch_acc: "dlqBatch rt sv job reason c s w = (e, s', w') \<Longrightarrow> acc w w'"
proof -
  assume a: "dlqBatch rt sv job reason c s w = (e, s', w')"
  obtain e1 w1 where r: "transactor_RunInTx sv c (dlq_tx rt sv job reason c) w = (e1, w1)"
    by (cases "transactor_RunInTx sv c (dlq_tx rt sv job reason c) w")
  have "acc w w1"
    by (rule run_in_tx [OF r]) (rule dlq_tx_acc)
  then show ?thesis
    using a by (auto simp: dlqBatch_def r split: option.splits prod.splits dest: observe_acc(1))
qed

text \<open>A handler that returned success has put its job among those done.\<close>

lemma executeJob_acc:
  assumes "executeJob rt (jobsRepo sv) j job c m w = (e, m', w')" "map_of (sv_jobs sv) cap = Some j" "ok w"
  shows "acc w w' \<and> (e = None \<longrightarrow> job_ID job \<in> succ w')"
proof -
  obtain t w1 where t: "time_Now rt w = (t, w1)"
    by (cases "time_Now rt w")
  define hc where "hc = WithDeadline c (t + h_ExecutionTimeout j)"
  obtain r w2 where h: "h_Handle j (withJobMetadata hc job) (job_Payload job) w1 = (r, w2)"
    by (cases "h_Handle j (withJobMetadata hc job) (job_Payload job) w1")
  obtain e3 m3 w3 where l: "LockContext rt (jobsRepo sv) hc m w2 = (e3, m3, w3)"
    by (metis prod_cases3)
  have 1: "acc w w2"
    using now_acc [OF t] handler_acc [OF assms(2) h] by (rule acc_trans)
  then have 2: "acc w w3"
    by (rule LockContext_acc [OF l])
  have w': "w' = w3" and e: "e = None \<Longrightarrow> r = Returns None"
    using assms(1) by (auto simp: executeJob_def handleJob_def t h l Let_def hc_def [symmetric]
        split: call.splits option.splits)
  have "job_ID job \<in> succ w3" if "e = None"
  proof -
    have "job_ID job \<in> succ w2"
      using handler_done [OF assms(2) h [unfolded e [OF that]]] by (cases "job_ID job") (simp add: withJobMetadata_def)
    moreover have "acc w2 w3"
      by (rule LockContext_acc [OF l acc_refl])
    ultimately show ?thesis
      using acc_okD [OF 1 assms(3)] by (blast intro: accounted_succ)
  qed
  then show ?thesis
    using 2 by (simp add: w')
qed

lemma settle_job_acc:
  assumes "settle_job rt sv handler job handleErr c m s w = (e, m', s', w')" "acc w0 w" "ok w"
    and fin: "handleErr = None \<Longrightarrow> job_ID job \<in> succ w"
  shows "acc w0 w'"
proof -
  have ack: "acc w0 w'" if "finalize rt (jobsRepo sv) c (job_ID job) (ackBatch rt sv job) m s w = (e, m', s', w')"
    "handleErr = None"
    using that(1) assms(2)
  proof (rule finalize_acc)
    fix c s v e s' v'
    assume "ackBatch rt sv job c s v = (e, s', v')" "acc w v"
    then show "acc v v'"
      using fin [OF that(2)] assms(3) by (intro ackBatch_acc) (auto intro: acc_okD accounted_succ)
  qed
  have other: "acc w0 w'" if "finalize rt (jobsRepo sv) c (job_ID job) work m s w1 = (e, m', s', w')"
    "acc w0 w1" "\<And>c s v e s' v'. work c s v = (e, s', v') \<Longrightarrow> acc v v'" for work w1
    using that(1,2) by (rule finalize_acc) (rule that(3))
  show ?thesis
    using assms(1,2) ack
    by (auto simp: settle_job_def Let_def split: option.splits if_splits sum.splits prod.splits
        dest!: acc_forward(1) forget_acc(1)
        dest: other [OF _ _ dlqBatch_acc] other [OF _ _ deferLeased_acc] other [OF _ _ reschedule_leased_acc])
qed

lemma processBatchJob_acc:
  assumes "processBatchJob rt sv job c m s w = (r, m', s', w')" "acc w0 w" "ok w0"
  shows "acc w0 w'"
proof (cases "map_of (sv_jobs sv) (job_capability job)")
  case None
  then show ?thesis
    using assms(1,2) by (auto simp: processBatchJob_def)
next
  case (Some j)
  obtain e1 m1 w1 where a: "admit rt (jobsRepo sv) c m w = (e1, m1, w1)"
    by (metis prod_cases3)
  have 1: "acc w0 w1"
    using a assms(2) by (rule admit_acc)
  obtain e2 m2 w2 where x: "executeJob rt (jobsRepo sv) j job c m1 w1 = (e2, m2, w2)"
    by (metis prod_cases3)
  have 2: "acc w0 w2" "e2 = None \<Longrightarrow> job_ID job \<in> succ w2"
    using executeJob_acc [OF x Some acc_okD [OF 1 assms(3)]] 1 by (auto intro: acc_trans)
  obtain e3 m3 w3 where l: "LockContext rt (jobsRepo sv) c m2 w2 = (e3, m3, w3)"
    by (metis prod_cases3)
  have 3: "acc w0 w3" "e2 = None \<Longrightarrow> job_ID job \<in> succ w3" "ok w3"
    using LockContext_acc [OF l 2(1)] LockContext_acc [OF l acc_refl] 2 assms(3)
    by (auto intro: acc_okD accounted_succ)
  show ?thesis
    using assms(1) 1 3 by (auto simp: processBatchJob_def Some a x l split: option.splits prod.splits
        dest: settle_job_acc)
qed

lemma process_jobs_acc:
  assumes "process_jobs rt sv jobs c m s w = (e, m', s', w')" "acc w0 w" "ok w0"
  shows "acc w0 w'"
  using assms(1,2)
  by (induction jobs arbitrary: m s w)
     (auto split: option.splits prod.splits if_splits dest!: processBatchJob_acc [OF _ _ assms(3)] forget_acc(1))

text \<open>One reservation batch.\<close>

lemma findAndProcessBatch_acc:
  assumes "findAndProcessBatch rt sv caps s w = (e, s', w')" "acc w0 w" "ok w0"
  shows "acc w0 w'"
  using assms(1,2)
  by (auto simp: findAndProcessBatch_def Let_def split: sum.splits prod.splits
      dest!: claimBatch_acc observe_acc(2) process_jobs_acc [OF _ _ assms(3)] forget_acc(3) releaseUnstarted_acc)

end

section \<open>Execution batches\<close>

lemma jobs_by_ID_Some: "jobs_by_ID jobs i = Some job \<Longrightarrow> job_ID job = i"
  by (auto simp: jobs_by_ID_def dest: map_of_SomeD)

text \<open>A success among the outcomes is a job without error, and a dead letter one whose record was written.\<close>

lemma item_outcomes_success:
  "item_outcomes rt sv cap handler now items s = (Inr outcomes, s') \<Longrightarrow> out \<in> set outcomes \<Longrightarrow>
   bo_Kind out = BatchJobOutcomeSuccess \<Longrightarrow> \<exists>job. (job, None) \<in> set items \<and> bo_JobID out = job_ID job"
proof (induction items arbitrary: s s' outcomes)
  case (Cons item items)
  then show ?case
    by (cases item)
       (auto simp: Let_def dlqExecutionBatchOutcome_def split: if_splits option.splits sum.splits prod.splits, blast+)
qed simp

context delivery
begin

lemma dlq_records_acc:
  assumes "create_dlq_records sv c jobs outcomes w = (e, w')" "tx w"
  shows "accounted ids dead succ tx w w' \<and>
    (e = None \<longrightarrow> (\<forall>out \<in> set outcomes. bo_Kind out = BatchJobOutcomeDLQ \<longrightarrow> bo_JobID out \<in> dead w'))"
  using assms
proof (induction outcomes arbitrary: w)
  case (Cons out outcomes)
  show ?case
  proof (cases "bo_Kind out = BatchJobOutcomeDLQ \<and> jobs_by_ID jobs (bo_JobID out) \<noteq> None")
    case True
    then obtain job where k: "bo_Kind out = BatchJobOutcomeDLQ" and job: "jobs_by_ID jobs (bo_JobID out) = Some job"
      by auto
    let ?create = "jobsFailedRepo sv c (job_ID job) (job_Name job) (job_SchemaVersion job) (job_Payload job)
      (bo_Reason out) w"
    obtain x w1 where f: "?create = (x, w1)"
      by (cases ?create)
    have 1: "accounted ids dead succ tx w w1" "\<And>y. x = Inr y \<Longrightarrow> bo_JobID out \<in> dead w1"
      using failed_tx [OF f Cons.prems(2)] jobs_by_ID_Some [OF job] by auto
    then have "tx w1"
      using Cons.prems(2) by (simp add: accounted_def)
    then show ?thesis
      using Cons.prems(1) Cons.IH [of w1] 1 k job f
      by (auto simp: accounted_def split: sum.splits)
  next
    case False
    then show ?thesis
      using Cons accounted_refl [of ids dead succ tx w] by (auto split: option.splits if_splits)
  qed
qed (simp add: accounted_refl)

lemma execution_tx_acc:
  assumes "execution_outcomes_tx rt sv repo token jobs outcomes c w = (e, w')" "tx w"
    and repo: "asBatchJobsRepository (jobsRepo sv) = Some repo"
    and fin: "\<And>out. out \<in> set outcomes \<Longrightarrow> bo_Kind out = BatchJobOutcomeSuccess \<Longrightarrow> bo_JobID out \<in> succ w"
  shows "accounted ids dead succ tx w w'"
proof -
  obtain e1 w1 where d: "create_dlq_records sv c jobs outcomes w = (e1, w1)"
    by (cases "create_dlq_records sv c jobs outcomes w")
  obtain t w2 where t: "time_Now rt w1 = (t, w2)"
    by (cases "time_Now rt w1")
  obtain k w3 where a: "ApplyBatchJobOutcomes repo c token t outcomes w2 = (k, w3)"
    by (cases "ApplyBatchJobOutcomes repo c token t outcomes w2")
  have 1: "accounted ids dead succ tx w w1"
    and dl: "e1 = None \<Longrightarrow> \<forall>out \<in> set outcomes. bo_Kind out = BatchJobOutcomeDLQ \<longrightarrow> bo_JobID out \<in> dead w1"
    using dlq_records_acc [OF d assms(2)] by auto
  have 2: "accounted ids dead succ tx w w2"
    using 1 now_tx [OF t] by (rule accounted_trans)
  have 3: "accounted ids dead succ tx w2 w3" if "e1 = None"
  proof (rule outcomes_tx [OF repo a])
    show "tx w2" using 2 assms(2) by (simp add: accounted_def)
    show "bo_JobID out \<in> succ w2" if "out \<in> set outcomes" "bo_Kind out = BatchJobOutcomeSuccess" for out
      using 2 assms(2) fin [OF that] by (auto simp: accounted_def)
    show "bo_JobID out \<in> dead w2" if "out \<in> set outcomes" "bo_Kind out = BatchJobOutcomeDLQ" for out
      using 1 now_tx [OF t] assms(2) dl [OF \<open>e1 = None\<close>] that by (auto simp: accounted_def)
  qed
  show ?thesis
    using assms(1) 1 2 3
    by (auto simp: execution_outcomes_tx_def createExecutionBatchDLQRecords_def d t a
        split: option.splits sum.splits if_splits intro: accounted_trans)
qed

lemma apply_outcomes_acc:
  assumes "applyExecutionBatchOutcomes rt sv repo jobs outcomes c m s w = (e, m', s', w')" "acc w0 w" "ok w"
    and repo: "asBatchJobsRepository (jobsRepo sv) = Some repo"
    and fin: "\<And>out. out \<in> set outcomes \<Longrightarrow> bo_Kind out = BatchJobOutcomeSuccess \<Longrightarrow> bo_JobID out \<in> succ w"
  shows "acc w0 w'"
proof -
  obtain t w1 where t: "time_Now rt w = (t, w1)"
    by (cases "time_Now rt w")
  define until where "until = t + executionBatchFinalizationTimeout outcomes"
  define fc where "fc = WithDeadline (WithoutCancel c) until"
  define work where "work = (\<lambda>s w. case transactor_RunInTx sv fc
      (execution_outcomes_tx rt sv repo (bm_leaseToken m) jobs outcomes fc) w of (err, w) \<Rightarrow> (err, s :: svc_state, w))"
  obtain e2 m2 s2 w2 where f: "finalizeAll rt (jobsRepo sv) fc (until + batchFinalizationMargin) work m s w1 = (e2, m2, s2, w2)"
    by (metis prod_cases4)
  have 1: "acc w w1"
    by (rule now_acc [OF t])
  have "acc w1 w2"
    using f acc_refl
  proof (rule finalizeAll_acc)
    fix s v e s' v'
    assume a: "work s v = (e, s', v')" and v: "acc w1 v"
    have "acc w v"
      using 1 v by (rule acc_trans)
    then have "succ w \<subseteq> succ v"
      using assms(3) by (simp add: accounted_def)
    obtain e1 where "transactor_RunInTx sv fc (execution_outcomes_tx rt sv repo (bm_leaseToken m) jobs outcomes fc) v = (e1, v')"
      using a by (auto simp: work_def split: prod.splits)
    then show "acc v v'"
    proof (rule run_in_tx)
      fix u d u'
      assume x: "execution_outcomes_tx rt sv repo (bm_leaseToken m) jobs outcomes fc u = (d, u')" "tx u" "succ v \<subseteq> succ u"
      show "accounted ids dead succ tx u u'"
        using x(1,2) repo by (rule execution_tx_acc) (use fin x(3) \<open>succ w \<subseteq> succ v\<close> in blast)
    qed
  qed
  then have "acc w0 w2"
    using assms(2) 1 by (blast intro: acc_trans)
  then show ?thesis
    using assms(1)
    by (auto simp: applyExecutionBatchOutcomes_def Let_def t until_def [symmetric] fc_def [symmetric] work_def [symmetric] f
        split: option.splits prod.splits dest: observe_batch_acc)
qed

end

context delivery
begin

lemma singleton_acc:
  assumes "claimExecutionBatchSingletonWithToken rt sv repo cause c cap token m w = (r, m', w')" "acc w0 w"
    and "asBatchJobsRepository (jobsRepo sv) = Some repo"
    and cause: "\<And>c m v e m' v'. cause c m v = (e, m', v') \<Longrightarrow> acc v v'"
  shows "acc w0 w'"
  using assms(1,2)
  by (auto simp: claimExecutionBatchSingletonWithToken_def split: prod.splits sum.splits option.splits
      dest!: validate_batch_acc claim_lease_acc [OF _ _ batch_claim_acc [OF assms(3)] cause])

lemma bounded_acc:
  assumes "claimExecutionBatchBoundedWithToken rt sv bounded cause c cap limits token m w = (r, m', w')" "acc w0 w"
    and "asBatchJobsRepository (jobsRepo sv) = Some repo"
    and "FindAndReserveJobsForCapabilityBounded repo = Some bounded"
    and cause: "\<And>c m v e m' v'. cause c m v = (e, m', v') \<Longrightarrow> acc v v'"
  shows "acc w0 w'"
  using assms(1,2)
  by (auto simp: claimExecutionBatchBoundedWithToken_def split: prod.splits sum.splits option.splits
      dest!: validate_batch_acc claim_lease_acc [OF _ _ bounded_claim_acc [OF assms(3,4)] cause])

lemma initial_acc:
  assumes "claimInitialExecutionBatch rt sv repo c cap config w = (r, w')" "acc w0 w"
    and repo: "asBatchJobsRepository (jobsRepo sv) = Some repo"
  shows "acc w0 w'"
  using assms(1,2)
  by (auto simp: claimInitialExecutionBatch_def Let_def split: prod.splits sum.splits option.splits
      dest!: acc_forward(4) singleton_acc [OF _ _ repo run_Cause_acc]
      dest: bounded_acc [OF _ _ repo _ run_Cause_acc])

lemma for_fill_acc:
  assumes "claimExecutionBatchForFill rt sv repo (LockContext rt (jobsRepo sv)) c cap token limits m w = (r, m', w')"
    "acc w0 w" and repo: "asBatchJobsRepository (jobsRepo sv) = Some repo"
  shows "acc w0 w'"
  using assms(1,2)
  by (auto simp: claimExecutionBatchForFill_def split: option.splits
      dest!: singleton_acc [OF _ _ repo later_Cause_acc] dest: bounded_acc [OF _ _ repo _ later_Cause_acc])

lemma window_acc:
  assumes "claimExecutionBatchWithinFillWindow rt sv repo c cap token limits deadline m w = (r, m', w')"
    "acc w0 w" and repo: "asBatchJobsRepository (jobsRepo sv) = Some repo"
  shows "acc w0 w'"
  using assms(1,2)
  by (auto simp: claimExecutionBatchWithinFillWindow_def Let_def split: prod.splits if_splits sum.splits option.splits
      dest!: acc_forward(1) for_fill_acc [OF _ _ repo] LockContext_acc)

lemma fill_wait_acc: "fill_wait rt sv c deadline jobs used m w = (r, m', w') \<Longrightarrow> acc w0 w \<Longrightarrow> acc w0 w'"
  by (auto simp: fill_wait_def Let_def split: prod.splits if_splits wake.splits
      dest!: acc_forward(1,6) LockContext_acc)

lemma fill_take_acc: "fill_take rt sv c config claimed jobs used m w = (r, m', w') \<Longrightarrow> acc w0 w \<Longrightarrow> acc w0 w'"
  by (auto simp: fill_take_def Let_def split: prod.splits if_splits option.splits dest!: add_jobs_acc tail_acc)

lemma fill_round_acc:
  assumes "fill_round rt sv repo c cap config deadline jobs used m w = (r, m', w')" "acc w0 w"
    and repo: "asBatchJobsRepository (jobsRepo sv) = Some repo"
  shows "acc w0 w'"
  using assms(1,2)
  by (auto simp: fill_round_def split: prod.splits if_splits fill_claim.splits
      dest!: acc_forward(1) window_acc [OF _ _ repo] fill_wait_acc fill_take_acc)

lemma fillExecutionBatch_acc:
  assumes "fillExecutionBatch rt sv repo c cap config initial m w = Some (r, m', w')" "acc w0 w"
    and repo: "asBatchJobsRepository (jobsRepo sv) = Some repo"
  shows "acc w0 w'"
  using assms(1,2)
  by (auto simp: fillExecutionBatch_def Let_def split: if_splits prod.splits dest!: acc_forward(1)
      dest: fill_loop_invariant [where I = "acc w0", OF _ _ fill_round_acc [OF _ _ repo]])

lemma executeBatchHandler_acc:
  assumes "executeBatchHandler rt (jobsRepo sv) (reg_job reg) items c m w = ((result, e), m', w')"
    and reg: "map_of (sv_batchJobs sv) cap = Some reg" and "ok w"
  shows "acc w w' \<and> (e = None \<longrightarrow> (\<forall>x \<in> set result. br_Err x = None \<longrightarrow> br_JobID x \<in> succ w'))"
proof -
  obtain t w1 where t: "time_Now rt w = (t, w1)"
    by (cases "time_Now rt w")
  define hc where "hc = WithDeadline c (t + bh_ExecutionTimeout (reg_job reg))"
  obtain r w2 where h: "bh_HandleBatch (reg_job reg) hc items w1 = (r, w2)"
    by (cases "bh_HandleBatch (reg_job reg) hc items w1")
  have 1: "acc w w2"
    using now_acc [OF t] batch_handler_acc [OF reg h] by (rule acc_trans)
  obtain e3 m3 w3 where l: "LockContext rt (jobsRepo sv) hc m w2 = (e3, m3, w3)"
    by (metis prod_cases3)
  have 2: "acc w w3" "acc w2 w3"
    using LockContext_acc [OF l 1] LockContext_acc [OF l acc_refl] by auto
  have "ok w2"
    using acc_okD [OF 1 assms(3)] .
  show ?thesis
  proof (cases r)
    case (Panics p)
    then show ?thesis
      using assms(1) 1 by (auto simp: executeBatchHandler_def t h hc_def [symmetric])
  next
    case (Returns x)
    obtain result' e' where x: "x = (result', e')" by (cases x)
    show ?thesis
    proof (cases e3)
      case None
      then have "result = result'" "e = e'" "w' = w3"
        using assms(1) by (auto simp: executeBatchHandler_def t h l hc_def [symmetric] Returns x)
      moreover have "br_JobID y \<in> succ w3" if "e' = None" "y \<in> set result'" "br_Err y = None" for y
        using batch_handler_done [OF reg h [unfolded Returns x that(1)] that(2,3)] 2(2) \<open>ok w2\<close>
        by (blast intro: accounted_succ)
      ultimately show ?thesis
        using 2 by blast
    next
      case (Some cause)
      then show ?thesis
        using assms(1) 2 by (auto simp: executeBatchHandler_def t h l hc_def [symmetric] Returns x)
    qed
  qed
qed

lemma finish_acc:
  assumes "finishExecutionBatch rt sv repo cap handler jobs (batch_items jobs) result handleErr c m s w = (e, m', s', w')"
    and "acc w0 w" "ok w" and repo: "asBatchJobsRepository (jobsRepo sv) = Some repo"
    and fin: "handleErr = None \<Longrightarrow> \<forall>x \<in> set result. br_Err x = None \<longrightarrow> br_JobID x \<in> succ w"
  shows "acc w0 w'"
proof (cases handleErr)
  case (Some err)
  obtain at s1 w1 where t: "topLevelBatchRetryTime rt cap (Some err) s w = (at, s1, w1)"
    by (metis prod_cases3)
  have 1: "acc w w1"
    using t acc_refl [of w]
    by (auto simp: topLevelBatchRetryTime_def Let_def split: prod.splits option.splits dest!: acc_forward(1))
  define outcomes where "outcomes = map (\<lambda>job. \<lparr>bo_JobID = job_ID job, bo_Kind = BatchJobOutcomeDefer,
      bo_AvailableAt = at, bo_Reason = []\<rparr>) jobs"
  have "(w' = w) \<or> applyExecutionBatchOutcomes rt sv repo jobs outcomes c m s1 w1 = (e, m', s', w')"
    using assms(1) by (auto simp: finishExecutionBatch_def Some t outcomes_def split: if_splits)
  moreover have "acc w1 w'" if "applyExecutionBatchOutcomes rt sv repo jobs outcomes c m s1 w1 = (e, m', s', w')"
    using that acc_refl acc_okD [OF 1 assms(3)] repo
    by (rule apply_outcomes_acc) (auto simp: outcomes_def)
  ultimately show ?thesis
    using assms(2) 1 by (auto intro: acc_trans)
next
  case None
  show ?thesis
  proof (cases "validateBatchResult (batch_items jobs) result")
    case (Inl err)
    then show ?thesis
      using assms(1,2) by (simp add: finishExecutionBatch_def None)
  next
    case (Inr errs)
    obtain now w1 where t: "time_Now rt w = (now, w1)"
      by (cases "time_Now rt w")
    have 1: "acc w w1"
      by (rule now_acc [OF t])
    obtain d s2 where items: "item_outcomes rt sv cap handler now (zip jobs errs) (resetBatchRetryStreak cap s) = (d, s2)"
      by (cases "item_outcomes rt sv cap handler now (zip jobs errs) (resetBatchRetryStreak cap s)")
    show ?thesis
    proof (cases d)
      case (Inl err)
      then show ?thesis
        using assms(1,2) 1 items Inr t by (auto simp: finishExecutionBatch_def None intro: acc_trans)
    next
      case d: (Inr outcomes)
      have "applyExecutionBatchOutcomes rt sv repo jobs outcomes c m s2 w1 = (e, m', s', w')"
        using assms(1) items Inr t d by (simp add: finishExecutionBatch_def None)
      then have "acc w1 w'"
        using acc_refl acc_okD [OF 1 assms(3)] repo
      proof (rule apply_outcomes_acc)
        fix out
        assume "out \<in> set outcomes" "bo_Kind out = BatchJobOutcomeSuccess"
        then obtain job where job: "(job, None) \<in> set (zip jobs errs)" "bo_JobID out = job_ID job"
          using item_outcomes_success items d by blast
        then have "(\<lparr>bi_JobID = job_ID job, bi_Payload = job_Payload job, bi_Attempt = job_Attempts job\<rparr>, None) \<in>
            set (zip (batch_items jobs) errs)"
          by (auto simp: batch_items_def zip_map1)
        then obtain x where "x \<in> set result" "br_JobID x = job_ID job" "br_Err x = None"
          using validateBatchResult_success [OF Inr] by fastforce
        then show "bo_JobID out \<in> succ w1"
          using fin [OF None] job(2) accounted_succ [OF 1 assms(3)] by metis
      qed
      then show ?thesis
        using assms(2) 1 by (blast intro: acc_trans)
    qed
  qed
qed

end

section \<open>Workers\<close>

context delivery
begin

lemma abandon_acc:
  "abandon_batch rt sv err m w = (e, w') \<Longrightarrow> acc w0 w \<Longrightarrow> acc w0 w'"
  "interrupt_batch rt sv err m w = (e, w') \<Longrightarrow> acc w0 w \<Longrightarrow> acc w0 w'"
  by (auto simp: abandon_batch_def interrupt_batch_def split: prod.splits
      dest!: forget_acc releaseUnstarted_acc)

lemma run_batch_acc:
  assumes "run_execution_batch rt str sv repo cap (reg_job reg) filled m s w = (e, s', w')" "acc w0 w" "ok w0"
    and reg: "map_of (sv_batchJobs sv) cap = Some reg" and repo: "asBatchJobsRepository (jobsRepo sv) = Some repo"
  shows "acc w0 w'"
proof -
  define jobs where "jobs = sortExecutionBatchJobs str filled"
  obtain e1 m1 w1 where a: "admit rt (jobsRepo sv) BatchCtx m w = (e1, m1, w1)"
    by (metis prod_cases3)
  have 1: "acc w0 w1"
    using a assms(2) by (rule admit_acc)
  obtain result e2 m2 w2 where x: "executeBatchHandler rt (jobsRepo sv) (reg_job reg) (batch_items jobs) BatchCtx m1 w1 = ((result, e2), m2, w2)"
    by (metis prod_cases3 surj_pair)
  have 2: "acc w0 w2" "e2 = None \<longrightarrow> (\<forall>x \<in> set result. br_Err x = None \<longrightarrow> br_JobID x \<in> succ w2)"
    using executeBatchHandler_acc [OF x reg acc_okD [OF 1 assms(3)]] 1 by (auto intro: acc_trans)
  obtain e3 m3 w3 where l: "LockContext rt (jobsRepo sv) BatchCtx m2 w2 = (e3, m3, w3)"
    by (metis prod_cases3)
  have 3: "acc w0 w3" "acc w2 w3" "ok w2" "ok w3"
    using LockContext_acc [OF l 2(1)] LockContext_acc [OF l acc_refl] 2 assms(3) by (auto intro: acc_okD)
  obtain e4 m4 s4 w4 where f: "finishExecutionBatch rt sv repo cap (reg_job reg) jobs (batch_items jobs) result e2 RunCtx m3 s w3 = (e4, m4, s4, w4)"
    by (metis prod_cases4)
  have 4: "acc w0 w4"
    using f 3(1,4) repo by (rule finish_acc) (use 2(2) 3 in \<open>blast intro: accounted_succ\<close>)
  show ?thesis
    using assms(1) 1 3(1) 4
    by (auto simp: run_execution_batch_def Let_def jobs_def [symmetric] a x l f
        split: option.splits prod.splits if_splits dest!: abandon_acc forget_acc(2,3) releaseUnstarted_acc)
qed

lemma findAndProcessExecutionBatch_acc:
  assumes "findAndProcessExecutionBatch rt str sv cap s w = Some (r, s', w')" "acc w0 w" "ok w0"
  shows "acc w0 w'"
proof (cases "map_of (sv_batchJobs sv) cap")
  case None
  then show ?thesis
    using assms(1,2) by (auto simp: findAndProcessExecutionBatch_def split: prod.splits dest: observe_acc(2))
next
  case reg: (Some reg)
  show ?thesis
  proof (cases "asBatchJobsRepository (jobsRepo sv)")
    case None
    then show ?thesis
      using assms(1,2) reg
      by (auto simp: findAndProcessExecutionBatch_def split: prod.splits dest: observe_acc(2))
  next
    case repo: (Some repo)
    show ?thesis
      using assms(1,2)
      by (auto simp: findAndProcessExecutionBatch_def reg repo Let_def
          split: prod.splits sum.splits option.splits if_splits
          dest!: initial_acc [OF _ _ repo] fillExecutionBatch_acc [OF _ _ repo]
            run_batch_acc [OF _ _ assms(3) reg repo] abandon_acc(1) observe_acc(2))
  qed
qed

lemma try_batches_acc:
  assumes "try_batches rt str sv caps start offsets cursor s w = Some (r, n, s', w')" "acc w0 w" "ok w0"
  shows "acc w0 w'"
  using assms(1,2)
proof (induction offsets arbitrary: s w)
  case (Cons offset offsets)
  then show ?case
    by (auto simp: Let_def split: prod.splits if_splits option.splits
        dest!: acc_forward(1) findAndProcessExecutionBatch_acc [OF _ _ assms(3)])
qed simp

lemma batch_attempt_acc:
  assumes "batch_attempt rt str sv caps sched s w = Some (r, sched', s', w')" "acc w0 w" "ok w0"
  shows "acc w0 w'"
  using assms(1,2)
  by (auto simp: batch_attempt_def processOneAvailableBatch_def Let_def split: option.splits prod.splits if_splits
      dest!: try_batches_acc [OF _ _ assms(3)])

lemma single_acc:
  assumes "processOneAvailableSingle rt sv caps s w = (r, s', w')" "acc w0 w" "ok w0"
  shows "acc w0 w'"
  using assms(1,2)
  by (auto simp: processOneAvailableSingle_def split: if_splits prod.splits option.splits
      dest!: findAndProcessBatch_acc [OF _ _ assms(3)])

lemma worker_work_acc:
  assumes "processWorkerWork rt str sv single batch sched s w = Some (r, sched', s', w')" "acc w0 w" "ok w0"
  shows "acc w0 w'"
  using assms(1,2)
  by (auto simp: processWorkerWork_def split: option.splits prod.splits if_splits
      dest!: single_acc [OF _ _ assms(3)] batch_attempt_acc [OF _ _ assms(3)])

lemma worker_turn_acc:
  assumes "worker_turn rt str sv single batch sched s w = Some (r, s', w')" "acc w0 w" "ok w0"
  shows "acc w0 w'"
  using assms(1,2)
  by (auto simp: worker_turn_def waitForWorker_def split: prod.splits bool.splits option.splits if_splits wake.splits
      dest!: acc_forward(2,3,6) worker_work_acc [OF _ _ assms(3)])

lemma runWorker_acc:
  assumes "runWorker rt str sv single batch sched s w = Some (r, s', w')" "ok w"
  shows "acc w w'"
  using assms(1) acc_refl
  by (rule runWorker_invariant [where I = "acc w"]) (rule worker_turn_acc [OF _ _ assms(2)])

end

end
