(* ===== verification/Service_Termination.thy ===== *)
theory Service_Termination
  imports Service_Delivery
begin

text \<open>
  A turn of a worker ends. The only loop that could run for ever is the one that collects an execution
  batch; what it relies on is the locale \<open>clocked\<close>: the clock never goes back, and a timer that fires
  has let its time pass. Every round that goes on has then added a job or used up a part of the fill
  window.
\<close>

section \<open>The interface\<close>

text \<open>A lower bound of the clock is kept by everything a worker calls: as accounting with no jobs to account
  for.\<close>

locale clocked =
  fixes rt :: "'w runtime" and sv :: "'w Service" and clock :: "'w \<Rightarrow> time"
  assumes keeps: "delivery rt sv (\<lambda>_. {}) (\<lambda>_. UNIV) (\<lambda>_. UNIV) (\<lambda>w. t0 \<le> clock w) (\<lambda>w. t0 \<le> clock w)"
    and reads: "time_Now rt w = (t, w') \<Longrightarrow> clock w \<le> t \<and> t \<le> clock w'"
    and fires: "timer_wait rt c d w = (WokeTimer, w') \<Longrightarrow> clock w + d \<le> clock w'"
begin

lemma round_clock:
  assumes "asBatchJobsRepository (jobsRepo sv) = Some repo"
    and "fill_round rt sv repo c cap config deadline jobs used m w = (r, m', w')"
  shows "clock w \<le> clock w'"
  using delivery.fill_round_acc [OF keeps assms(2) accounted_refl assms(1), of "clock w"]
  by (simp add: accounted_def)

lemma window_clock:
  assumes "asBatchJobsRepository (jobsRepo sv) = Some repo"
    and "claimExecutionBatchWithinFillWindow rt sv repo c cap token limits deadline m w = (r, m', w')"
  shows "clock w \<le> clock w'"
  using delivery.window_acc [OF keeps assms(2) accounted_refl assms(1), of "clock w"]
  by (simp add: accounted_def)

end

section \<open>Progress of a round\<close>

text \<open>The part of the fill window that is left, in polls.\<close>

definition polls_left :: "time \<Rightarrow> time \<Rightarrow> nat" where
  "polls_left deadline now = nat ((deadline - now + batchFillPollInterval - 1) div batchFillPollInterval)"

lemma polls_left_mono: "now \<le> now' \<Longrightarrow> polls_left deadline now' \<le> polls_left deadline now"
  by (auto simp: polls_left_def batchFillPollInterval_def millisecond_def intro!: nat_mono zdiv_mono1)

lemma polls_left_wait:
  assumes "now < deadline" "now + min (deadline - now) batchFillPollInterval \<le> now'"
  shows "polls_left deadline now' < polls_left deadline now"
proof -
  let ?p = "batchFillPollInterval"
  have p: "0 < ?p" by (simp add: batchFillPollInterval_def millisecond_def)
  have "1 \<le> (deadline - now + ?p - 1) div ?p"
    using assms(1) p by (simp add: pos_imp_zdiv_pos_iff int_one_le_iff_zero_less)
  moreover have "(deadline - now' + ?p - 1) div ?p < (deadline - now + ?p - 1) div ?p"
  proof (cases "deadline - now \<le> ?p")
    case True
    then have "deadline - now' + ?p - 1 < ?p"
      using assms(2) by simp
    then have "(deadline - now' + ?p - 1) div ?p \<le> 0"
      using p zdiv_mono1 [of "deadline - now' + ?p - 1" "?p - 1" ?p] by (simp add: div_pos_pos_trivial)
    then show ?thesis
      using calculation by linarith
  next
    case False
    then have "deadline - now' + ?p - 1 \<le> (deadline - now + ?p - 1) + (- 1) * ?p"
      using assms(2) by simp
    then have "(deadline - now' + ?p - 1) div ?p \<le> ((deadline - now + ?p - 1) + (- 1) * ?p) div ?p"
      by (rule zdiv_mono1) (rule p)
    also have "\<dots> = (deadline - now + ?p - 1) div ?p - 1"
      using p div_mult_self1 [of ?p "deadline - now + ?p - 1" "- 1"] by simp
    finally show ?thesis by simp
  qed
  ultimately show ?thesis
    by (simp add: polls_left_def)
qed

text \<open>A claim that succeeds returns a job.\<close>

lemma claimed_not_empty:
  "claimExecutionBatchWithinFillWindow rt sv repo c cap token limits deadline m w = (FillClaimed jobs, m', w') \<Longrightarrow> jobs \<noteq> []"
  by (auto simp: claimExecutionBatchWithinFillWindow_def claimExecutionBatchForFill_def
      claimExecutionBatchSingletonWithToken_def claimExecutionBatchBoundedWithToken_def
      validateClaimedExecutionBatch_def Let_def
      split: prod.splits if_splits sum.splits option.splits)

lemma take_all: "selectBatchPayloadLimitWithUsed jobs maxBytes used = (selected, []) \<Longrightarrow> selected = jobs"
  by (induction jobs arbitrary: used selected) (auto simp: Let_def split: if_splits prod.splits)

lemma fill_take_more:
  "fill_take rt sv c config claimed jobs used m w = (FillMore jobs' used', m', w') \<Longrightarrow> claimed \<noteq> [] \<Longrightarrow>
   length jobs < length jobs'"
  by (auto simp: fill_take_def Let_def split: prod.splits option.splits if_splits dest!: take_all)

context clocked
begin

lemma fill_wait_more:
  assumes "fill_wait rt sv c deadline jobs used m w = (FillMore jobs' used', m', w')"
  shows "jobs' = jobs \<and> polls_left deadline (clock w') < polls_left deadline (clock w)"
proof -
  obtain now w1 where t: "time_Now rt w = (now, w1)" by (cases "time_Now rt w")
  let ?d = "min (deadline - now) batchFillPollInterval"
  have pos: "0 < deadline - now" and fired: "timer_wait rt c ?d w1 = (WokeTimer, w')" and "jobs' = jobs"
    using assms by (auto simp: fill_wait_def Let_def t split: prod.splits if_splits wake.splits)
  have "now + ?d \<le> clock w'"
    using fires [OF fired] reads [OF t] by linarith
  then have "polls_left deadline (clock w') < polls_left deadline now"
    using pos by (intro polls_left_wait) auto
  also have "\<dots> \<le> polls_left deadline (clock w)"
    using reads [OF t] by (intro polls_left_mono) auto
  finally show ?thesis using \<open>jobs' = jobs\<close> by simp
qed

text \<open>The measure of the loop: the room left in the batch and in the window.\<close>

lemma fill_round_more:
  assumes repo: "asBatchJobsRepository (jobsRepo sv) = Some repo"
    and "fill_round rt sv repo c cap config deadline jobs used m w = (FillMore jobs' used', m', w')"
  shows "nat (bc_MaxMessages config - int (length jobs')) + polls_left deadline (clock w') <
    nat (bc_MaxMessages config - int (length jobs)) + polls_left deadline (clock w)"
proof -
  obtain now w1 where t: "time_Now rt w = (now, w1)" by (cases "time_Now rt w")
  let ?l = "\<lparr>bl_MaxMessages = bc_MaxMessages config - int (length jobs), bl_MaxBytes = bc_MaxBytes config - used\<rparr>"
  obtain x m2 w2 where x: "claimExecutionBatchWithinFillWindow rt sv repo c cap (bm_leaseToken m) ?l deadline m w1 = (x, m2, w2)"
    by (metis prod_cases3)
  have room: "int (length jobs) < bc_MaxMessages config"
    using assms(2) by (simp add: fill_round_def split: if_splits)
  have "clock w \<le> clock w2"
    using reads [OF t] window_clock [OF repo x] by linarith
  then have p2: "polls_left deadline (clock w2) \<le> polls_left deadline (clock w)"
    by (rule polls_left_mono)
  have "clock w \<le> clock w'"
    using repo assms(2) by (rule round_clock)
  then have p': "polls_left deadline (clock w') \<le> polls_left deadline (clock w)"
    by (rule polls_left_mono)
  have "fill_wait rt sv c deadline jobs used m2 w2 = (FillMore jobs' used', m', w') \<or>
      (\<exists>claimed. x = FillClaimed claimed \<and> fill_take rt sv c config claimed jobs used m2 w2 = (FillMore jobs' used', m', w'))"
    using assms(2) by (auto simp: fill_round_def t x split: if_splits fill_claim.splits)
  then show ?thesis
  proof (elim disjE exE conjE)
    assume "fill_wait rt sv c deadline jobs used m2 w2 = (FillMore jobs' used', m', w')"
    then show ?thesis
      using fill_wait_more p2 by fastforce
  next
    fix claimed
    assume c: "x = FillClaimed claimed" "fill_take rt sv c config claimed jobs used m2 w2 = (FillMore jobs' used', m', w')"
    have "length jobs < length jobs'"
      using c(2) claimed_not_empty [OF x [unfolded c(1)]] by (rule fill_take_more)
    then have "nat (bc_MaxMessages config - int (length jobs')) < nat (bc_MaxMessages config - int (length jobs))"
      using room by linarith
    then show ?thesis
      using p' by linarith
  qed
qed

lemma fill_loop_ends:
  assumes repo: "asBatchJobsRepository (jobsRepo sv) = Some repo"
  shows "\<exists>r. fill_loop rt sv repo c cap config deadline jobs used m w = Some r"
proof (induction "nat (bc_MaxMessages config - int (length jobs)) + polls_left deadline (clock w)"
    arbitrary: jobs used m w rule: less_induct)
  case less
  obtain x m1 w1 where x: "fill_round rt sv repo c cap config deadline jobs used m w = (x, m1, w1)"
    by (metis prod_cases3)
  show ?case
  proof (cases x)
    case (FillDone e jobs')
    then show ?thesis by (simp add: fill_loop.simps x)
  next
    case (FillMore jobs' used')
    then show ?thesis
      using less fill_round_more [OF repo] x by (simp add: fill_loop.simps [of _ _ _ _ _ _ _ jobs])
  qed
qed

lemma fill_ends:
  "asBatchJobsRepository (jobsRepo sv) = Some repo \<Longrightarrow>
   fillExecutionBatch rt sv repo c cap config initial m w = None \<longleftrightarrow> False"
  using fill_loop_ends [of repo] by (auto simp: fillExecutionBatch_def Let_def split: prod.splits)

lemma execution_batch_ends: "findAndProcessExecutionBatch rt str sv cap s w = None \<longleftrightarrow> False"
  by (auto simp: findAndProcessExecutionBatch_def Let_def fill_ends
      split: option.splits sum.splits prod.splits if_splits)

lemma try_batches_ends: "try_batches rt str sv caps start offsets cursor s w = None \<longleftrightarrow> False"
  by (induction offsets arbitrary: s w)
     (simp_all add: Let_def execution_batch_ends split: prod.split option.split)

lemma batch_attempt_ends: "batch_attempt rt str sv caps sched s w = None \<longleftrightarrow> False"
  by (auto simp: batch_attempt_def processOneAvailableBatch_def Let_def try_batches_ends
      split: option.splits prod.splits if_splits)

lemma worker_work_ends: "processWorkerWork rt str sv single batch sched s w = None \<longleftrightarrow> False"
  by (auto simp: processWorkerWork_def batch_attempt_ends split: option.splits prod.splits if_splits)

lemma worker_turn_ends: "\<exists>r. worker_turn rt str sv single batch sched s w = Some r"
  by (cases "worker_turn rt str sv single batch sched s w")
     (auto simp: worker_turn_def worker_work_ends split: prod.splits option.splits bool.splits if_splits)

end

end
