(* ===== verification/Sqlite_Delivery.thy ===== *)
theory Sqlite_Delivery
  imports Service_Delivery Sqlite_Jobs Sqlite_Failed
begin

text \<open>
  The SQLite repositories under the workers. The host of the service is concrete but for its choices:
  a feed of numbers decides how the clock advances, when contexts are cancelled, when the drain channel
  is closed, how often the heartbeat runs and what the handlers answer; the database adds its driver
  failures. The interface \<open>delivery\<close> holds for every feed, every list of failures and every handler.
\<close>

section \<open>What the database keeps\<close>

definition stored :: "'a sqlite_scheme \<Rightarrow> 'a sqlite_scheme \<Rightarrow> bool" where
  "stored w w' \<longleftrightarrow>
     db_in_tx w' = db_in_tx w \<and> sqlite.more w' = sqlite.more w \<and> db_failed w' = db_failed w \<and>
     r_id ` set (db_jobs w) \<subseteq> r_id ` set (db_jobs w')"

lemma stored_refl [simp]: "stored w w"
  by (simp add: stored_def)

lemma stored_trans: "stored w1 w2 \<Longrightarrow> stored w2 w3 \<Longrightarrow> stored w1 w3"
  by (auto simp: stored_def)

lemma stored_faults [simp]: "stored w (w\<lparr>db_faults := F\<rparr>)"
  by (simp add: stored_def)

lemma update_stored:
  "update_jobs p f w = (r, w') \<Longrightarrow> (\<And>x. r_id (f x) = r_id x) \<Longrightarrow> stored w w'"
proof (erule update_jobs_cases)
  fix F
  assume f: "\<And>x. r_id (f x) = r_id x" and w': "w' = w\<lparr>db_faults := F, db_jobs := sql_update p f (db_jobs w)\<rparr>"
  have "set (map r_id (sql_update p f (db_jobs w))) = set (map r_id (db_jobs w))"
    using f by (simp only: map_sql_update)
  then show "stored w w'"
    by (simp add: w' stored_def)
qed simp

lemma select_stored: "exec_stmt (\<lambda>w. (Inr (f w), w)) w = (r, w') \<Longrightarrow> stored w w'"
  by (erule exec_stmt_cases) auto

lemma control_stored: "control_stmt w = (r, w') \<Longrightarrow> stored w w'"
  by (erule control_stmt_cases) auto

text \<open>A transaction whose work keeps the stored jobs keeps them, committed or rolled back.\<close>

lemma ended_stored:
  assumes "\<not> db_in_tx w" "stored (w\<lparr>db_faults := F, db_in_tx := True\<rparr>) v"
  shows "stored w (with_tables w (v\<lparr>db_faults := G, db_lost_commits := L\<rparr>))"
    "stored w (v\<lparr>db_faults := G, db_lost_commits := L, db_in_tx := False\<rparr>)"
  using assms by (simp_all add: stored_def with_tables_def)

lemma withImmediate_stored:
  assumes "withImmediateTransaction work w = (r, w')"
    and work: "\<And>v x v'. work v = (x, v') \<Longrightarrow> stored v v'"
  shows "stored w w'"
proof (cases "db_in_tx w")
  case True
  then show ?thesis
    using assms by (simp add: withImmediateTransaction_def)
next
  case False
  from assms(1) show ?thesis
    by (rule withImmediateTransaction_world [OF _ False]) (auto simp: ended_stored [OF False] dest!: work)
qed

lemma RunInTx_stored:
  assumes "sqlite_RunInTx fn w = (r, w')" and work: "\<And>v x v'. fn v = (x, v') \<Longrightarrow> stored v v'"
  shows "stored w w'"
proof (cases "db_in_tx w")
  case True
  then show ?thesis
    using assms by (simp add: sqlite_RunInTx_def)
next
  case False
  from assms(1) show ?thesis
    by (rule sqlite_RunInTx_world [OF _ False]) (auto simp: ended_stored [OF False] dest!: work)
qed

section \<open>The repository\<close>

lemma claim_executor_stored:
  "findAndReserveBatchWithExecutor str now until token caps limit w = (r, w') \<Longrightarrow> stored w w'"
  by (auto simp: findAndReserveBatchWithExecutor_def Let_def split: prod.splits sum.splits if_splits
      dest!: select_stored update_stored [OF _ take_lease_simps(1)] intro: stored_trans)

lemma bounded_executor_stored:
  "findAndReserveBatchBoundedWithExecutor str now until token cap limits w = (r, w') \<Longrightarrow> stored w w'"
  by (auto simp: findAndReserveBatchBoundedWithExecutor_def Let_def split: prod.splits sum.splits if_splits
      dest!: select_stored update_stored [OF _ take_lease_simps(1)] intro: stored_trans)

lemma claims_stored:
  "sqlite_FindAndReserveJobsForCapabilities str now until token caps limit w = (r, w') \<Longrightarrow> stored w w'"
  by (auto simp: sqlite_FindAndReserveJobsForCapabilities_def findAndReserveBatch_def
      split: if_splits option.splits dest!: withImmediate_stored [OF _ claim_executor_stored])

lemma bounded_stored:
  "sqlite_FindAndReserveJobsForCapabilityBounded str now until token cap limits w = (r, w') \<Longrightarrow> stored w w'"
  by (auto simp: sqlite_FindAndReserveJobsForCapabilityBounded_def
      split: if_splits option.splits dest!: withImmediate_stored [OF _ bounded_executor_stored])

lemma leases_stored:
  "sqlite_ExtendJobLeases jobIDs token now until w = (k, w') \<Longrightarrow> stored w w'"
  "sqlite_ReleaseUnstartedJobsWithLease jobIDs token now w = (k, w') \<Longrightarrow> stored w w'"
  "sqlite_RescheduleJobWithLease i token now at w = (k, w') \<Longrightarrow> stored w w'"
  by (auto simp: sqlite_ExtendJobLeases_def sqlite_ReleaseUnstartedJobsWithLease_def
      sqlite_RescheduleJobWithLease_def split: option.splits if_splits dest!: update_stored)

text \<open>Deleting takes away the named job only, and outcomes only the jobs with a terminal one.\<close>

definition stored_but :: "JobID set \<Rightarrow> 'a sqlite_scheme \<Rightarrow> 'a sqlite_scheme \<Rightarrow> bool" where
  "stored_but gone w w' \<longleftrightarrow>
     db_in_tx w' = db_in_tx w \<and> sqlite.more w' = sqlite.more w \<and> db_failed w' = db_failed w \<and>
     r_id ` set (db_jobs w) - gone \<subseteq> r_id ` set (db_jobs w')"

lemma delete_stored:
  "delete_jobs p w = (r, w') \<Longrightarrow> (\<And>x. p x \<Longrightarrow> r_id x \<in> gone) \<Longrightarrow> stored_but gone w w'"
  by (erule delete_jobs_cases) (auto simp: stored_but_def)

lemma delete_job_stored: "sqlite_DeleteJobWithLease i token now w = (r, w') \<Longrightarrow> stored_but {i} w w'"
  by (auto simp: sqlite_DeleteJobWithLease_def stored_but_def split: if_splits option.splits
      dest: delete_stored [where gone = "{i}"] elim!: delete_jobs_cases)

lemma stored_but_then: "stored_but gone w1 w2 \<Longrightarrow> stored w2 w3 \<Longrightarrow> stored_but gone w1 w3"
  by (simp add: stored_but_def stored_def) (meson order_trans)

lemma stored_imp_but: "stored w w' \<Longrightarrow> stored_but gone w w'"
  by (auto simp: stored_but_def stored_def)

lemma apply_delay_id: "r_id (apply_delay outcomes r) = r_id r"
  by (simp add: apply_delay_def split: option.splits)

lemma outcomes_tx_stored:
  "apply_outcomes_tx token now outcomes w = (e, w') \<Longrightarrow> stored_but (outcome_ids is_terminal outcomes) w w'"
  by (auto simp: apply_outcomes_tx_def deleteBatchTerminalOutcomes_def updateBatchRetryOutcomes_def
      split: prod.splits sum.splits if_splits
      dest!: delete_stored [where gone = "outcome_ids is_terminal outcomes"] update_stored [OF _ apply_delay_id]
      intro: stored_but_then)

text \<open>Inside a transaction of the caller, which is how the service applies outcomes.\<close>

lemma outcomes_stored:
  assumes "sqlite_ApplyBatchJobOutcomes token now outcomes w = (k, w')" "db_in_tx w"
  shows "stored_but (outcome_ids is_terminal outcomes) w w'"
  using assms
  by (auto simp: sqlite_ApplyBatchJobOutcomes_def sqlite_RunInTx_def stored_imp_but
      split: option.splits prod.splits dest: outcomes_tx_stored)

lemma defer_stored:
  assumes "sqlite_DeferJobWithLease i token now at w = (k, w')"
  shows "stored w w'"
proof -
  let ?o = "[\<lparr>bo_JobID = i, bo_Kind = BatchJobOutcomeDefer, bo_AvailableAt = at, bo_Reason = []\<rparr>]"
  have "outcome_ids is_terminal ?o = {}"
    by (auto simp: outcome_ids_def is_terminal_def)
  then have "stored v v'" if "apply_outcomes_tx token now ?o v = (x, v')" for v x v'
    using outcomes_tx_stored [OF that] by (simp add: stored_but_def stored_def)
  then show ?thesis
    using assms by (auto simp: sqlite_DeferJobWithLease_def sqlite_ApplyBatchJobOutcomes_def
        split: option.splits prod.splits dest!: RunInTx_stored)
qed

section \<open>The host\<close>

record host = sqlite +
  ho_clock :: time
  ho_done :: "JobID set"
  ho_feed :: "nat list"

definition draw :: "host \<Rightarrow> nat \<times> host" where
  "draw w = (case ho_feed w of [] \<Rightarrow> (0, w) | n # ns \<Rightarrow> (n, w\<lparr>ho_feed := ns\<rparr>))"

definition host_runtime :: "(error \<Rightarrow> string) \<Rightarrow> host runtime" where
  "host_runtime txt =
     \<lparr>time_Now = (\<lambda>w. case draw w of (n, w) \<Rightarrow> (ho_clock w + int n, w\<lparr>ho_clock := ho_clock w + int n\<rparr>)),
      context_Cause = (\<lambda>c w. case draw w of (n, w) \<Rightarrow>
        (if n = 1 then Some (Sentinel Context_Canceled)
         else if n = 2 then Some (Sentinel Context_DeadlineExceeded) else None, w)),
      drain_closed = (\<lambda>w. case draw w of (n, w) \<Rightarrow> (n = 1, w)),
      uuid_New = (\<lambda>w. case draw w of (n, w) \<Rightarrow> (of_nat n, w)),
      heartbeat_ticks = draw,
      timer_wait = (\<lambda>c d w. case draw w of (n, w) \<Rightarrow>
        (if n = 1 then (WokeDone, w) else if n = 2 then (WokeDrain, w)
         else (WokeTimer, w\<lparr>ho_clock := ho_clock w + max 0 d\<rparr>))),
      err_Error = txt\<rparr>"

text \<open>A handler answers as it likes; its successes are recorded.\<close>

definition record_success :: "JobID set \<Rightarrow> host \<Rightarrow> host" where
  "record_success fin w = w\<lparr>ho_done := ho_done w \<union> fin\<rparr>"

definition recording ::
  "(ctx \<Rightarrow> string \<Rightarrow> nat \<Rightarrow> error option call) \<Rightarrow> ctx \<Rightarrow> string \<Rightarrow> host \<Rightarrow> error option call \<times> host" where
  "recording f c payload w =
     (let (n, w) = draw w; r = f c payload n
      in (r, if r = Returns None
             then record_success (case metadata_Value c of Some md \<Rightarrow> {md_ID md} | None \<Rightarrow> {}) w else w))"

definition recording_batch ::
  "(ctx \<Rightarrow> BatchJobItem list \<Rightarrow> nat \<Rightarrow> (BatchItemResult list \<times> error option) call) \<Rightarrow> ctx \<Rightarrow> BatchJobItem list \<Rightarrow>
   host \<Rightarrow> (BatchItemResult list \<times> error option) call \<times> host" where
  "recording_batch f c items w =
     (let (n, w) = draw w; r = f c items n
      in (r, case r of
               Returns (result, None) \<Rightarrow> record_success (br_JobID ` {x \<in> set result. br_Err x = None}) w
             | _ \<Rightarrow> w))"

text \<open>A service on the SQLite repositories whose handlers are such.\<close>

definition host_service ::
  "(error \<Rightarrow> string) \<Rightarrow> (uuid \<Rightarrow> string) \<Rightarrow> host Options \<Rightarrow>
   (JobCapability \<times> int \<times> duration \<times> (ctx \<Rightarrow> string \<Rightarrow> nat \<Rightarrow> error option call)) list \<Rightarrow>
   (JobCapability \<times> BatchConfig \<times> int \<times> duration \<times>
     (ctx \<Rightarrow> BatchJobItem list \<Rightarrow> nat \<Rightarrow> (BatchItemResult list \<times> error option) call)) list \<Rightarrow> host Service" where
  "host_service txt str opts singles batches =
     \<lparr>sv_Options = opts\<lparr>o_jobsRepo := Some (sqlite_repo str (host_runtime txt)),
        o_jobsFailedRepo := Some (\<lambda>_. sqlite_CreateFailedJobVersioned (host_runtime txt)),
        o_transactor := Some \<lparr>tr_RunInTx = \<lambda>_. sqlite_RunInTx, tr_SupportsAtomicDLQ = Some True\<rparr>\<rparr>,
      sv_jobs = map (\<lambda>(cap, attempts, timeout, f). (cap,
        \<lparr>h_Name = cap_Name cap, h_SchemaVersion = Some (cap_SchemaVersion cap), h_MaxAttempts = attempts,
         h_ExecutionTimeout = timeout, h_Handle = recording f\<rparr>)) singles,
      sv_batchJobs = map (\<lambda>(cap, config, attempts, timeout, f). (cap,
        \<lparr>reg_job = \<lparr>bh_Name = cap_Name cap, bh_SchemaVersion = Some (cap_SchemaVersion cap), bh_MaxAttempts = attempts,
          bh_ExecutionTimeout = timeout, bh_HandleBatch = recording_batch f\<rparr>, reg_config = config\<rparr>)) batches,
      sv_running = True, sv_ready = True, sv_drain = False\<rparr>"

definition job_ids :: "host \<Rightarrow> JobID set" where
  "job_ids w = r_id ` set (db_jobs w)"

definition dead_ids :: "host \<Rightarrow> JobID set" where
  "dead_ids w = f_job_id ` set (db_failed w)"

definition outside_tx :: "host \<Rightarrow> bool" where
  "outside_tx w \<longleftrightarrow> \<not> db_in_tx w"

lemma stored_accounted: "stored w w' \<Longrightarrow> accounted job_ids dead_ids ho_done outside_tx w w'"
  by (cases w; cases w') (auto simp: stored_def accounted_def job_ids_def dead_ids_def outside_tx_def)

lemma stored_but_accounted:
  assumes "stored_but gone w w'" "gone \<subseteq> ho_done w \<union> dead_ids w"
  shows "accounted job_ids dead_ids ho_done outside_tx w w'" "accounted job_ids dead_ids ho_done db_in_tx w w'"
  using assms by (cases w; cases w';
      auto simp: stored_but_def accounted_def job_ids_def dead_ids_def outside_tx_def)+

section \<open>The interface holds\<close>

text \<open>Steps of the process that leave the tables and the record of successes alone.\<close>

definition same_store :: "host \<Rightarrow> host \<Rightarrow> bool" where
  "same_store w w' \<longleftrightarrow> db_jobs w' = db_jobs w \<and> db_failed w' = db_failed w \<and> db_in_tx w' = db_in_tx w \<and> ho_done w' = ho_done w"

lemma same_accounted:
  assumes "same_store w w'"
  shows "accounted job_ids dead_ids ho_done outside_tx w w'" "accounted job_ids dead_ids ho_done db_in_tx w w'"
  using assms by (auto simp: same_store_def accounted_def job_ids_def dead_ids_def outside_tx_def)

lemma draw_same: "draw w = (n, w') \<Longrightarrow> same_store w w'"
  by (auto simp: draw_def same_store_def split: list.splits)

lemma runtime_same:
  "time_Now (host_runtime txt) w = (t, w') \<Longrightarrow> same_store w w'"
  "context_Cause (host_runtime txt) c w = (e, w') \<Longrightarrow> same_store w w'"
  "drain_closed (host_runtime txt) w = (b, w') \<Longrightarrow> same_store w w'"
  "uuid_New (host_runtime txt) w = (u, w') \<Longrightarrow> same_store w w'"
  "heartbeat_ticks (host_runtime txt) w = (n, w') \<Longrightarrow> same_store w w'"
  "timer_wait (host_runtime txt) c d w = (k, w') \<Longrightarrow> same_store w w'"
  by (auto simp: host_runtime_def split: prod.splits if_splits dest!: draw_same)
     (simp_all add: same_store_def)

lemma success_accounted:
  "accounted job_ids dead_ids ho_done outside_tx w w1 \<Longrightarrow>
   accounted job_ids dead_ids ho_done outside_tx w (record_success fin w1)"
  by (auto simp: accounted_def record_success_def job_ids_def dead_ids_def outside_tx_def)

lemma recording_accounted:
  assumes "recording f c payload w = (r, w')"
  shows "accounted job_ids dead_ids ho_done outside_tx w w'"
    "r = Returns None \<Longrightarrow> metadata_Value c = Some md \<Longrightarrow> md_ID md \<in> ho_done w'"
  using assms
  by (auto simp: recording_def record_success_def Let_def split: prod.splits if_splits
      dest!: draw_same same_accounted(1) intro: success_accounted [unfolded record_success_def])

lemma recording_batch_accounted:
  assumes "recording_batch f c items w = (r, w')"
  shows "accounted job_ids dead_ids ho_done outside_tx w w'"
    "r = Returns (result, None) \<Longrightarrow> res \<in> set result \<Longrightarrow> br_Err res = None \<Longrightarrow> br_JobID res \<in> ho_done w'"
proof -
  obtain n w1 where d: "draw w = (n, w1)" by (cases "draw w")
  have 1: "accounted job_ids dead_ids ho_done outside_tx w w1"
    using d by (rule same_accounted(1) [OF draw_same])
  have w': "w' = w1 \<or> (\<exists>fin. w' = record_success fin w1)"
    using assms d by (auto simp: recording_batch_def Let_def split: call.splits option.splits prod.splits)
  then show "accounted job_ids dead_ids ho_done outside_tx w w'"
    using 1 success_accounted [OF 1] by auto
  show "br_JobID res \<in> ho_done w'" if "r = Returns (result, None)" "res \<in> set result" "br_Err res = None"
    using assms d that by (auto simp: recording_batch_def record_success_def Let_def)
qed

lemma insert_failed_accounted:
  assumes "insert_failed row w = (k, w')"
  shows "accounted job_ids dead_ids ho_done db_in_tx w w' \<and> (\<forall>n. k = Inr n \<longrightarrow> f_job_id row \<in> dead_ids w')"
  using assms unfolding insert_failed_def
  by (cases rule: exec_stmt_cases)
     (auto simp: accounted_def job_ids_def dead_ids_def split: if_splits)

lemma failed_accounted:
  assumes "sqlite_CreateFailedJobVersioned (host_runtime txt) i nm version payload reason w = (x, w')"
  shows "accounted job_ids dead_ids ho_done db_in_tx w w' \<and> (\<forall>y. x = Inr y \<longrightarrow> i \<in> dead_ids w')"
proof (cases "JobCapability_Validate \<lparr>cap_Name = nm, cap_SchemaVersion = version\<rparr>")
  case (Some err)
  then show ?thesis
    using assms by (auto simp: sqlite_CreateFailedJobVersioned_def accounted_refl)
next
  case None
  obtain u w1 where u: "uuid_New (host_runtime txt) w = (u, w1)" by (cases "uuid_New (host_runtime txt) w")
  obtain t w2 where t: "time_Now (host_runtime txt) w1 = (t, w2)" by (cases "time_Now (host_runtime txt) w1")
  have 2: "accounted job_ids dead_ids ho_done db_in_tx w w2"
    using same_accounted(2) [OF runtime_same(4) [OF u]] same_accounted(2) [OF runtime_same(1) [OF t]]
    by (rule accounted_trans)
  define row where "row = \<lparr>f_id = JobID u, f_job_id = i, f_queue = ''queue'', f_name = nm, f_schema_version = version,
    f_payload = payload, f_reason = reason, f_failed_at = UnixMilli t, f_created_at = UnixMilli t,
    f_connection = [], f_exception = []\<rparr>"
  obtain k w3 where k: "insert_failed row w2 = (k, w3)" by (cases "insert_failed row w2")
  have "w' = w3" "x = Inr y \<Longrightarrow> \<exists>n. k = Inr n" for y
    using assms None u t k
    by (auto simp: sqlite_CreateFailedJobVersioned_def row_def [symmetric] split: sum.splits)
  then show ?thesis
    using insert_failed_accounted [OF k] accounted_trans [OF 2] by (auto simp: row_def)
qed

lemma RunInTx_accounted:
  assumes "sqlite_RunInTx f w = (e, w')"
    and "\<And>v d v'. f v = (d, v') \<Longrightarrow> db_in_tx v \<Longrightarrow> ho_done w \<subseteq> ho_done v \<Longrightarrow>
      accounted job_ids dead_ids ho_done db_in_tx v v'"
  shows "accounted job_ids dead_ids ho_done outside_tx w w'"
proof (cases "outside_tx w")
  case True
  then have out: "\<not> db_in_tx w"
    by (simp add: outside_tx_def)
  have v: "accounted job_ids dead_ids ho_done db_in_tx (w\<lparr>db_faults := F, db_in_tx := True\<rparr>) v"
    if "f (w\<lparr>db_faults := F, db_in_tx := True\<rparr>) = (x, v)" for F x v
    using that by (rule assms(2)) simp_all
  from assms(1) show ?thesis
  proof (cases rule: sqlite_RunInTx_world [OF _ out, consumes 1, case_names before undone kept])
    case (kept F w2 G L)
    show ?thesis
      using v [OF kept(1)] out by (simp add: kept(2) accounted_def job_ids_def dead_ids_def outside_tx_def)
  qed (use out in \<open>auto simp: accounted_def job_ids_def dead_ids_def outside_tx_def with_tables_def dest!: v\<close>)
next
  case False
  then show ?thesis by (simp add: accounted_def)
qed

lemma host_repos [simp]:
  "jobsRepo (host_service txt str opts singles batches) = sqlite_repo str (host_runtime txt)"
  "jobsFailedRepo (host_service txt str opts singles batches) = (\<lambda>_. sqlite_CreateFailedJobVersioned (host_runtime txt))"
  "transactor_RunInTx (host_service txt str opts singles batches) = (\<lambda>_. sqlite_RunInTx)"
  by (simp_all add: jobsRepo_def jobsFailedRepo_def transactor_RunInTx_def host_service_def)

lemma host_handlers:
  "map_of (sv_jobs (host_service txt str opts singles batches)) cap = Some j \<Longrightarrow> \<exists>f. h_Handle j = recording f"
  "map_of (sv_batchJobs (host_service txt str opts singles batches)) cap = Some reg \<Longrightarrow>
     \<exists>f. bh_HandleBatch (reg_job reg) = recording_batch f"
  by (auto simp: host_service_def dest!: map_of_SomeD) (rule exI, rule refl)+

lemmas runtime_accounted = runtime_same [THEN same_accounted(1)]

lemmas repo_accounted = claims_stored [THEN stored_accounted] bounded_stored [THEN stored_accounted]
  leases_stored [THEN stored_accounted] defer_stored [THEN stored_accounted]

lemma delete_accounted:
  assumes "sqlite_DeleteJobWithLease i token now w = (k, w')" "i \<in> ho_done w \<union> dead_ids w"
  shows "accounted job_ids dead_ids ho_done outside_tx w w'" "accounted job_ids dead_ids ho_done db_in_tx w w'"
  using stored_but_accounted [OF delete_job_stored [OF assms(1)]] assms(2) by simp_all

lemma outcomes_accounted:
  assumes "sqlite_ApplyBatchJobOutcomes token now outcomes w = (k, w')" "db_in_tx w"
    and "\<And>out. out \<in> set outcomes \<Longrightarrow> bo_Kind out = BatchJobOutcomeSuccess \<Longrightarrow> bo_JobID out \<in> ho_done w"
    and "\<And>out. out \<in> set outcomes \<Longrightarrow> bo_Kind out = BatchJobOutcomeDLQ \<Longrightarrow> bo_JobID out \<in> dead_ids w"
  shows "accounted job_ids dead_ids ho_done db_in_tx w w'"
  using assms(3,4)
  by (intro stored_but_accounted(2) [OF outcomes_stored [OF assms(1,2)]]) (auto simp: outcome_ids_def is_terminal_def)

interpretation host: delivery "host_runtime txt" "host_service txt str opts singles batches"
  job_ids dead_ids ho_done outside_tx db_in_tx
proof (unfold_locales, goal_cases)
  case 2 then show ?case by (rule same_accounted(2) [OF runtime_same(1)])
next
  case 13 then show ?case by (auto simp: sqlite_repo_def dest: delete_accounted(1))
next
  case 14 then show ?case by (auto simp: sqlite_repo_def dest: delete_accounted(2))
next
  case 15 then show ?case by (simp add: failed_accounted)
next
  case 16 then show ?case by simp (rule RunInTx_accounted)
next
  case 19 then show ?case by (auto simp: sqlite_repo_def sqlite_batch_repo_def intro: outcomes_accounted)
next
  case 20 then show ?case using host_handlers(1) recording_accounted(1) by metis
next
  case 21 then show ?case using host_handlers(1) recording_accounted(2) by metis
next
  case 22 then show ?case using host_handlers(2) recording_batch_accounted(1) by metis
next
  case 23 then show ?case using host_handlers(2) recording_batch_accounted(2) by metis
qed (auto simp: sqlite_repo_def sqlite_batch_repo_def sqlite_FindAndReserveJobsForCapability_def
    dest: runtime_accounted repo_accounted)

section \<open>Properties\<close>

text \<open>The points a worker passes between its turns.\<close>

inductive worker_reaches ::
  "'w runtime \<Rightarrow> (uuid \<Rightarrow> string) \<Rightarrow> 'w Service \<Rightarrow> JobCapability list \<Rightarrow> JobCapability list \<Rightarrow> 'w \<Rightarrow>
   workerSchedule \<Rightarrow> svc_state \<Rightarrow> 'w \<Rightarrow> bool"
  for rt str sv single batch w0 where
  starts: "worker_reaches rt str sv single batch w0 (initial_schedule i) no_state w0"
| turns: "worker_reaches rt str sv single batch w0 sched s w \<Longrightarrow>
    worker_turn rt str sv single batch sched s w = Some (WorkerContinues sched', s', w') \<Longrightarrow>
    worker_reaches rt str sv single batch w0 sched' s' w'"

lemma reaches_accounted:
  assumes "worker_reaches (host_runtime txt) str (host_service txt str opts singles batches) single batch w0 sched s w"
    and "\<not> db_in_tx w0"
  shows "accounted job_ids dead_ids ho_done outside_tx w0 w"
  using assms(1)
proof (induction rule: worker_reaches.induct)
  case (turns sched s w sched' s' w')
  show ?case
    by (rule host.worker_turn_acc [OF turns.hyps(2) turns.IH]) (simp add: outside_tx_def assms(2))
qed (rule accounted_refl)

text \<open>A database with one job, a handler that answers always the same, and two runs: one acknowledges the
  job, the other makes it a dead letter.\<close>

definition mail :: JobCapability where
  "mail = \<lparr>cap_Name = ''mail'', cap_SchemaVersion = 1\<rparr>"

definition sample_host :: "nat list \<Rightarrow> host" where
  "sample_host feed =
     \<lparr>db_jobs = [new_row (JobID 7) ''mail'' 1 ''hello'' None 0 0], db_keys = [], db_failed = [], db_in_tx = False,
      db_faults = [], db_lost_commits = [], ho_clock = 1000 * second, ho_done = {}, ho_feed = feed\<rparr>"

definition sample_service :: "error option \<Rightarrow> host Service" where
  "sample_service answer =
     host_service (\<lambda>_. ''boom'') sample_str default_Options [(mail, 1, second, \<lambda>_ _ _. Returns answer)] []"

definition summary :: "host \<Rightarrow> JobID list \<times> JobID list \<times> JobID set" where
  "summary w = (map r_id (db_jobs w), map f_job_id (db_failed w), ho_done w)"

lemma sample_acknowledged:
  "(case findAndProcessBatch (host_runtime (\<lambda>_. ''boom'')) (sample_service None) [mail] no_state (sample_host [0, 5]) of
      (e, s, w) \<Rightarrow> (e, summary w)) = (None, [], [], {JobID 7})"
  by code_simp

lemma sample_dead_letter:
  "(case worker_turn (host_runtime (\<lambda>_. ''boom'')) sample_str (sample_service (Some (ErrNew ''x''))) [mail] []
      (initial_schedule 0) no_state (sample_host [0, 0, 5]) of
      Some (WorkerContinues _, s, w) \<Rightarrow> Some (summary w) | _ \<Rightarrow> None) = Some ([], [JobID 7], {})"
  by code_simp

text \<open>C7. No job is lost by processing a reservation batch: whatever the handlers answer, however the clock,
  cancellation, the heartbeat and the drain interleave and whichever statements the driver fails, every
  job that was stored is afterwards still stored, or a handler has returned success for it, or it is a
  dead letter.\<close>

theorem reservation_batch_loses_no_job:
  assumes "\<not> db_in_tx w"
  shows "case findAndProcessBatch (host_runtime txt) (host_service txt str opts singles batches) capabilities s w of
      (err, s', w') \<Rightarrow> job_ids w \<subseteq> job_ids w' \<union> dead_ids w' \<union> ho_done w' \<and> dead_ids w \<subseteq> dead_ids w' \<and> \<not> db_in_tx w'"
proof -
  obtain e s' w' where run: "findAndProcessBatch (host_runtime txt) (host_service txt str opts singles batches)
      capabilities s w = (e, s', w')"
    using prod_cases3 by blast
  have "accounted job_ids dead_ids ho_done outside_tx w w'"
    by (rule host.findAndProcessBatch_acc [OF run accounted_refl]) (simp add: outside_tx_def assms)
  then show ?thesis
    using assms by (simp add: run accounted_def outside_tx_def)
qed

theorem reservation_batch_loses_no_job_witness:
  "\<not> db_in_tx (sample_host [0, 5]) \<and>
   (case findAndProcessBatch (host_runtime (\<lambda>_. ''boom'')) (sample_service None) [mail] no_state (sample_host [0, 5]) of
      (e, s, w) \<Rightarrow> summary w = ([], [], {JobID 7}) \<and>
        job_ids (sample_host [0, 5]) \<subseteq> job_ids w \<union> dead_ids w \<union> ho_done w)"
  using sample_acknowledged
    reservation_batch_loses_no_job [of "sample_host [0, 5]" "\<lambda>_. ''boom''" sample_str default_Options
      "[(mail, 1, second, \<lambda>_ _ _. Returns None)]" "[]" "[mail]" no_state]
  by (auto simp: sample_service_def [symmetric] sample_host_def split: prod.splits)

text \<open>C1. No worker loses a job: at every point between two turns of its loop, through any number of
  reservation and execution batches, every job that was stored when it started is still stored, or a
  handler has returned success for it, or it is a dead letter.\<close>

theorem worker_loses_no_job:
  assumes "worker_reaches (host_runtime txt) str (host_service txt str opts singles batches) single batch w0 sched s w"
    and "\<not> db_in_tx w0"
  shows "job_ids w0 \<subseteq> job_ids w \<union> dead_ids w \<union> ho_done w"
  using reaches_accounted [OF assms] assms(2) by (simp add: accounted_def outside_tx_def)

theorem worker_loses_no_job_witness:
  "\<exists>sched s w. worker_reaches (host_runtime (\<lambda>_. ''boom'')) sample_str (sample_service (Some (ErrNew ''x''))) [mail] []
       (sample_host [0, 0, 5]) sched s w \<and> summary w = ([], [JobID 7], {}) \<and>
     job_ids (sample_host [0, 0, 5]) \<subseteq> job_ids w \<union> dead_ids w \<union> ho_done w"
proof -
  obtain sched s w where turn: "worker_turn (host_runtime (\<lambda>_. ''boom'')) sample_str (sample_service (Some (ErrNew ''x'')))
      [mail] [] (initial_schedule 0) no_state (sample_host [0, 0, 5]) = Some (WorkerContinues sched, s, w)"
    and sum: "summary w = ([], [JobID 7], {})"
    using sample_dead_letter by (auto split: option.splits prod.splits worker_step.splits)
  have "worker_reaches (host_runtime (\<lambda>_. ''boom'')) sample_str (sample_service (Some (ErrNew ''x''))) [mail] []
      (sample_host [0, 0, 5]) sched s w"
    by (rule worker_reaches.turns [OF worker_reaches.starts turn])
  then show ?thesis
    using sum worker_loses_no_job [of "\<lambda>_. ''boom''" sample_str default_Options
        "[(mail, 1, second, \<lambda>_ _ _. Returns (Some (ErrNew ''x'')))]" "[]" "[mail]" "[]" "sample_host [0, 0, 5]" sched s w]
    by (auto simp: sample_service_def sample_host_def)
qed

end
