(* ===== verification/Lease_Ledger.thy ===== *)
theory Lease_Ledger
  imports Lease_Manager
begin

text \<open>
  The correctness of the lease ledger on its own, for every repository, clock and scheduler: its
  invariant through all methods, that leases are only ever prolonged, that a handler is admitted and
  a finalization runs only under leases that last long enough.
\<close>

section \<open>The invariant of the ledger\<close>

text \<open>Every outstanding job is known by its place in the batch, and \<open>bm_earliestUntil\<close> is a lower bound of
  the deadlines which is the zero time exactly when nothing is outstanding.\<close>

definition ledger_ok :: "manager \<Rightarrow> bool" where
  "ledger_ok m \<longleftrightarrow> distinct (map fst (bm_outstanding m)) \<and>
     fst ` set (bm_outstanding m) \<subseteq> set (bm_orderedIDs m) \<and>
     (bm_outstanding m = [] \<longleftrightarrow> bm_earliestUntil m = zero_time) \<and>
     (\<forall>(i, until) \<in> set (bm_outstanding m). zero_time < bm_earliestUntil m \<and> bm_earliestUntil m \<le> until)"

text \<open>What the methods that only prolong leases do to the ledger.\<close>

definition prolongs :: "manager \<Rightarrow> manager \<Rightarrow> bool" where
  "prolongs m m' \<longleftrightarrow> bm_leaseToken m' = bm_leaseToken m \<and> bm_reserveFor m' = bm_reserveFor m \<and>
     bm_orderedIDs m' = bm_orderedIDs m \<and>
     map fst (bm_outstanding m') = map fst (bm_outstanding m) \<and>
     (\<forall>i until. map_of (bm_outstanding m) i = Some until \<longrightarrow>
        (\<exists>until'. map_of (bm_outstanding m') i = Some until' \<and> until \<le> until')) \<and>
     (ledger_ok m \<longrightarrow> ledger_ok m')"

lemma prolongs_refl: "prolongs m m"
  by (auto simp: prolongs_def)

lemma prolongs_trans:
  assumes "prolongs m1 m2" "prolongs m2 m3"
  shows "prolongs m1 m3"
proof -
  have "\<exists>until'. map_of (bm_outstanding m3) i = Some until' \<and> until \<le> until'"
    if "map_of (bm_outstanding m1) i = Some until" for i until
    using assms that unfolding prolongs_def by (meson order_trans)
  then show ?thesis
    using assms by (simp add: prolongs_def)
qed

lemma prolongs_flags:
  "prolongs m (m\<lparr>bm_err := e\<rparr>)" "prolongs m (m\<lparr>bm_cause := c\<rparr>)" "prolongs m (m\<lparr>bm_running := b\<rparr>)"
  by (auto simp: prolongs_def ledger_ok_def)

lemma prolongs_cancelBatch: "prolongs m (cancelBatch err m)"
  by (simp add: cancelBatch_def prolongs_flags)

lemma prolongs_fail: "failLeaseLocked err m = (e, m') \<Longrightarrow> prolongs m m' \<and> e = Some err"
  using prolongs_trans [OF prolongs_flags(1) prolongs_cancelBatch] by (auto simp: failLeaseLocked_def)

lemma foldl_earlier:
  assumes "\<forall>u \<in> set us. zero_time < u"
  shows "us = [] \<and> foldl earlier zero_time us = zero_time \<or>
    us \<noteq> [] \<and> foldl earlier zero_time us \<in> set us \<and> (\<forall>u \<in> set us. foldl earlier zero_time us \<le> u)"
  using assms
proof (induction us rule: rev_induct)
  case (snoc u us)
  let ?r = "foldl earlier zero_time us"
  show ?case
  proof (cases "us = []")
    case False
    then have "?r \<in> set us" "\<forall>v \<in> set us. ?r \<le> v" "zero_time < ?r"
      using snoc by auto
    moreover have "earlier ?r u = (if u < ?r then u else ?r)"
      using calculation(3) unfolding earlier_def [of ?r u] time_IsZero_def by simp
    ultimately show ?thesis
      by auto
  qed (simp add: earlier_def time_IsZero_def)
qed simp

lemma earliest_ok:
  assumes "ledger_ok m" "set us = snd ` set (bm_outstanding m)"
  shows "ledger_ok (m\<lparr>bm_earliestUntil := foldl earlier zero_time us\<rparr>)"
proof -
  let ?r = "foldl earlier zero_time us"
  have pos: "\<forall>u \<in> set us. zero_time < u"
    using assms by (auto simp: ledger_ok_def)
  have empty: "us = [] \<longleftrightarrow> bm_outstanding m = []"
    using assms(2) by (metis image_is_empty set_empty)
  have "bm_outstanding m = [] \<longleftrightarrow> ?r = zero_time"
    using foldl_earlier [OF pos] pos empty by auto
  moreover have "zero_time < ?r \<and> ?r \<le> until" if "(i, until) \<in> set (bm_outstanding m)" for i until
  proof -
    have "until \<in> set us"
      using that assms(2) by force
    then show ?thesis
      using foldl_earlier [OF pos] pos by auto
  qed
  ultimately show ?thesis
    using assms(1) by (auto simp: ledger_ok_def)
qed

lemma prolongs_earliest:
  "(ledger_ok m \<Longrightarrow> set us = snd ` set (bm_outstanding m)) \<Longrightarrow>
   prolongs m (m\<lparr>bm_earliestUntil := foldl earlier zero_time us\<rparr>)"
  using earliest_ok by (auto simp: prolongs_def)

lemma prolongs_recompute: "prolongs m (recomputeEarliestLocked m)"
  unfolding recomputeEarliestLocked_def by (rule prolongs_earliest) simp

lemma prolongs_check: "checkLeasesLocked now m = (e, m') \<Longrightarrow> prolongs m m'"
  using prolongs_recompute prolongs_refl prolongs_fail
  by (auto simp: checkLeasesLocked_def split: if_splits)

text \<open>A check that passes has found every lease alive.\<close>

lemma check_alive:
  assumes "checkLeasesLocked now m = (None, m')" "ledger_ok m" "(i, until) \<in> set (bm_outstanding m)"
  shows "now < until"
  using assms by (auto simp: checkLeasesLocked_def failLeaseLocked_def ledger_ok_def list_ex_iff split: if_splits)

lemma check_bound:
  "checkLeasesLocked now m = (None, m') \<Longrightarrow> ledger_ok m \<Longrightarrow> bm_outstanding m \<noteq> [] \<Longrightarrow>
   now < bm_earliestUntil m' \<and> bm_outstanding m' = bm_outstanding m"
proof (cases "now < bm_earliestUntil m")
  case False
  assume a: "checkLeasesLocked now m = (None, m')" "ledger_ok m" "bm_outstanding m \<noteq> []"
  let ?us = "map snd (bm_outstanding m)"
  have "\<forall>u \<in> set ?us. zero_time < u"
    using a(2) by (auto simp: ledger_ok_def)
  then have "foldl earlier zero_time ?us \<in> set ?us"
    using foldl_earlier [of ?us] a(3) by simp
  moreover have "now < u" if "u \<in> set ?us" for u
    using that check_alive [OF a(1,2)] by auto
  ultimately have "now < foldl earlier zero_time ?us"
    by blast
  then show ?thesis
    using a(1) False by (auto simp: checkLeasesLocked_def failLeaseLocked_def recomputeEarliestLocked_def split: if_splits)
qed (simp add: checkLeasesLocked_def)

lemma prolongs_batch_Cause: "batch_Cause rt c m w = (e, m', w') \<Longrightarrow> prolongs m m'"
  using prolongs_cancelBatch prolongs_refl
  by (auto simp: batch_Cause_def split: if_splits prod.splits option.splits)

lemma prolongs_start: "batchStartError rt c m w = (e, m', w') \<Longrightarrow> prolongs m m'"
  by (auto simp: batchStartError_def split: prod.splits option.splits bool.splits dest: prolongs_batch_Cause)

lemma scan_outstanding_eq:
  "scan_outstanding outst requiredUntil ids jobIDs earliest =
     (jobIDs @ filter (\<lambda>i. \<exists>u. map_of outst i = Some u \<and> u < requiredUntil) ids,
      foldl earlier earliest (List.map_filter (map_of outst) ids))"
  by (induction ids arbitrary: jobIDs earliest) (auto simp: List.map_filter_simps split: option.splits)

lemma outstanding_values:
  assumes "ledger_ok m"
  shows "set (List.map_filter (map_of (bm_outstanding m)) (bm_orderedIDs m)) = snd ` set (bm_outstanding m)"
proof -
  have "map_of (bm_outstanding m) i = Some u \<longleftrightarrow> (i, u) \<in> set (bm_outstanding m)" for i u
    using assms by (simp add: ledger_ok_def)
  moreover have "set (List.map_filter f xs) = {y. \<exists>x \<in> set xs. f x = Some y}" for f :: "JobID \<Rightarrow> time option" and xs
    by (induction xs) (auto simp: List.map_filter_simps split: option.splits)
  moreover have "i \<in> set (bm_orderedIDs m)" if "(i, u) \<in> set (bm_outstanding m)" for i u
    using assms that by (auto simp: ledger_ok_def)
  ultimately show ?thesis
    by (auto simp: image_iff) (metis snd_conv)+
qed

text \<open>Setting a common, later deadline for some of the outstanding jobs.\<close>

lemma map_of_fold_update:
  "map_of (fold (\<lambda>i. AList.update i u) ids al) = (\<lambda>i. if i \<in> set ids then Some u else map_of al i)"
  by (induction ids arbitrary: al) (auto simp: update_conv')

lemma keys_fold_update:
  "set ids \<subseteq> fst ` set al \<Longrightarrow> map fst (fold (\<lambda>i. AList.update i u) ids al) = map fst al"
proof (induction ids arbitrary: al)
  case (Cons i ids)
  then have "map fst (AList.update i u al) = map fst al"
    by (simp add: update_keys)
  moreover from this have "set ids \<subseteq> fst ` set (AList.update i u al)"
    using Cons.prems by (metis list.set_map set_subset_Cons subset_trans)
  ultimately show ?case
    using Cons.IH by simp
qed simp

lemma set_from_map_of:
  "distinct (map fst al) \<Longrightarrow> (i, u) \<in> set al \<longleftrightarrow> map_of al i = Some u"
  by simp

lemma prolongs_set_deadline:
  assumes "set ids \<subseteq> fst ` set (bm_outstanding m)"
    and "\<And>i v. i \<in> set ids \<Longrightarrow> map_of (bm_outstanding m) i = Some v \<Longrightarrow> v \<le> u"
  shows "prolongs m (m\<lparr>bm_outstanding := fold (\<lambda>i. AList.update i u) ids (bm_outstanding m)\<rparr>)"
proof -
  let ?o = "bm_outstanding m" and ?o' = "fold (\<lambda>i. AList.update i u) ids (bm_outstanding m)"
  have keys: "map fst ?o' = map fst ?o"
    using assms(1) by (rule keys_fold_update)
  have later: "\<exists>v'. map_of ?o' i = Some v' \<and> v \<le> v'" if "map_of ?o i = Some v" for i v
    using assms(2) that by (auto simp: map_of_fold_update)
  have "ledger_ok (m\<lparr>bm_outstanding := ?o'\<rparr>)" if ok: "ledger_ok m"
  proof -
    have "bm_earliestUntil m \<le> v' \<and> zero_time < bm_earliestUntil m" if v': "(i, v') \<in> set ?o'" for i v'
    proof -
      have d: "distinct (map fst ?o)" "distinct (map fst ?o')"
        using ok keys by (simp_all add: ledger_ok_def)
      obtain v where v: "map_of ?o i = Some v"
        using v' keys by (metis fst_conv image_eqI list.set_map map_of_eq_None_iff not_None_eq)
      then have "bm_earliestUntil m \<le> v" "zero_time < bm_earliestUntil m"
        using ok d(1) by (auto simp: ledger_ok_def)
      then show ?thesis
        using later [OF v] v' d(2) by auto
    qed
    moreover have "?o' = [] \<longleftrightarrow> ?o = []" "fst ` set ?o' = fst ` set ?o"
      using keys by (metis list.map_disc_iff, metis list.set_map)
    ultimately show ?thesis
      using ok keys by (auto simp: ledger_ok_def)
  qed
  then show ?thesis
    using keys later by (simp add: prolongs_def)
qed

section \<open>Ensuring leases\<close>

definition short_ids :: "manager \<Rightarrow> time \<Rightarrow> JobID list" where
  "short_ids m requiredUntil =
     filter (\<lambda>i. \<exists>u. map_of (bm_outstanding m) i = Some u \<and> u < requiredUntil) (bm_orderedIDs m)"

definition with_earliest :: "manager \<Rightarrow> manager" where
  "with_earliest m =
     m\<lparr>bm_earliestUntil := foldl earlier zero_time (List.map_filter (map_of (bm_outstanding m)) (bm_orderedIDs m))\<rparr>"

lemma prolongs_with_earliest: "prolongs m (with_earliest m)"
  unfolding with_earliest_def by (rule prolongs_earliest) (rule outstanding_values)

lemma short_ids_with_earliest [simp]: "short_ids (with_earliest m) req = short_ids m req"
  by (simp add: short_ids_def with_earliest_def)

lemma errors_Is_extension_failed: "errors_Is (Some (extension_failed err)) ErrLeaseLost"
  by (simp add: extension_failed_def errors_Join_def errors_Is_Some List.map_filter_simps)

text \<open>The ways an extension and \<open>ensureLeasesLocked\<close> can go.\<close>

lemma extend_short_cases:
  assumes "extend_short rt repo c now until ids m w = (e, m', w')"
  obtains
    (refused) m2 err where "prolongs m m2" "failLeaseLocked err m2 = (e, m')" "errors_Is (Some err) ErrLeaseLost"
  | (extended) w2 m2 w3 now' where
      "ExtendJobLeases repo (WithDeadline c (bm_earliestUntil m)) ids (bm_leaseToken m) now until w =
         (Inr (int (length ids)), w2)"
      "batch_Cause rt (WithDeadline c (bm_earliestUntil m)) m w2 = (None, m2, w3)"
      "time_Now rt w3 = (now', w')" "checkLeasesLocked now' (extend_ledger ids until m2) = (e, m')"
proof -
  let ?ctx = "WithDeadline c (bm_earliestUntil m)"
  obtain r w2 where ext: "ExtendJobLeases repo ?ctx ids (bm_leaseToken m) now until w = (r, w2)"
    by (cases "ExtendJobLeases repo ?ctx ids (bm_leaseToken m) now until w")
  obtain e2 m2 w3 where cause: "batch_Cause rt ?ctx m w2 = (e2, m2, w3)"
    by (metis prod_cases3)
  obtain now' w4 where now': "time_Now rt w3 = (now', w4)"
    by (cases "time_Now rt w3")
  have p: "prolongs m m2"
    using cause by (rule prolongs_batch_Cause)
  note run = assms [unfolded extend_short_def Let_def ext]
  show thesis
  proof (cases r)
    case (Inl err)
    with run show thesis
      using refused [OF prolongs_refl] errors_Is_extension_failed by (auto split: prod.splits)
  next
    case (Inr n)
    show thesis
    proof (cases "e2 = None \<and> n = int (length ids)")
      case True
      with Inr run ext cause now' show thesis
        by (intro extended [of w2 m2 w3 now']) (auto split: prod.splits)
    next
      case False
      with Inr run cause now' have "\<exists>err. failLeaseLocked err m2 = (e, m') \<and> errors_Is (Some err) ErrLeaseLost"
        using errors_Is_extension_failed [unfolded errors_Is_Some]
        by (auto simp: errors_Is_Some split: option.splits prod.splits if_splits)
      then show thesis
        using refused [OF p] by blast
    qed
  qed
qed

lemma ensure_cases:
  assumes "ensureLeasesLocked rt repo c req target m w = (e, m', w')"
  obtains
    (expired) now err where "time_Now rt w = (now, w')" "checkLeasesLocked now m = (Some err, m')" "e = Some err"
  | (covered) now where "time_Now rt w = (now, w')" "checkLeasesLocked now m = (None, m')"
      "\<not> bm_earliestUntil m' < req" "e = None"
  | (none_short) now m1 where "time_Now rt w = (now, w')" "checkLeasesLocked now m = (None, m1)"
      "short_ids m1 req = []" "m' = with_earliest m1" "e = None"
  | (short) now w1 m1 where "time_Now rt w = (now, w1)" "checkLeasesLocked now m = (None, m1)"
      "short_ids m1 req \<noteq> []"
      "extend_short rt repo c now (extension_until req target) (short_ids m1 req) (with_earliest m1) w1 = (e, m', w')"
proof -
  obtain now w1 where now: "time_Now rt w = (now, w1)"
    by (cases "time_Now rt w")
  obtain e1 m1 where chk: "checkLeasesLocked now m = (e1, m1)"
    by (cases "checkLeasesLocked now m")
  note run = assms [unfolded ensureLeasesLocked_def Let_def now prod.case chk scan_outstanding_eq append_Nil,
      folded short_ids_def with_earliest_def]
  show thesis
  proof (cases e1)
    case (Some err)
    with run now chk show thesis
      by (intro expired [of now err]) auto
  next
    case None
    with run now chk that show thesis
      by (auto split: if_splits)
  qed
qed

lemma extension_later: "requiredUntil < extension_until requiredUntil targetUntil"
  "targetUntil < extension_until requiredUntil targetUntil"
  using truncate_ms_gt [of requiredUntil] truncate_ms_gt [of targetUntil]
  by (auto simp: extension_until_def Let_def)

lemma extension_aligned: "ms_aligned (extension_until requiredUntil targetUntil)"
  by (simp add: extension_until_def Let_def)

lemma prolongs_extend_ledger:
  assumes "set ids \<subseteq> fst ` set (bm_outstanding m)"
    and "\<And>i v. i \<in> set ids \<Longrightarrow> map_of (bm_outstanding m) i = Some v \<Longrightarrow> v \<le> u"
  shows "prolongs m (extend_ledger ids u m)"
  unfolding extend_ledger_def using prolongs_set_deadline [OF assms] prolongs_recompute by (rule prolongs_trans)

lemma short_ids_outstanding: "set (short_ids m req) \<subseteq> fst ` set (bm_outstanding m)"
  by (force simp: short_ids_def dest: map_of_SomeD)

lemma batch_Cause_outstanding:
  "batch_Cause rt c m w = (e, m', w') \<Longrightarrow> bm_outstanding m' = bm_outstanding m \<and> bm_orderedIDs m' = bm_orderedIDs m"
  by (auto simp: batch_Cause_def cancelBatch_def split: if_splits prod.splits option.splits)

lemma check_outstanding:
  "checkLeasesLocked now m = (e, m') \<Longrightarrow> bm_outstanding m' = bm_outstanding m \<and> bm_orderedIDs m' = bm_orderedIDs m"
  by (auto simp: checkLeasesLocked_def failLeaseLocked_def cancelBatch_def recomputeEarliestLocked_def split: if_splits)

lemma prolongs_extend_short:
  assumes "extend_short rt repo c now (extension_until req target) (short_ids m req) m w = (e, m', w')"
  shows "prolongs m m'"
  using assms
proof (cases rule: extend_short_cases)
  case (refused m2 err)
  then show ?thesis
    using prolongs_fail prolongs_trans by blast
next
  case (extended w2 m2 w3 now')
  let ?u = "extension_until req target"
  have o: "bm_outstanding m2 = bm_outstanding m"
    using batch_Cause_outstanding [OF extended(2)] by simp
  have "prolongs m2 (extend_ledger (short_ids m req) ?u m2)"
  proof (rule prolongs_extend_ledger)
    show "set (short_ids m req) \<subseteq> fst ` set (bm_outstanding m2)"
      using short_ids_outstanding o by metis
    show "v \<le> ?u" if "i \<in> set (short_ids m req)" "map_of (bm_outstanding m2) i = Some v" for i v
      using that extension_later(1) [of req target] by (auto simp: short_ids_def o)
  qed
  then show ?thesis
    using prolongs_batch_Cause [OF extended(2)] prolongs_check [OF extended(4)] prolongs_trans by blast
qed

lemma prolongs_ensure:
  assumes "ensureLeasesLocked rt repo c req target m w = (e, m', w')"
  shows "prolongs m m'"
  using assms
proof (cases rule: ensure_cases)
  case (short now w1 m1)
  then have "prolongs (with_earliest m1) m'"
    using prolongs_extend_short [of rt repo c now req target "with_earliest m1"] by simp
  then show ?thesis
    using prolongs_check [OF short(2)] prolongs_with_earliest prolongs_trans by blast
qed (auto dest: prolongs_check intro: prolongs_trans prolongs_with_earliest)

lemma prolongs_later:
  "prolongs m m' \<Longrightarrow> map_of (bm_outstanding m) i = Some u \<Longrightarrow>
   \<exists>u'. map_of (bm_outstanding m') i = Some u' \<and> u \<le> u'"
  by (simp add: prolongs_def)

lemma prolongs_ok: "prolongs m m' \<Longrightarrow> ledger_ok m \<Longrightarrow> ledger_ok m'"
  by (simp add: prolongs_def)

lemma prolongs_earlier:
  assumes "prolongs m m'" "map_of (bm_outstanding m') i = Some u'"
  shows "\<exists>u. map_of (bm_outstanding m) i = Some u \<and> u \<le> u'"
proof -
  have "fst ` set (bm_outstanding m') = fst ` set (bm_outstanding m)"
    using assms(1) by (metis list.set_map prolongs_def)
  then obtain u where "map_of (bm_outstanding m) i = Some u"
    using assms(2) by (metis map_of_eq_None_iff not_None_eq)
  moreover from prolongs_later [OF assms(1) this] have "u \<le> u'"
    using assms(2) by auto
  ultimately show ?thesis
    by blast
qed

lemma ledger_order: "ledger_ok m \<Longrightarrow> map_of (bm_outstanding m) i = Some u \<Longrightarrow> i \<in> set (bm_orderedIDs m)"
  by (force simp: ledger_ok_def dest!: map_of_SomeD)

lemma extend_short_covers:
  assumes "extend_short rt repo c now (extension_until req target) (short_ids m req) m w = (None, m', w')"
    and "ledger_ok m" "map_of (bm_outstanding m') i = Some u"
  shows "req \<le> u"
  using assms(1)
proof (cases rule: extend_short_cases)
  case (extended w2 m2 w3 now')
  let ?u = "extension_until req target"
  have "bm_outstanding m' = bm_outstanding (extend_ledger (short_ids m req) ?u m2)"
    using check_outstanding [OF extended(4)] by (rule conjunct1)
  also have "\<dots> = fold (\<lambda>jobID. AList.update jobID ?u) (short_ids m req) (bm_outstanding m)"
    using batch_Cause_outstanding [OF extended(2)] by (simp add: extend_ledger_def recomputeEarliestLocked_def)
  finally have lookup: "map_of (bm_outstanding m') i =
      (if i \<in> set (short_ids m req) then Some ?u else map_of (bm_outstanding m) i)"
    by (simp only: map_of_fold_update)
  show ?thesis
  proof (cases "i \<in> set (short_ids m req)")
    case True
    then show ?thesis
      using lookup assms(3) extension_later(1) [of req target] by simp
  next
    case False
    then have u: "map_of (bm_outstanding m) i = Some u"
      using lookup assms(3) by simp
    then have "i \<in> set (bm_orderedIDs m)"
      by (rule ledger_order [OF assms(2)])
    then show ?thesis
      using False u by (simp add: short_ids_def)
  qed
qed (simp add: failLeaseLocked_def)

lemma ensure_covers:
  assumes "ledger_ok m" "ensureLeasesLocked rt repo c req target m w = (None, m', w')"
    and u: "map_of (bm_outstanding m') i = Some until"
  shows "req \<le> until"
proof -
  have ok: "ledger_ok m'"
    using prolongs_ensure [OF assms(2)] assms(1) by (rule prolongs_ok)
  show ?thesis
    using assms(2)
  proof (cases rule: ensure_cases)
    case (covered now)
    then show ?thesis
      using ok u by (auto simp: ledger_ok_def dest!: map_of_SomeD)
  next
    case (none_short now m1)
    then show ?thesis
      using u ledger_order [OF ok u] by (auto simp: short_ids_def with_earliest_def filter_empty_conv)
  next
    case (short now w1 m1)
    have "ledger_ok (with_earliest m1)"
      using prolongs_ok prolongs_check [OF short(2)] prolongs_with_earliest assms(1) by blast
    then show ?thesis
      using extend_short_covers [of rt repo c now req target "with_earliest m1"] short(4) u by simp
  qed simp
qed

text \<open>C9. Ensuring leases never shortens one. Whatever the database, the clock and the context do, the
  ledger keeps its invariant and its jobs, every deadline it has afterwards is at least the one it
  had before, and when it reports success every outstanding lease lasts at least as long as was
  required.\<close>

theorem ensureLeases_never_shortens:
  assumes "ledger_ok m"
    and "ensureLeasesLocked rt repo c requiredUntil targetUntil m w = (e, m', w')"
  shows "ledger_ok m' \<and> map fst (bm_outstanding m') = map fst (bm_outstanding m) \<and>
    (\<forall>i until'. map_of (bm_outstanding m') i = Some until' \<longrightarrow>
       (\<exists>until. map_of (bm_outstanding m) i = Some until \<and> until \<le> until') \<and>
       (e = None \<longrightarrow> requiredUntil \<le> until'))"
proof -
  have p: "prolongs m m'"
    using assms(2) by (rule prolongs_ensure)
  have "ledger_ok m'" "map fst (bm_outstanding m') = map fst (bm_outstanding m)"
    using p assms(1) by (simp_all add: prolongs_def)
  moreover have "requiredUntil \<le> until'" if "e = None" "map_of (bm_outstanding m') i = Some until'" for i until'
    using ensure_covers [OF assms(1) assms(2) [unfolded that(1)] that(2)] .
  ultimately show ?thesis
    using prolongs_earlier [OF p] by simp
qed

text \<open>A repository that answers every call: it extends, deletes and releases what it is asked to.\<close>

definition willing_repo :: "time JobsRepository" where
  "willing_repo =
     \<lparr>CreateJobVersioned = (\<lambda>_ _ _ _ _ w. (Inr JobIDNil, w)),
      FindAndReserveJobsForCapabilities = (\<lambda>_ _ _ _ _ _ w. (Inl (Sentinel ErrNoJobs), w)),
      ExtendJobLeases = (\<lambda>_ ids _ _ _ w. (Inr (int (length ids)), w)),
      ReleaseUnstartedJobsWithLease = (\<lambda>_ ids _ _ w. (Inr (int (length ids)), w)),
      DeleteJobWithLease = (\<lambda>_ _ _ _ w. (Inr 1, w)),
      RescheduleJobWithLease = (\<lambda>_ _ _ _ _ w. (Inr 1, w)),
      MaxReservationBatch = MaxReservationBatchSize,
      asBatchJobsRepository = None, asDeferJobsRepository = None, asUniqueJobsRepository = None,
      asUniqueBatchJobsRepository = None, asJobsStatRepository = None\<rparr>"

text \<open>A process whose only state is a clock that goes on by one second at every reading.\<close>

definition ticking :: "time runtime" where
  "ticking =
     \<lparr>time_Now = (\<lambda>w. (w, w + second)), context_Cause = (\<lambda>_ w. (None, w)), drain_closed = (\<lambda>w. (False, w)),
      uuid_New = (\<lambda>w. (1, w)), heartbeat_ticks = (\<lambda>w. (0, w)),
      timer_wait = (\<lambda>_ d w. (WokeTimer, w + d)), err_Error = (\<lambda>_. ''error'')\<rparr>"

definition sample_manager :: manager where
  "sample_manager =
     \<lparr>bm_leaseToken = LeaseToken 7, bm_reserveFor = 30 * second, bm_orderedIDs = [JobID 1, JobID 2],
      bm_outstanding = [(JobID 1, 40 * second), (JobID 2, 12 * second)], bm_earliestUntil = 12 * second,
      bm_err = None, bm_running = True, bm_cause = None\<rparr>"

theorem ensureLeases_never_shortens_witness:
  "map_of (bm_outstanding (fst (snd (ensureLeasesLocked ticking willing_repo BatchCtx (20 * second) (30 * second)
     sample_manager (10 * second))))) (JobID 2) = Some (30 * second + millisecond) \<and>
   ledger_ok (fst (snd (ensureLeasesLocked ticking willing_repo BatchCtx (20 * second) (30 * second)
     sample_manager (10 * second))))"
proof -
  let ?r = "ensureLeasesLocked ticking willing_repo BatchCtx (20 * second) (30 * second) sample_manager (10 * second)"
  have ok: "ledger_ok sample_manager"
    by code_simp
  have r: "?r = (fst ?r, fst (snd ?r), snd (snd ?r))"
    by simp
  have "ledger_ok (fst (snd ?r))"
    using ensureLeases_never_shortens [OF ok r] by (rule conjunct1)
  moreover have "map_of (bm_outstanding (fst (snd ?r))) (JobID 2) = Some (30 * second + millisecond)"
    by code_simp
  ultimately show ?thesis
    by simp
qed

section \<open>Methods and the invariant\<close>

lemma prolongs_run_ticks: "run_ticks rt repo n m w = (m', w') \<Longrightarrow> prolongs m m'"
proof (induction n arbitrary: m w)
  case (Suc n)
  obtain e m1 w1 where ext: "extend rt repo HeartbeatCtx m w = (e, m1, w1)"
    by (metis prod_cases3)
  then have p: "prolongs m m1"
    by (auto simp: extend_def Let_def split: prod.splits dest: prolongs_ensure)
  show ?case
  proof (cases "bm_running m \<and> e = None")
    case True
    then have "prolongs m1 m'"
      using Suc ext by simp
    with p show ?thesis
      by (rule prolongs_trans)
  next
    case False
    then have "m' = m \<or> m' = m1\<lparr>bm_running := False\<rparr>"
      using Suc.prems ext by (auto split: if_splits option.splits)
    then show ?thesis
      using prolongs_trans [OF p prolongs_flags(3)] prolongs_refl by blast
  qed
qed (simp add: prolongs_refl)

lemma prolongs_preempt: "preempt rt repo m w = (m', w') \<Longrightarrow> prolongs m m'"
  by (auto simp: preempt_def split: prod.splits dest: prolongs_run_ticks)

lemma prolongs_LockContext:
  assumes "LockContext rt repo c m w = (e, m', w')"
  shows "prolongs m m'"
proof -
  obtain m1 w1 where p: "preempt rt repo m w = (m1, w1)"
    by (cases "preempt rt repo m w")
  then have "batch_Cause rt c m1 w1 = (e, m', w')"
    using assms by (simp add: LockContext_def)
  with p show ?thesis
    by (blast intro: prolongs_trans prolongs_preempt prolongs_batch_Cause)
qed

lemma ledger_ok_clear: "ledger_ok (clear_outstanding m)"
  by (simp add: clear_outstanding_def ledger_ok_def)

lemma ledger_ok_delete:
  assumes "ledger_ok m"
  shows "ledger_ok (delete_outstanding i m)"
proof -
  let ?o = "AList.delete i (bm_outstanding m)"
  have sub: "set ?o \<subseteq> set (bm_outstanding m)"
    by (auto simp: AList.delete_eq)
  have d: "distinct (map fst ?o)"
    using assms by (simp add: ledger_ok_def distinct_delete)
  show ?thesis
  proof (cases "?o = []")
    case True
    then show ?thesis
      by (simp add: delete_outstanding_def ledger_ok_def)
  next
    case False
    then have "bm_outstanding m \<noteq> []"
      by auto
    then show ?thesis
      using assms d sub False by (auto simp: delete_outstanding_def ledger_ok_def Let_def)
  qed
qed

lemma ledger_ok_note:
  assumes "ledger_ok m" "zero_time < ReservedAt_Time job"
  shows "ledger_ok (note_lease job m)"
proof -
  let ?e = "bm_earliestUntil m" and ?u = "ReservedAt_Time job"
  let ?o = "AList.update (job_ID job) ?u (bm_outstanding m)"
  have "?o \<noteq> []" "distinct (map fst ?o)"
    using assms(1) by (auto simp: ledger_ok_def distinct_update)
  moreover have "fst ` set ?o = insert (job_ID job) (fst ` set (bm_outstanding m))"
    by (simp add: dom_update)
  moreover have e: "zero_time < earlier ?e ?u \<and> earlier ?e ?u \<le> ?u \<and> (bm_outstanding m \<noteq> [] \<longrightarrow> earlier ?e ?u \<le> ?e)"
    using assms by (cases "bm_outstanding m") (auto simp: ledger_ok_def earlier_def time_IsZero_def)
  moreover have "earlier ?e ?u \<le> v" if "(i, v) \<in> set ?o" for i v
  proof -
    have "map_of ?o i = Some v"
      using that calculation(2) by simp
    then have "i = job_ID job \<and> v = ?u \<or> map_of (bm_outstanding m) i = Some v"
      by (auto simp: update_conv' split: if_splits)
    then show ?thesis
      using e assms(1) by (auto simp: ledger_ok_def dest!: map_of_SomeD)
  qed
  ultimately show ?thesis
    using assms(1) by (auto simp: note_lease_def ledger_ok_def)
qed

lemma ledger_ok_new:
  "\<forall>job \<in> set jobs. zero_time < ReservedAt_Time job \<Longrightarrow> ledger_ok (newBatchLeaseManager jobs token reserveFor)"
proof -
  have "ledger_ok (fold note_lease jobs m)"
    if "ledger_ok m" "\<forall>job \<in> set jobs. zero_time < ReservedAt_Time job" for jobs m
    using that by (induction jobs arbitrary: m) (auto intro: ledger_ok_note)
  moreover assume "\<forall>job \<in> set jobs. zero_time < ReservedAt_Time job"
  ultimately show ?thesis
    by (simp add: newBatchLeaseManager_def ledger_ok_def)
qed

text \<open>The clock of a running process is past the zero time.\<close>

definition clock_ok :: "'w runtime \<Rightarrow> bool" where
  "clock_ok rt \<longleftrightarrow> (\<forall>w. zero_time < fst (time_Now rt w))"

lemma clock_okD: "clock_ok rt \<Longrightarrow> time_Now rt w = (t, w') \<Longrightarrow> zero_time < t"
  by (metis clock_ok_def fst_conv)

lemma ledger_ok_add_loop:
  "add_loop rt jobs m w = (e, m', w') \<Longrightarrow> clock_ok rt \<Longrightarrow> ledger_ok m \<Longrightarrow> ledger_ok m'"
proof (induction jobs arbitrary: m w)
  case (Cons job jobs)
  obtain now w1 where now: "time_Now rt w = (now, w1)"
    by (cases "time_Now rt w")
  show ?case
  proof (cases "validateClaimedJobLease job (bm_leaseToken m) now = None \<and> map_of (bm_outstanding m) (job_ID job) = None")
    case True
    then have "now < ReservedAt_Time job"
      by (auto simp: validateClaimedJobLease_def ReservedAt_Time_def split: if_splits option.splits)
    then have "ledger_ok (note_lease job m)"
      using Cons.prems clock_okD [OF Cons.prems(2) now] by (intro ledger_ok_note) auto
    then show ?thesis
      using Cons True now by auto
  next
    case False
    then show ?thesis
      using Cons.prems now by (auto split: if_splits option.splits)
  qed
qed simp

lemma admit_cases:
  assumes "admit rt repo c m w = (e, m', w')"
  obtains (refused) err where "e = Some err" "prolongs m m'"
  | (admitted) m1 w1 now w2 m2 m3 w3 where "prolongs m m1" "bm_outstanding m1 \<noteq> []"
      "time_Now rt w1 = (now, w2)" "checkLeasesLocked now m1 = (None, m2)"
      "\<not> bm_earliestUntil m2 < now + go_div (bm_reserveFor m2) 3 \<and> m3 = m2 \<and> w3 = w2 \<or>
       ensureLeasesLocked rt repo c (now + bm_reserveFor m2) (now + bm_reserveFor m2) m2 w2 = (None, m3, w3)"
      "batchStartError rt c m3 w3 = (e, m', w')" "e = None"
      "\<exists>m0 w0. preempt rt repo m w = (m0, w0) \<and> batchStartError rt c m0 w0 = (None, m1, w1)"
proof -
  obtain m0 w0 where pre: "preempt rt repo m w = (m0, w0)"
    by (cases "preempt rt repo m w")
  obtain e1 m1 w1 where start: "batchStartError rt c m0 w0 = (e1, m1, w1)"
    by (metis prod_cases3)
  obtain now w2 where now: "time_Now rt w1 = (now, w2)"
    by (cases "time_Now rt w1")
  obtain e2 m2 where chk: "checkLeasesLocked now m1 = (e2, m2)"
    by (cases "checkLeasesLocked now m1")
  obtain e3 m3 w3 where ens: "(if bm_earliestUntil m2 < now + go_div (bm_reserveFor m2) 3
      then ensureLeasesLocked rt repo c (now + bm_reserveFor m2) (now + bm_reserveFor m2) m2 w2
      else (None, m2, w2)) = (e3, m3, w3)"
    by (metis prod_cases3)
  note run = assms [unfolded admit_def Let_def pre prod.case start now chk]
  have p1: "prolongs m m1"
    using prolongs_preempt [OF pre] prolongs_start [OF start] by (rule prolongs_trans)
  have p2: "prolongs m m2"
    using p1 prolongs_check [OF chk] by (rule prolongs_trans)
  have p3: "prolongs m m3"
    using p2 ens prolongs_ensure prolongs_trans by (metis Pair_inject)
  show thesis
  proof (cases "e1 = None \<and> bm_outstanding m1 \<noteq> [] \<and> e2 = None \<and> e3 = None")
    case True
    then have last: "batchStartError rt c m3 w3 = (e, m', w')"
      using run ens by simp
    show thesis
    proof (cases e)
      case None
      show thesis
        by (rule admitted [OF p1 _ now _ _ last None]) (use True chk ens pre start in \<open>auto split: if_splits\<close>)
    next
      case (Some err)
      then show thesis
        using refused prolongs_trans [OF p3 prolongs_start [OF last]] by blast
    qed
  next
    case False
    then have "(\<exists>err. e = Some err) \<and> (m' = m1 \<or> m' = m2 \<or> m' = m3)"
      using run ens by (auto split: option.splits if_splits)
    then show thesis
      using refused p1 p2 p3 by blast
  qed
qed

lemma prolongs_admit: "admit rt repo c m w = (e, m', w') \<Longrightarrow> prolongs m m'"
proof (erule admit_cases)
  fix m1 w1 now w2 m2 m3 w3
  assume a: "prolongs m m1" "checkLeasesLocked now m1 = (None, m2)"
    "\<not> bm_earliestUntil m2 < now + go_div (bm_reserveFor m2) 3 \<and> m3 = m2 \<and> w3 = w2 \<or>
     ensureLeasesLocked rt repo c (now + bm_reserveFor m2) (now + bm_reserveFor m2) m2 w2 = (None, m3, w3)"
    "batchStartError rt c m3 w3 = (e, m', w')"
  have "prolongs m2 m3"
    using a(3) by (auto intro: prolongs_refl dest: prolongs_ensure)
  then show "prolongs m m'"
    using prolongs_trans [OF prolongs_trans [OF a(1) prolongs_check [OF a(2)]]]
      prolongs_start [OF a(4)] prolongs_trans by blast
qed

lemma start_error_None:
  assumes "batchStartError rt c m w = (None, m', w')" "\<not> detached c"
  shows "bm_cause m' = None \<and> bm_outstanding m' = bm_outstanding m"
proof -
  obtain m1 w1 where "batch_Cause rt c m w = (None, m1, w1)" "m' = m1"
    using assms(1) by (auto simp: batchStartError_def split: prod.splits option.splits bool.splits)
  then show ?thesis
    using assms(2) by (auto simp: batch_Cause_def split: if_splits prod.splits option.splits)
qed

text \<open>The clock of a process: a reading lies between the moments before and after it, and no other call that
  admission makes turns the clock back. \<open>clk\<close> is the time of a world.\<close>

definition clock_runs :: "('w \<Rightarrow> time) \<Rightarrow> 'w runtime \<Rightarrow> 'w JobsRepository \<Rightarrow> bool" where
  "clock_runs clk rt repo \<longleftrightarrow>
     (\<forall>w. clk w \<le> fst (time_Now rt w) \<and> fst (time_Now rt w) \<le> clk (snd (time_Now rt w))) \<and>
     (\<forall>c w. clk w \<le> clk (snd (context_Cause rt c w))) \<and>
     (\<forall>w. clk w \<le> clk (snd (drain_closed rt w))) \<and>
     (\<forall>w. clk w \<le> clk (snd (heartbeat_ticks rt w))) \<and>
     (\<forall>c ids token now until w. clk w \<le> clk (snd (ExtendJobLeases repo c ids token now until w)))"

lemma clock_runs_Now:
  "clock_runs clk rt repo \<Longrightarrow> time_Now rt w = (t, w') \<Longrightarrow> clk w \<le> t \<and> t \<le> clk w'"
  unfolding clock_runs_def by (metis fst_conv snd_conv)

lemma clock_runs_Cause: "clock_runs clk rt repo \<Longrightarrow> batch_Cause rt c m w = (e, m', w') \<Longrightarrow> clk w \<le> clk w'"
  unfolding clock_runs_def batch_Cause_def
  by (auto split: if_splits prod.splits option.splits) (metis snd_conv)+

lemma clock_runs_start:
  assumes "clock_runs clk rt repo" "batchStartError rt c m w = (e, m', w')"
  shows "clk w \<le> clk w'"
proof -
  obtain e1 m1 w1 where c: "batch_Cause rt c m w = (e1, m1, w1)"
    by (metis prod_cases3)
  obtain d w2 where d: "drain_closed rt w1 = (d, w2)"
    by fastforce
  have "clk w1 \<le> clk w2"
    using assms(1) d unfolding clock_runs_def by (metis snd_conv)
  moreover have "w' = w1 \<or> w' = w2"
    using assms(2) by (auto simp: batchStartError_def c d split: option.splits bool.splits)
  ultimately show ?thesis
    using clock_runs_Cause [OF assms(1) c] by auto
qed

lemma clock_runs_extend_short:
  assumes "clock_runs clk rt repo" "extend_short rt repo c now until ids m w = (e, m', w')"
  shows "clk w \<le> clk w'"
proof -
  let ?c = "WithDeadline c (bm_earliestUntil m)"
  obtain r w1 where x: "ExtendJobLeases repo ?c ids (bm_leaseToken m) now until w = (r, w1)"
    by fastforce
  obtain e2 m2 w2 where c: "batch_Cause rt ?c m w1 = (e2, m2, w2)"
    by (metis prod_cases3)
  obtain t w3 where t: "time_Now rt w2 = (t, w3)"
    by fastforce
  have "clk w \<le> clk w1"
    using assms(1) x unfolding clock_runs_def by (metis snd_conv)
  moreover note clock_runs_Cause [OF assms(1) c] clock_runs_Now [OF assms(1) t]
  moreover have "w' = w1 \<or> w' = w2 \<or> w' = w3"
    using assms(2) by (auto simp: extend_short_def Let_def x c t split: sum.splits option.splits if_splits prod.splits)
  ultimately show ?thesis
    by auto
qed

lemma clock_runs_ensure:
  assumes "clock_runs clk rt repo" "ensureLeasesLocked rt repo c req target m w = (e, m', w')"
  shows "clk w \<le> clk w'"
proof -
  obtain t w1 where t: "time_Now rt w = (t, w1)"
    by fastforce
  have "w' = w1 \<or> (\<exists>now until ids m2. extend_short rt repo c now until ids m2 w1 = (e, m', w'))"
    using assms(2) by (auto simp: ensureLeasesLocked_def Let_def t split: prod.splits option.splits if_splits)
  then show ?thesis
    using clock_runs_Now [OF assms(1) t] clock_runs_extend_short [OF assms(1)] by fastforce
qed

lemma clock_runs_ticks: "clock_runs clk rt repo \<Longrightarrow> run_ticks rt repo n m w = (m', w') \<Longrightarrow> clk w \<le> clk w'"
proof (induction n arbitrary: m w)
  case (Suc n)
  obtain t w1 where t: "time_Now rt w = (t, w1)"
    by fastforce
  obtain e m2 w2 where x: "extend rt repo HeartbeatCtx m w = (e, m2, w2)"
    by (metis prod_cases3)
  have "clk w1 \<le> clk w2"
    using x by (auto simp: extend_def t Let_def intro: clock_runs_ensure [OF Suc.prems(1)])
  then have "clk w \<le> clk w2"
    using clock_runs_Now [OF Suc.prems(1) t] by simp
  then show ?case
    using Suc.prems Suc.IH [of m2 w2] x by (auto split: if_splits option.splits)
qed simp

lemma clock_runs_preempt:
  assumes "clock_runs clk rt repo" "preempt rt repo m w = (m', w')"
  shows "clk w \<le> clk w'"
proof -
  obtain n w1 where n: "heartbeat_ticks rt w = (n, w1)"
    by fastforce
  have "clk w \<le> clk w1"
    using assms(1) n unfolding clock_runs_def by (metis snd_conv)
  then show ?thesis
    using assms(2) clock_runs_ticks [OF assms(1), of n m w1 m' w'] by (simp add: preempt_def n)
qed

text \<open>C10. Admission of a job to its handler, in a process whose clock is not turned back. When it is granted,
  the batch has not been cancelled, the ledger still has outstanding jobs, and there is a moment
  between the start and the end of the call at which every outstanding lease had at least a third of
  the reservation left, so the handler starts under a live lease.\<close>

theorem admit_under_live_leases:
  assumes "admit rt repo c m w = (None, m', w')" "ledger_ok m" "\<not> detached c" "0 < bm_reserveFor m"
    and "clock_runs clk rt repo"
  shows "bm_cause m' = None \<and> bm_outstanding m' \<noteq> [] \<and> ledger_ok m' \<and>
    (\<exists>now. clk w \<le> now \<and> now \<le> clk w' \<and>
       (\<forall>(i, until) \<in> set (bm_outstanding m'). now < until \<and> now + go_div (bm_reserveFor m) 3 \<le> until))"
  using assms(1)
proof (cases rule: admit_cases)
  case (admitted m1 w1 now w2 m2 m3 w3)
  have ok2: "ledger_ok m2" "bm_outstanding m2 \<noteq> []" "bm_reserveFor m2 = bm_reserveFor m"
    using prolongs_trans [OF admitted(1) prolongs_check [OF admitted(4)]] assms(2) admitted(2)
      check_outstanding [OF admitted(4)] by (simp_all add: prolongs_def)
  have ok': "ledger_ok m'"
    using prolongs_admit [OF assms(1)] assms(2) by (rule prolongs_ok)
  have o': "bm_outstanding m' = bm_outstanding m3" "bm_cause m' = None"
    using start_error_None [OF admitted(6) assms(3)] by simp_all
  have third: "0 \<le> go_div (bm_reserveFor m) 3 \<and> go_div (bm_reserveFor m) 3 \<le> bm_reserveFor m"
    using assms(4) by simp arith
  have live: "now < until \<and> now + go_div (bm_reserveFor m) 3 \<le> until" if "(i, until) \<in> set (bm_outstanding m3)" for i until
    using admitted(5)
  proof
    assume a: "\<not> bm_earliestUntil m2 < now + go_div (bm_reserveFor m2) 3 \<and> m3 = m2 \<and> w3 = w2"
    then have "(i, until) \<in> set (bm_outstanding m2)"
      using that by simp
    moreover from this have "(i, until) \<in> set (bm_outstanding m1)"
      using check_outstanding [OF admitted(4)] by simp
    moreover have "ledger_ok m1"
      using admitted(1) assms(2) by (rule prolongs_ok)
    ultimately show ?thesis
      using a ok2(1,3) check_alive [OF admitted(4)] by (auto simp: ledger_ok_def)
  next
    assume a: "ensureLeasesLocked rt repo c (now + bm_reserveFor m2) (now + bm_reserveFor m2) m2 w2 = (None, m3, w3)"
    have "map_of (bm_outstanding m3) i = Some until"
      using that ok' o'(1) by (simp add: ledger_ok_def)
    then have "now + bm_reserveFor m2 \<le> until"
      using ensure_covers [OF ok2(1) a] by simp
    then show ?thesis
      using third assms(4) ok2(3) by simp
  qed
  have "bm_outstanding m3 \<noteq> []"
    using admitted(5)
  proof
    assume "ensureLeasesLocked rt repo c (now + bm_reserveFor m2) (now + bm_reserveFor m2) m2 w2 = (None, m3, w3)"
    from prolongs_ensure [OF this] show ?thesis
      using ok2(2) by (auto simp: prolongs_def)
  qed (use ok2(2) in simp)
  moreover have "clk w \<le> now \<and> now \<le> clk w'"
  proof -
    obtain m0 w0 where start: "preempt rt repo m w = (m0, w0)" "batchStartError rt c m0 w0 = (None, m1, w1)"
      using admitted(8) by blast
    have "clk w \<le> clk w1"
      using clock_runs_preempt [OF assms(5) start(1)] clock_runs_start [OF assms(5) start(2)] by simp
    moreover have "clk w2 \<le> clk w3"
      using admitted(5) clock_runs_ensure [OF assms(5)] by auto
    ultimately show ?thesis
      using clock_runs_Now [OF assms(5) admitted(3)] clock_runs_start [OF assms(5) admitted(6)] by simp
  qed
  ultimately show ?thesis
    using o' ok' live by (intro conjI exI [of _ now]) auto
qed simp

theorem admit_under_live_leases_witness:
  "fst (admit ticking willing_repo BatchCtx sample_manager (10 * second)) = None \<and>
   snd (snd (admit ticking willing_repo BatchCtx sample_manager (10 * second))) = 13 * second \<and>
   (\<exists>now. 10 * second \<le> now \<and> now \<le> 13 * second \<and>
      (\<forall>(i, until) \<in> set (bm_outstanding (fst (snd (admit ticking willing_repo BatchCtx sample_manager (10 * second))))).
         now < until \<and> now + go_div (30 * second) 3 \<le> until))"
proof -
  let ?r = "admit ticking willing_repo BatchCtx sample_manager (10 * second)"
  have n: "fst ?r = None" "snd (snd ?r) = 13 * second"
    by code_simp+
  then have r: "?r = (None, fst (snd ?r), 13 * second)"
    by (metis prod.collapse)
  have ok: "ledger_ok sample_manager" "\<not> detached BatchCtx" "0 < bm_reserveFor sample_manager"
    by code_simp+
  have "clock_runs (\<lambda>w. w) ticking willing_repo"
    by (simp add: clock_runs_def ticking_def willing_repo_def second_def)
  from admit_under_live_leases [OF r ok this] show ?thesis
    using n by (simp add: sample_manager_def)
qed

section \<open>Finalization\<close>

lemma ensure_covers_all:
  assumes "ledger_ok m" "ensureLeasesLocked rt repo c req target m w = (None, m', w')" "(i, until) \<in> set (bm_outstanding m')"
  shows "req \<le> until"
proof -
  have "ledger_ok m'"
    using prolongs_ensure [OF assms(2)] assms(1) by (rule prolongs_ok)
  then have "map_of (bm_outstanding m') i = Some until"
    using assms(3) by (simp add: ledger_ok_def)
  then show ?thesis
    by (rule ensure_covers [OF assms(1,2)])
qed

lemma finalize_cases:
  assumes "finalize rt repo c jobID work m s w = (e, m', s', w')"
  obtains (refused) err where "e = Some err" "s' = s" "prolongs m m'"
  | (worked) t w0 m0 w00 m1 w1 m2 w2 where "time_Now rt w = (t, w0)" "prolongs m m0"
      "map_of (bm_outstanding m0) jobID \<noteq> None"
      "ensureLeasesLocked rt repo (WithDeadline (WithoutCancel c) (t + leaseFinalizationTimeout))
         (t + leaseFinalizationTimeout + batchFinalizationMargin)
         (t + leaseFinalizationTimeout + batchFinalizationMargin + bm_reserveFor m0) m0 w00 = (None, m1, w1)"
      "batch_Cause rt (WithDeadline (WithoutCancel c) (t + leaseFinalizationTimeout)) m1 w1 = (None, m2, w2)"
      "work (WithDeadline (WithoutCancel c) (t + leaseFinalizationTimeout)) s w2 = (e, s', w')"
      "m' = (if e = None then delete_outstanding jobID m2 else m2)"
proof -
  obtain t w0 where t: "time_Now rt w = (t, w0)"
    by (cases "time_Now rt w")
  let ?c = "WithDeadline (WithoutCancel c) (t + leaseFinalizationTimeout)"
  obtain e0 m0 w00 where lock: "LockContext rt repo ?c m w0 = (e0, m0, w00)"
    by (metis prod_cases3)
  obtain e1 m1 w1 where ens: "ensureLeasesLocked rt repo ?c (t + leaseFinalizationTimeout + batchFinalizationMargin)
      (t + leaseFinalizationTimeout + batchFinalizationMargin + bm_reserveFor m0) m0 w00 = (e1, m1, w1)"
    by (metis prod_cases3)
  obtain e2 m2 w2 where cause: "batch_Cause rt ?c m1 w1 = (e2, m2, w2)"
    by (metis prod_cases3)
  obtain e3 s3 w3 where work: "work ?c s w2 = (e3, s3, w3)"
    by (metis prod_cases3)
  note run = assms [unfolded finalize_def Let_def t prod.case lock ens]
  have p0: "prolongs m m0"
    using lock by (rule prolongs_LockContext)
  have p1: "prolongs m m1"
    using p0 prolongs_ensure [OF ens] by (rule prolongs_trans)
  have p2: "prolongs m m2"
    using p1 prolongs_batch_Cause [OF cause] by (rule prolongs_trans)
  show thesis
  proof (cases "e0 = None \<and> map_of (bm_outstanding m0) jobID \<noteq> None \<and> e1 = None \<and> e2 = None")
    case True
    then have "e = e3 \<and> s' = s3 \<and> w' = w3 \<and> m' = (if e = None then delete_outstanding jobID m2 else m2)"
      using run cause work by (auto split: option.splits)
    then show thesis
      using worked [OF t p0] True ens cause work by simp
  next
    case False
    then have "(\<exists>err. e = Some err \<and> (m' = cancelBatch err m0 \<or> m' = m0 \<or> m' = m1 \<or> m' = m2)) \<and> s' = s"
      using run cause by (auto split: option.splits if_splits)
    then show thesis
      using refused p0 p1 p2 prolongs_trans [OF p0 prolongs_cancelBatch] by blast
  qed
qed

text \<open>C11. Finalizing one job. The work of a finalization runs only for a job that is still outstanding
  and only once every outstanding lease lasts beyond the work's own deadline by the margin; it runs
  in a context of its own that the cancellation of the batch does not reach. The job leaves the
  ledger exactly when the work succeeded, and no other job does. Without the work having run, an
  error is reported and the service state is untouched.\<close>

theorem finalize_only_under_lease:
  assumes "finalize rt repo c jobID work m s w = (e, m', s', w')" "ledger_ok m"
  shows "ledger_ok m' \<and>
    (e \<noteq> None \<and> s' = s \<and> map fst (bm_outstanding m') = map fst (bm_outstanding m) \<or>
     (\<exists>(m2 :: manager) w2 deadline.
        work (WithDeadline (WithoutCancel c) deadline) s w2 = (e, s', w') \<and>
        map fst (bm_outstanding m2) = map fst (bm_outstanding m) \<and> jobID \<in> fst ` set (bm_outstanding m2) \<and>
        (\<forall>(i, until) \<in> set (bm_outstanding m2). deadline + batchFinalizationMargin \<le> until) \<and>
        map_of (bm_outstanding m') = (if e = None then (map_of (bm_outstanding m2)) (jobID := None)
                                      else map_of (bm_outstanding m2))))"
  using assms(1)
proof (cases rule: finalize_cases)
  case (refused err)
  then show ?thesis
    using assms(2) by (simp add: prolongs_def)
next
  case (worked t w0 m0 w00 m1 w1 m2 w2)
  have o2: "bm_outstanding m2 = bm_outstanding m1"
    using batch_Cause_outstanding [OF worked(5)] by simp
  have ok0: "ledger_ok m0"
    using worked(2) assms(2) by (rule prolongs_ok)
  have "prolongs m m2"
    using prolongs_trans [OF worked(2) prolongs_ensure [OF worked(4)]] prolongs_batch_Cause [OF worked(5)]
    by (rule prolongs_trans)
  then have ok2: "ledger_ok m2" "map fst (bm_outstanding m2) = map fst (bm_outstanding m)"
    using assms(2) by (simp_all add: prolongs_def)
  moreover have "jobID \<in> fst ` set (bm_outstanding m2)"
  proof -
    have "fst ` set (bm_outstanding m2) = fst ` set (bm_outstanding m0)"
      using ok2(2) worked(2) by (metis list.set_map prolongs_def)
    then show ?thesis
      using worked(3) by (simp add: map_of_eq_None_iff)
  qed
  moreover have "\<forall>(i, until) \<in> set (bm_outstanding m2). t + leaseFinalizationTimeout + batchFinalizationMargin \<le> until"
    using ensure_covers_all [OF ok0 worked(4)] by (auto simp: o2)
  moreover have "map_of (bm_outstanding m') =
      (if e = None then (map_of (bm_outstanding m2)) (jobID := None) else map_of (bm_outstanding m2))"
  proof -
    have "bm_outstanding (delete_outstanding jobID m2) = AList.delete jobID (bm_outstanding m2)"
      by (simp add: delete_outstanding_def Let_def)
    then show ?thesis
      by (cases e) (simp_all add: worked(7) delete_conv')
  qed
  moreover have "ledger_ok m'"
    using ok2(1) ledger_ok_delete by (simp add: worked(7))
  ultimately show ?thesis
    using worked(6) by blast
qed

text \<open>A finalization that counts how often its work ran.\<close>

definition counting_work :: "ctx \<Rightarrow> nat \<Rightarrow> time \<Rightarrow> error option \<times> nat \<times> time" where
  "counting_work c s w = (None, Suc s, w)"

definition sample_finalized :: "error option \<times> manager \<times> nat \<times> time" where
  "sample_finalized = finalize ticking willing_repo BatchCtx (JobID 2) counting_work sample_manager 0 (10 * second)"

theorem finalize_only_under_lease_witness:
  "fst sample_finalized = None \<and> fst (snd (snd sample_finalized)) = 1 \<and>
   ledger_ok (fst (snd sample_finalized)) \<and> map fst (bm_outstanding (fst (snd sample_finalized))) = [JobID 1]"
proof -
  have "finalize ticking willing_repo BatchCtx (JobID 2) counting_work sample_manager 0 (10 * second) =
      (fst sample_finalized, fst (snd sample_finalized), fst (snd (snd sample_finalized)), snd (snd (snd sample_finalized)))"
    by (simp add: sample_finalized_def)
  moreover have "ledger_ok sample_manager"
    by code_simp
  ultimately have "ledger_ok (fst (snd sample_finalized))"
    by (rule finalize_only_under_lease [THEN conjunct1])
  moreover have "fst sample_finalized = None \<and> fst (snd (snd sample_finalized)) = 1 \<and>
      map fst (bm_outstanding (fst (snd sample_finalized))) = [JobID 1]"
    by code_simp
  ultimately show ?thesis
    by simp
qed

lemma finalizeAll_cases:
  assumes "finalizeAll rt repo c leaseUntil work m s w = (e, m', s', w')"
  obtains (refused) err where "e = Some err" "s' = s" "prolongs m m'"
  | (worked) m0 w0 m1 w1 m2 w2 where "prolongs m m0" "bm_outstanding m0 \<noteq> []"
      "ensureLeasesLocked rt repo c leaseUntil leaseUntil m0 w0 = (None, m1, w1)"
      "batch_Cause rt c m1 w1 = (None, m2, w2)" "work s w2 = (e, s', w')"
      "m' = (if e = None then clear_outstanding m2 else m2)"
proof -
  obtain e0 m0 w0 where lock: "LockContext rt repo c m w = (e0, m0, w0)"
    by (metis prod_cases3)
  obtain e1 m1 w1 where ens: "ensureLeasesLocked rt repo c leaseUntil leaseUntil m0 w0 = (e1, m1, w1)"
    by (metis prod_cases3)
  obtain e2 m2 w2 where cause: "batch_Cause rt c m1 w1 = (e2, m2, w2)"
    by (metis prod_cases3)
  obtain e3 s3 w3 where work: "work s w2 = (e3, s3, w3)"
    by (metis prod_cases3)
  note run = assms [unfolded finalizeAll_def lock prod.case ens]
  have p0: "prolongs m m0"
    using lock by (rule prolongs_LockContext)
  have p1: "prolongs m m1"
    using p0 prolongs_ensure [OF ens] by (rule prolongs_trans)
  have p2: "prolongs m m2"
    using p1 prolongs_batch_Cause [OF cause] by (rule prolongs_trans)
  show thesis
  proof (cases "e0 = None \<and> bm_outstanding m0 \<noteq> [] \<and> e1 = None \<and> e2 = None")
    case True
    then have "e = e3 \<and> s' = s3 \<and> w' = w3 \<and> m' = (if e = None then clear_outstanding m2 else m2)"
      using run cause work by (auto split: option.splits)
    then show thesis
      using worked [OF p0] True ens cause work by simp
  next
    case False
    then have "(\<exists>err. e = Some err \<and> (m' = cancelBatch err m0 \<or> m' = m0 \<or> m' = m1 \<or> m' = m2)) \<and> s' = s"
      using run cause by (auto split: option.splits if_splits)
    then show thesis
      using refused p0 p1 p2 prolongs_trans [OF p0 prolongs_cancelBatch] by blast
  qed
qed

section \<open>The invariant over every method\<close>

text \<open>One call of a method of the ledger, with whatever result.\<close>

inductive ledger_call ::
  "'w runtime \<Rightarrow> 'w JobsRepository \<Rightarrow> manager \<times> 's \<Rightarrow> manager \<times> 's \<Rightarrow> bool" for rt repo where
  call_heartbeat: "preempt rt repo m w = (m', w') \<Longrightarrow> ledger_call rt repo (m, s) (m', s)"
| call_admit: "admit rt repo c m w = (e, m', w') \<Longrightarrow> ledger_call rt repo (m, s) (m', s)"
| call_finalize: "finalize rt repo c i work m s w = (e, m', s', w') \<Longrightarrow> ledger_call rt repo (m, s) (m', s')"
| call_add: "add_jobs rt repo jobs m w = (e, m', w') \<Longrightarrow> ledger_call rt repo (m, s) (m', s)"
| call_finalizeAll: "finalizeAll rt repo c until work m s w = (e, m', s', w') \<Longrightarrow> ledger_call rt repo (m, s) (m', s')"
| call_forget: "forget rt repo i m w = (m', w') \<Longrightarrow> ledger_call rt repo (m, s) (m', s)"
| call_forgetAll: "forgetAll rt repo m w = (m', w') \<Longrightarrow> ledger_call rt repo (m, s) (m', s)"
| call_release: "releaseUnstarted rt repo c m w = (e, m', w') \<Longrightarrow> ledger_call rt repo (m, s) (m', s)"
| call_stop: "stopAndWait rt repo m w = (e, m', w') \<Longrightarrow> ledger_call rt repo (m, s) (m', s)"

lemma ledger_call_ok:
  assumes "ledger_call rt repo (m, s) (m', s')" "clock_ok rt" "ledger_ok m"
  shows "ledger_ok m'"
  using assms(1)
proof cases
  case (call_heartbeat w w')
  then show ?thesis
    using prolongs_preempt prolongs_ok assms(3) by metis
next
  case (call_admit c w e w')
  then show ?thesis
    using prolongs_admit prolongs_ok assms(3) by metis
next
  case (call_finalize c i work w e w')
  then show ?thesis
  proof (cases rule: finalize_cases)
    case (worked t w0 m0 w00 m1 w1 m2 w2)
    have "prolongs m m2"
      using prolongs_trans [OF worked(2) prolongs_ensure [OF worked(4)]] prolongs_batch_Cause [OF worked(5)]
      by (rule prolongs_trans)
    then show ?thesis
      using assms(3) prolongs_ok ledger_ok_delete by (auto simp: worked(7))
  qed (use assms(3) prolongs_ok in blast)
next
  case (call_add jobs w e w')
  obtain m1 w1 where p: "preempt rt repo m w = (m1, w1)"
    by (cases "preempt rt repo m w")
  then have "add_loop rt jobs m1 w1 = (e, m', w')"
    using call_add by (simp add: add_jobs_def)
  then show ?thesis
    by (rule ledger_ok_add_loop [OF _ assms(2) prolongs_ok [OF prolongs_preempt [OF p] assms(3)]])
next
  case (call_finalizeAll c until work w e w')
  then show ?thesis
  proof (cases rule: finalizeAll_cases)
    case (worked m0 w0 m1 w1 m2 w2)
    have "prolongs m m2"
      using prolongs_trans [OF worked(1) prolongs_ensure [OF worked(3)]] prolongs_batch_Cause [OF worked(4)]
      by (rule prolongs_trans)
    then show ?thesis
      using assms(3) prolongs_ok ledger_ok_clear by (auto simp: worked(6))
  qed (use assms(3) prolongs_ok in blast)
next
  case (call_forget i w w')
  then show ?thesis
    using assms(3) by (auto simp: forget_def split: prod.splits intro!: ledger_ok_delete dest: prolongs_preempt prolongs_ok)
next
  case (call_forgetAll w w')
  then show ?thesis
    by (auto simp: forgetAll_def ledger_ok_clear split: prod.splits)
next
  case (call_release c w e w')
  obtain m1 w1 where p: "preempt rt repo m w = (m1, w1)"
    by (cases "preempt rt repo m w")
  have "m' = m1 \<or> m' = clear_outstanding m1"
    using call_release p by (auto simp: releaseUnstarted_def Let_def split: prod.splits sum.splits if_splits)
  then show ?thesis
    using prolongs_ok [OF prolongs_preempt [OF p] assms(3)] ledger_ok_clear by auto
next
  case (call_stop w e w')
  then show ?thesis
    using assms(3) prolongs_ok [OF prolongs_flags(3)]
    by (auto simp: stopAndWait_def split: prod.splits dest: prolongs_preempt prolongs_ok)
qed

text \<open>C12. The ledger of a batch is sound from its creation on: starting from claimed jobs with real
  deadlines, and through any sequence of heartbeats, admissions, additions, finalizations, forgets,
  releases and stops with whatever results, every outstanding job is one of the batch, is listed once,
  and its deadline is bounded below by the recorded earliest deadline, which is unset exactly when
  nothing is outstanding.\<close>

theorem ledger_invariant:
  assumes "clock_ok rt" "\<forall>job \<in> set jobs. zero_time < ReservedAt_Time job"
    and "(ledger_call rt repo)\<^sup>*\<^sup>* (newBatchLeaseManager jobs token reserveFor, s0) (m, s)"
  shows "distinct (map fst (bm_outstanding m)) \<and>
     fst ` set (bm_outstanding m) \<subseteq> set (bm_orderedIDs m) \<and>
     (bm_outstanding m = [] \<longleftrightarrow> bm_earliestUntil m = zero_time) \<and>
     (\<forall>(i, until) \<in> set (bm_outstanding m). zero_time < bm_earliestUntil m \<and> bm_earliestUntil m \<le> until)"
proof -
  have "ledger_ok (fst (m, s))"
    using assms(3) by induction (use assms(1,2) in \<open>auto intro: ledger_ok_new ledger_call_ok\<close>)
  then show ?thesis
    unfolding ledger_ok_def fst_conv .
qed

definition sample_claimed_job :: "nat \<Rightarrow> time \<Rightarrow> Job" where
  "sample_claimed_job n until = sample_job\<lparr>job_ID := JobID (of_nat n), job_ReservedAt := Some until, job_LeaseToken := LeaseToken 7\<rparr>"

theorem ledger_invariant_witness:
  "bm_earliestUntil (fst (snd sample_finalized)) \<noteq> zero_time \<and>
   distinct (map fst (bm_outstanding (fst (forget ticking willing_repo (JobID 1)
     (newBatchLeaseManager [sample_claimed_job 1 (40 * second), sample_claimed_job 2 (12 * second)] (LeaseToken 7) (30 * second)) 0))))"
proof -
  let ?jobs = "[sample_claimed_job 1 (40 * second), sample_claimed_job 2 (12 * second)]"
  let ?m = "newBatchLeaseManager ?jobs (LeaseToken 7) (30 * second)"
  let ?tick = "ticking\<lparr>time_Now := (\<lambda>w. (max w 1, w + second))\<rparr>"
  have a: "\<forall>job \<in> set ?jobs. zero_time < ReservedAt_Time job"
    by code_simp
  have c: "clock_ok ?tick"
    by (auto simp: clock_ok_def zero_time_def)
  have "(ledger_call ?tick willing_repo)\<^sup>*\<^sup>* (?m, ()) (fst (forget ?tick willing_repo (JobID 1) ?m 0), ())"
    by (intro r_into_rtranclp call_forget) (rule prod.collapse [symmetric])
  from ledger_invariant [OF c a this]
  have "distinct (map fst (bm_outstanding (fst (forget ?tick willing_repo (JobID 1) ?m 0))))"
    by (rule conjunct1)
  moreover have "fst (forget ?tick willing_repo (JobID 1) ?m 0) = fst (forget ticking willing_repo (JobID 1) ?m 0)"
    by (simp add: forget_def preempt_def ticking_def)
  moreover have "bm_earliestUntil (fst (snd sample_finalized)) \<noteq> zero_time"
    by code_simp
  ultimately show ?thesis
    by simp
qed

end
