(* ===== verification/Sqlite_Claims.thy ===== *)
theory Sqlite_Claims
  imports Sqlite_Jobs
begin

text \<open>
  What a claim of the SQLite repository does: the exact result of a plain claim on a healthy
  database, which rows it may take and in which order, what it does to the other rows, and that a
  failed claim leaves no trace. The second part is the byte-bounded claim of batch execution.
\<close>

section \<open>Plain claims\<close>

lemma claim_executor_healthy:
  assumes "distinct (map r_id (db_jobs w))" "db_faults w = []"
  shows "findAndReserveBatchWithExecutor str now until token caps limit w =
    (let rows = claim_rows str now caps limit (db_jobs w)
     in if rows = [] then (Inl (Sentinel ErrNoJobs), w)
        else (Inr (map (claimed_job until token) rows),
              w\<lparr>db_jobs := lease_rows (map r_id rows) until token (db_jobs w)\<rparr>))"
proof -
  let ?rows = "claim_rows str now caps limit (db_jobs w)"
  have "sql_count (\<lambda>r. r_id r \<in> set (map r_id ?rows)) (db_jobs w) = int (length ?rows)"
    using assms(1) by (rule claim_rows_count)
  then show ?thesis
    using assms(2)
    by (simp add: findAndReserveBatchWithExecutor_def exec_stmt_def update_jobs_def Let_def
        lease_rows_def claimed_job_def scanJob_def comp_def flip: claim_rows_def)
qed

text \<open>C15. On a database that answers, a claim with valid arguments returns exactly the earliest
  claimable rows of the requested capabilities, at most \<open>limit\<close> of them, with the attempt counted and
  the lease set. It stores that lease on these rows and on no other, and when nothing is claimable it
  reports that there are no jobs and changes nothing.\<close>

theorem sqlite_claim_exact:
  assumes "wf_db w" "db_faults w = []" "token \<noteq> LeaseTokenNil"
    and "1 \<le> limit" "limit \<le> MaxReservationBatchSize"
    and "caps \<noteq> []" "\<forall>c \<in> set caps. JobCapability_Validate c = None"
  shows "sqlite_FindAndReserveJobsForCapabilities str now until token caps limit w =
    (let rows = sql_select (\<lambda>r. claimable now r \<and> has_capability caps r) (claim_key str) (nat limit) (db_jobs w)
     in if rows = [] then (Inl (Sentinel ErrNoJobs), w)
        else (Inr (map (claimed_job until token) rows),
              w\<lparr>db_jobs := sql_update (\<lambda>r. r_id r \<in> r_id ` set rows) (take_lease until token) (db_jobs w)\<rparr>))"
proof -
  let ?rows = "claim_rows str now caps limit (db_jobs w)"
  have d: "distinct (map r_id (db_jobs w))"
    using assms(1) by (simp add: wf_db_def wf_jobs_def)
  have v: "first_some JobCapability_Validate caps = None" "LeaseToken_Validate token = None"
    using assms by simp_all
  have c: "sqlite_FindAndReserveJobsForCapabilities str now until token caps limit w =
      withImmediateTransaction (findAndReserveBatchWithExecutor str now until token caps limit) w"
    using assms(4-6) by (simp add: v sqlite_FindAndReserveJobsForCapabilities_def findAndReserveBatch_def
        validateBatchClaim_def)
  show ?thesis
  proof (cases "?rows = []")
    case True
    then have "findAndReserveBatchWithExecutor str now until token caps limit (w\<lparr>db_in_tx := True\<rparr>) =
        (Inl (Sentinel ErrNoJobs), w\<lparr>db_in_tx := True\<rparr>)"
      using d assms(2) by (simp add: claim_executor_healthy)
    then show ?thesis
      using True assms(2) unfolding c claim_rows_def
      by (subst withImmediateTransaction_healthy_error) simp_all
  next
    case False
    then have "findAndReserveBatchWithExecutor str now until token caps limit (w\<lparr>db_in_tx := True\<rparr>) =
        (Inr (map (claimed_job until token) ?rows),
         w\<lparr>db_in_tx := True, db_jobs := lease_rows (map r_id ?rows) until token (db_jobs w)\<rparr>)"
      using d assms(2) by (simp add: claim_executor_healthy Let_def)
    then show ?thesis
      using False assms(2) unfolding c claim_rows_def
      by (subst withImmediateTransaction_healthy_ok) (simp_all add: lease_rows_def Let_def)
  qed
qed

text \<open>A database with three jobs: one claimable, one under a live lease, one not yet available.\<close>

definition sample_row :: "nat \<Rightarrow> int option \<Rightarrow> LeaseToken \<Rightarrow> int \<Rightarrow> job_row" where
  "sample_row n reserved token available =
     \<lparr>r_id = JobID (of_nat n), r_queue = ''queue'', r_name = ''mail'', r_schema_version = 1,
      r_payload = ''{}'', r_attempts = (if reserved = None then 0 else 1), r_reserved_at = reserved,
      r_lease_token = token, r_deduplication_key = None, r_available_at = available, r_created_at = 5\<rparr>"

definition sample_db :: sqlite where
  "sample_db =
     \<lparr>db_jobs = [sample_row 1 None LeaseTokenNil 10, sample_row 2 (Some 90) (LeaseToken 7) 10,
                 sample_row 3 None LeaseTokenNil 70],
      db_keys = [], db_failed = [], db_in_tx = False, db_faults = [], db_lost_commits = []\<rparr>"

definition sample_cap :: JobCapability where
  "sample_cap = \<lparr>cap_Name = ''mail'', cap_SchemaVersion = 1\<rparr>"

lemmas sample_simps = sample_row_def sample_db_def sample_cap_def wf_db_def wf_jobs_def wf_keys_def
  wf_failed_def JobCapability_Validate_def LeaseTokenNil_def MaxReservationBatchSize_def
  List.map_filter_simps

theorem sqlite_claim_exact_witness:
  "fst (sqlite_FindAndReserveJobsForCapabilities sample_str (50 * millisecond) (95 * millisecond)
      (LeaseToken 8) [sample_cap] 10 sample_db) =
   Inr [claimed_job (95 * millisecond) (LeaseToken 8) (sample_row 1 None LeaseTokenNil 10)]"
  using sqlite_claim_exact [of sample_db "LeaseToken 8" 10 "[sample_cap]" sample_str "50 * millisecond" "95 * millisecond"]
  by (simp add: sample_simps claimable_def has_capability_def UnixMilli_def millisecond_def sql_select_def Let_def)

text \<open>C14. Whatever the database does, a claim that succeeds never takes a row whose lease is still
  running: every claimed job was available and unleased, of a requested capability, and is returned
  once. A claimable row is passed over only when the limit is used up by rows at least as early. All
  rows that are not claimed, the deduplication keys and the failed jobs stay as they were.\<close>

theorem sqlite_claim_sound:
  assumes "wf_db w"
    and "sqlite_FindAndReserveJobsForCapabilities str now until token caps limit w = (Inr jobs, w')"
  shows "0 < length jobs \<and> int (length jobs) \<le> limit \<and> distinct (map job_ID jobs) \<and>
    (\<forall>j \<in> set jobs. \<exists>r \<in> set (db_jobs w). claimable now r \<and> has_capability caps r \<and>
       j = claimed_job until token r \<and> take_lease until token r \<in> set (db_jobs w')) \<and>
    (\<forall>r \<in> set (db_jobs w). r_id r \<notin> job_ID ` set jobs \<longrightarrow>
       r \<in> set (db_jobs w') \<and>
       (claimable now r \<and> has_capability caps r \<longrightarrow>
          int (length jobs) = limit \<and>
          (\<forall>s \<in> set (db_jobs w). r_id s \<in> job_ID ` set jobs \<longrightarrow> claim_key str s \<le> claim_key str r))) \<and>
    length (db_jobs w') = length (db_jobs w) \<and> db_keys w' = db_keys w \<and> db_failed w' = db_failed w"
proof -
  let ?p = "\<lambda>r. claimable now r \<and> has_capability caps r"
  let ?js = "db_jobs w"
  let ?rows = "sql_select ?p (claim_key str) (nat limit) ?js"
  obtain F where c: "1 \<le> limit" "?rows \<noteq> []" "jobs = map (claimed_job until token) ?rows"
    "w' = w\<lparr>db_faults := F, db_jobs := lease_rows (map job_ID jobs) until token ?js\<rparr>"
    using assms(2) by (elim claim_ok) (simp add: claim_rows_def)
  have d: "distinct (map r_id ?js)"
    using assms(1) by (simp add: wf_db_def wf_jobs_def)
  have ids: "map job_ID jobs = map r_id ?rows"
    by (simp add: c(3))
  then have idset: "job_ID ` set jobs = r_id ` set ?rows"
    by (metis list.set_map)
  have same: "s \<in> set ?rows" if "s \<in> set ?js" "r_id s \<in> r_id ` set ?rows" for s
    using that d by (auto simp: distinct_map dest: sql_select_sat inj_onD)
  have taken: "take_lease until token r \<in> set (db_jobs w')" if "r \<in> set ?rows" for r
    using that sql_select_sat [OF that] by (auto simp: c(4) lease_rows_def set_sql_update idset)
  have full: "int (length jobs) = limit" if "r \<in> set ?js" "?p r" "r \<notin> set ?rows" for r
  proof (rule ccontr)
    assume "int (length jobs) \<noteq> limit"
    then have "length (filter ?p ?js) \<le> nat limit"
      using c(1) by (auto simp: c(3) length_sql_select min_def split: if_splits)
    then have "set ?rows = set (filter ?p ?js)"
      by (simp add: sql_select_def)
    then show False
      using that by simp
  qed
  have "int (length jobs) \<le> limit"
    using c(1) by (auto simp: c(3) length_sql_select min_def)
  moreover have "distinct (map job_ID jobs)"
    unfolding ids using d by (rule distinct_sql_select)
  moreover have "\<forall>j \<in> set jobs. \<exists>r \<in> set ?js. claimable now r \<and> has_capability caps r \<and>
       j = claimed_job until token r \<and> take_lease until token r \<in> set (db_jobs w')"
    using taken by (auto simp: c(3) dest: sql_select_sat)
  moreover have "r \<in> set (db_jobs w')" if "r \<in> set ?js" "r_id r \<notin> r_id ` set ?rows" for r
    using that by (auto simp: c(4) lease_rows_def set_sql_update idset)
  moreover have "claim_key str s \<le> claim_key str r"
    if "r \<in> set ?js" "r_id r \<notin> r_id ` set ?rows" "?p r" "s \<in> set ?js" "r_id s \<in> r_id ` set ?rows" for r s
    using that same [of s] sql_select_prefix [of r ?js ?p "claim_key str" "nat limit" s] by blast
  moreover have "length (db_jobs w') = length ?js" "db_keys w' = db_keys w" "db_failed w' = db_failed w"
    by (simp_all add: c(4) lease_rows_def sql_update_def)
  moreover have "0 < length jobs"
    using c(2) by (simp add: c(3))
  ultimately show ?thesis
    unfolding idset using full by blast
qed

text \<open>What the sample claim returns and leaves.\<close>

definition sample_claim :: "(error + Job list) \<times> sqlite" where
  "sample_claim = sqlite_FindAndReserveJobsForCapabilities sample_str (50 * millisecond) (95 * millisecond)
     (LeaseToken 8) [sample_cap] 10 sample_db"

lemma sample_claim_eval:
  "sample_claim =
     (Inr [claimed_job (95 * millisecond) (LeaseToken 8) (sample_row 1 None LeaseTokenNil 10)],
      sample_db\<lparr>db_jobs := [take_lease (95 * millisecond) (LeaseToken 8) (sample_row 1 None LeaseTokenNil 10),
        sample_row 2 (Some 90) (LeaseToken 7) 10, sample_row 3 None LeaseTokenNil 70]\<rparr>)"
  by code_simp

lemma wf_sample_db: "wf_db sample_db"
  by code_simp

theorem sqlite_claim_sound_witness:
  "wf_db sample_db \<and> isl (fst sample_claim) = False \<and>
   sample_row 2 (Some 90) (LeaseToken 7) 10 \<in> set (db_jobs (snd sample_claim))"
proof -
  have c: "sqlite_FindAndReserveJobsForCapabilities sample_str (50 * millisecond) (95 * millisecond)
      (LeaseToken 8) [sample_cap] 10 sample_db = (Inr (projr (fst sample_claim)), snd sample_claim)"
    using sample_claim_eval by (simp add: sample_claim_def)
  have "sample_row 2 (Some 90) (LeaseToken 7) 10 \<in> set (db_jobs sample_db)"
    by (simp add: sample_db_def)
  moreover have "r_id (sample_row 2 (Some 90) (LeaseToken 7) 10) \<notin> job_ID ` set (projr (fst sample_claim))"
    by (simp add: sample_claim_eval sample_row_def)
  ultimately have "sample_row 2 (Some 90) (LeaseToken 7) 10 \<in> set (db_jobs (snd sample_claim))"
    using sqlite_claim_sound [OF wf_sample_db c] by blast
  then show ?thesis
    by (simp add: wf_sample_db sample_claim_eval)
qed

text \<open>C19. The lease deadline a claim hands to the worker is the deadline it stored, up to the
  milliseconds of the column: the stored one is the returned one rounded down, so they agree exactly
  when the requested deadline has no fraction of a millisecond, and otherwise the worker believes its
  lease to last less than a millisecond longer than the database does.\<close>

theorem sqlite_claim_deadline:
  assumes "wf_db w" "j \<in> set jobs"
    and "sqlite_FindAndReserveJobsForCapabilities str now until token caps limit w = (Inr jobs, w')"
  shows "\<exists>r \<in> set (db_jobs w'). \<exists>stored. r_id r = job_ID j \<and> r_lease_token r = token \<and>
    job_ReservedAt j = Some until \<and> job_ReservedAt (scanJob r) = Some stored \<and>
    stored = truncate_ms until \<and> stored \<le> until \<and> until < stored + millisecond \<and>
    (stored = until \<longleftrightarrow> ms_aligned until)"
proof -
  obtain F where c: "jobs = map (claimed_job until token) (claim_rows str now caps limit (db_jobs w))"
    "w' = w\<lparr>db_faults := F, db_jobs := lease_rows (map job_ID jobs) until token (db_jobs w)\<rparr>"
    using assms(3) by (elim claim_ok)
  then obtain r where r: "r \<in> set (claim_rows str now caps limit (db_jobs w))" "j = claimed_job until token r"
    using assms(2) by auto
  then have "r \<in> set (db_jobs w)"
    by (auto simp: claim_rows_def dest: sql_select_sat)
  moreover have "r_id r \<in> job_ID ` set jobs"
    using assms(2) by (rule rev_image_eqI) (simp add: r(2))
  ultimately have "take_lease until token r \<in> set (db_jobs w')"
    by (simp add: c(2) lease_rows_def set_sql_update)
  moreover have "stored = until \<longleftrightarrow> ms_aligned until" if "stored = truncate_ms until" for stored
    using that truncate_ms_aligned [of until] by (metis aligned_roundtrip time_UnixMilli_UnixMilli)
  ultimately show ?thesis
    using truncate_ms_le [of until] truncate_ms_gt [of until]
    by (intro bexI [of _ "take_lease until token r"] exI [of _ "truncate_ms until"])
       (simp_all add: r(2) claimed_job_def scanJob_def time_UnixMilli_UnixMilli)
qed

theorem sqlite_claim_deadline_witness:
  "\<exists>r \<in> set (db_jobs (snd sample_claim)). \<exists>stored. r_id r = JobID 1 \<and> job_ReservedAt (scanJob r) = Some stored \<and>
     stored = 95 * millisecond"
proof -
  have c: "sqlite_FindAndReserveJobsForCapabilities sample_str (50 * millisecond) (95 * millisecond)
      (LeaseToken 8) [sample_cap] 10 sample_db = (Inr (projr (fst sample_claim)), snd sample_claim)"
    using sample_claim_eval by (simp add: sample_claim_def)
  have "claimed_job (95 * millisecond) (LeaseToken 8) (sample_row 1 None LeaseTokenNil 10) \<in> set (projr (fst sample_claim))"
    by (simp add: sample_claim_eval)
  moreover have "truncate_ms (95 * millisecond) = 95 * millisecond"
    by (simp add: truncate_ms_def millisecond_def)
  ultimately show ?thesis
    using sqlite_claim_deadline [OF wf_sample_db _ c] by (fastforce simp: sample_row_def)
qed

section \<open>Byte-bounded claims\<close>

lemma bounded_claim_loop_reached [simp]: "bounded_claim_loop maxBytes ids used True rows = ids"
  by (induction rows) auto

abbreviation bytes :: "(JobID \<times> int) list \<Rightarrow> int" where
  "bytes rows \<equiv> sum_list (map snd rows)"

lemma bounded_claim_loop_prefix:
  assumes "ids \<noteq> []" "used \<le> maxBytes"
  obtains k where "k \<le> length rows"
    "bounded_claim_loop maxBytes ids used False rows = ids @ map fst (take k rows)"
    "used + bytes (take k rows) \<le> maxBytes"
    "k < length rows \<longrightarrow> maxBytes < used + bytes (take (Suc k) rows)"
  using assms
proof (induction rows arbitrary: ids used thesis)
  case Nil
  from Nil.prems(1) [of 0] show ?case
    using Nil.prems(2,3) by simp
next
  case (Cons row rows)
  obtain i b where row: "row = (i, b)"
    by (cases row)
  show ?case
  proof (cases "used + b \<le> maxBytes")
    case False
    with Cons.prems(1) [of 0] Cons.prems(2,3) show ?thesis
      by (simp add: row)
  next
    case True
    then obtain k where "k \<le> length rows"
      "bounded_claim_loop maxBytes (ids @ [i]) (used + b) False rows = (ids @ [i]) @ map fst (take k rows)"
      "used + b + bytes (take k rows) \<le> maxBytes"
      "k < length rows \<longrightarrow> maxBytes < used + b + bytes (take (Suc k) rows)"
      using Cons.IH [of "ids @ [i]" "used + b"] by blast
    with Cons.prems(1) [of "Suc k"] Cons.prems(2,3) True show ?thesis
      by (simp add: row add.assoc)
  qed
qed

text \<open>The longest prefix of the candidates whose payloads fit, and at least the first candidate.\<close>

lemma bounded_claim_loop_longest:
  assumes "rows \<noteq> []" "\<forall>row \<in> set rows. 0 \<le> snd row"
  obtains k where "1 \<le> k" "k \<le> length rows"
    "bounded_claim_loop maxBytes [] 0 False rows = map fst (take k rows)"
    "k = 1 \<or> bytes (take k rows) \<le> maxBytes"
    "k < length rows \<longrightarrow> maxBytes < bytes (take (Suc k) rows)"
proof -
  obtain i b rest where rows: "rows = (i, b) # rest"
    using assms(1) by (metis list.exhaust prod.exhaust)
  show thesis
  proof (cases "b \<le> maxBytes")
    case True
    obtain k where "k \<le> length rest" "bounded_claim_loop maxBytes [i] b False rest = [i] @ map fst (take k rest)"
      "b + bytes (take k rest) \<le> maxBytes" "k < length rest \<longrightarrow> maxBytes < b + bytes (take (Suc k) rest)"
      by (rule bounded_claim_loop_prefix [of "[i]" b maxBytes rest]) (use True in auto)
    then show thesis
      using that [of "Suc k"] True by (simp add: rows)
  next
    case False
    have "0 \<le> bytes (take 1 rest)"
      using assms(2) by (cases rest) (auto simp: rows)
    then show thesis
      using that [of 1] False by (simp add: rows)
  qed
qed

lemma sort_key_map: "sort_key k (map f xs) = map f (sort_key (\<lambda>x. k (f x)) xs)"
proof -
  have ins: "insort_key k (f x) (map f xs) = map f (insort_key (\<lambda>x. k (f x)) x xs)" for x xs
    by (induction xs) auto
  show ?thesis
    by (induction xs) (auto simp: ins)
qed

lemma filter_take_ids:
  assumes "distinct (map g xs)"
  shows "filter (\<lambda>x. g x \<in> g ` set (take m xs)) xs = take m xs"
proof -
  have "filter (\<lambda>x. g x \<in> g ` set (take m xs)) (take m xs @ drop m xs) = take m xs @ []"
    unfolding filter_append
  proof (intro arg_cong2 [where f = append])
    show "filter (\<lambda>x. g x \<in> g ` set (take m xs)) (take m xs) = take m xs"
      by (simp add: filter_id_conv)
    have "g ` set (take m xs) \<inter> g ` set (drop m xs) = {}"
      using assms by (metis append_take_drop_id distinct_append list.set_map map_append)
    then show "filter (\<lambda>x. g x \<in> g ` set (take m xs)) (drop m xs) = []"
      by (auto simp: filter_empty_conv)
  qed
  then show ?thesis
    by simp
qed

text \<open>Reading the leased rows back in claim order gives the selected rows, with their leases.\<close>

lemma select_leased_again:
  assumes d: "distinct (map r_id js)"
    and rows: "rows = take m (sql_select p (claim_key str) n js)"
  shows "sort_key (claim_key str)
      (filter (\<lambda>r. r_id r \<in> set (map r_id rows) \<and> r_lease_token r = token)
        (lease_rows (map r_id rows) until token js)) = map (take_lease until token) rows"
proof -
  let ?I = "r_id ` set rows"
  let ?S = "sort_key (claim_key str) (filter p js)"
  have rowsS: "rows = take (min m n) ?S"
    by (simp add: rows sql_select_def)
  have sub: "r \<in> set js \<and> p r" if "r \<in> set rows" for r
    using that set_take_subset [of m "sql_select p (claim_key str) n js"]
    by (auto simp: rows dest!: sql_select_sat subsetD)
  have "filter (\<lambda>r. r_id r \<in> ?I \<and> r_lease_token r = token)
        (sql_update (\<lambda>r. r_id r \<in> ?I) (take_lease until token) ts) =
      map (take_lease until token) (filter (\<lambda>r. r_id r \<in> ?I) ts)" for ts
    by (induction ts) auto
  moreover have "filter (\<lambda>r. r_id r \<in> ?I) js = filter (\<lambda>r. r_id r \<in> ?I) (filter p js)"
    using sub distinct_map_same [OF d] by (auto intro!: filter_cong)
  moreover have "sort_key (claim_key str) (filter (\<lambda>r. r_id r \<in> ?I) (filter p js)) = filter (\<lambda>r. r_id r \<in> ?I) ?S"
    by (simp only: filter_sort)
  moreover have "filter (\<lambda>r. r_id r \<in> ?I) ?S = rows"
  proof -
    have "distinct (map r_id ?S)"
      using distinct_sql_select [OF d, of p "claim_key str" "length (filter p js)"] by (simp add: sql_select_def)
    then show ?thesis
      unfolding rowsS by (rule filter_take_ids)
  qed
  ultimately show ?thesis
    by (simp add: lease_rows_def sort_key_map)
qed

lemma bounded_executor_ok:
  assumes "findAndReserveBatchBoundedWithExecutor str now until token cap limits w = (Inr jobs, w')"
    and js: "js = db_jobs w" and d: "distinct (map r_id js)"
  obtains F k where
    "1 \<le> k" "k \<le> length (claim_rows str now [cap] (bl_MaxMessages limits) js)"
    "k = 1 \<or> (\<Sum>r \<leftarrow> take k (claim_rows str now [cap] (bl_MaxMessages limits) js).
        int (length (r_payload r))) \<le> bl_MaxBytes limits"
    "k < length (claim_rows str now [cap] (bl_MaxMessages limits) js) \<longrightarrow>
      bl_MaxBytes limits < (\<Sum>r \<leftarrow> take (Suc k) (claim_rows str now [cap] (bl_MaxMessages limits) js).
        int (length (r_payload r)))"
    "jobs = map (\<lambda>r. scanJob (take_lease until token r))
       (take k (claim_rows str now [cap] (bl_MaxMessages limits) js))"
    "w' = w\<lparr>db_faults := F, db_jobs := lease_rows (map job_ID jobs) until token js\<rparr>"
proof -
  let ?cands = "claim_rows str now [cap] (bl_MaxMessages limits) js"
  let ?size = "\<lambda>r. (r_id r, int (length (r_payload r)))"
  define ids where "ids = bounded_claim_loop (bl_MaxBytes limits) [] 0 False (map ?size ?cands)"
  obtain F where F: "ids \<noteq> []"
    "jobs = map scanJob (sort_key (claim_key str) (filter (\<lambda>r. r_id r \<in> set ids \<and> r_lease_token r = token)
        (lease_rows ids until token js)))"
    "w' = w\<lparr>db_faults := F, db_jobs := lease_rows ids until token js\<rparr>"
    using assms(1)
    by (auto simp: js findAndReserveBatchBoundedWithExecutor_def Let_def ids_def claim_rows_def lease_rows_def
        table_simps split: prod.splits sum.splits if_splits elim!: exec_stmt_cases update_jobs_cases)
  then have "map ?size ?cands \<noteq> []"
    by (auto simp: ids_def)
  then obtain k where k: "1 \<le> k" "k \<le> length ?cands" "ids = map fst (take k (map ?size ?cands))"
    "k = 1 \<or> bytes (take k (map ?size ?cands)) \<le> bl_MaxBytes limits"
    "k < length ?cands \<longrightarrow> bl_MaxBytes limits < bytes (take (Suc k) (map ?size ?cands))"
    unfolding ids_def by (rule bounded_claim_loop_longest [of _ "bl_MaxBytes limits"]) auto
  then have ids: "ids = map r_id (take k ?cands)"
    by (simp add: take_map comp_def)
  have "jobs = map scanJob (map (take_lease until token) (take k ?cands))"
    unfolding F(2) ids
    by (subst select_leased_again [OF d, of _ k _ str "nat (bl_MaxMessages limits)"])
       (auto simp: claim_rows_def)
  then have jobs: "jobs = map (\<lambda>r. scanJob (take_lease until token r)) (take k ?cands)"
    by (simp add: comp_def)
  then have "map job_ID jobs = ids"
    by (simp add: ids comp_def scanJob_def)
  then show thesis
    using that [OF k(1,2) _ _ jobs] k(4,5) F(3) by (simp add: take_map comp_def)
qed

text \<open>C17. A byte-bounded claim takes the longest prefix of the claimable rows, in claim order and within
  the message limit, whose payloads together stay within the byte limit, and always at least the
  first row. The jobs it returns are the stored rows after the claim, with the stored deadline.\<close>

theorem sqlite_bounded_claim_prefix:
  assumes "wf_db w"
    and "sqlite_FindAndReserveJobsForCapabilityBounded str now until token cap limits w = (Inr jobs, w')"
  shows "let cands = sql_select (\<lambda>r. claimable now r \<and> has_capability [cap] r) (claim_key str)
             (nat (bl_MaxMessages limits)) (db_jobs w);
           k = length jobs; size = (\<lambda>rs. \<Sum>r \<leftarrow> rs. int (length (r_payload r)))
    in 1 \<le> k \<and> k \<le> length cands \<and> int k \<le> bl_MaxMessages limits \<and>
       jobs = map (\<lambda>r. scanJob (take_lease until token r)) (take k cands) \<and>
       (k = 1 \<or> size (take k cands) \<le> bl_MaxBytes limits) \<and>
       (k < length cands \<longrightarrow> bl_MaxBytes limits < size (take (Suc k) cands)) \<and>
       db_jobs w' = sql_update (\<lambda>r. r_id r \<in> job_ID ` set jobs) (take_lease until token) (db_jobs w) \<and>
       db_keys w' = db_keys w \<and> db_failed w' = db_failed w"
proof -
  have d: "distinct (map r_id (db_jobs w))"
    using assms(1) by (simp add: wf_db_def wf_jobs_def)
  have lim: "1 \<le> bl_MaxMessages limits"
    using assms(2) by (auto simp: sqlite_FindAndReserveJobsForCapabilityBounded_def validateBatchClaim_def
        split: option.splits if_splits)
  have "withImmediateTransaction
      (findAndReserveBatchBoundedWithExecutor str now until token cap limits) w = (Inr jobs, w')"
    using assms(2) by (auto simp: sqlite_FindAndReserveJobsForCapabilityBounded_def
        split: option.splits if_splits)
  then obtain F w2 G where w2: "findAndReserveBatchBoundedWithExecutor str now until token cap limits
      (w\<lparr>db_faults := F, db_in_tx := True\<rparr>) = (Inr jobs, w2)"
    "w' = w2\<lparr>db_faults := G, db_in_tx := db_in_tx w \<and> db_in_tx w2\<rparr>"
    by (rule withImmediateTransaction_ok)
  let ?cands = "claim_rows str now [cap] (bl_MaxMessages limits) (db_jobs w)"
  have "int (length ?cands) \<le> bl_MaxMessages limits"
    using lim by (auto simp: claim_rows_def length_sql_select min_def)
  moreover obtain F' k where k: "1 \<le> k" "k \<le> length ?cands"
    "k = 1 \<or> (\<Sum>r \<leftarrow> take k ?cands. int (length (r_payload r))) \<le> bl_MaxBytes limits"
    "k < length ?cands \<longrightarrow> bl_MaxBytes limits < (\<Sum>r \<leftarrow> take (Suc k) ?cands. int (length (r_payload r)))"
    "jobs = map (\<lambda>r. scanJob (take_lease until token r)) (take k ?cands)"
    "w2 = w\<lparr>db_faults := F, db_in_tx := True, db_faults := F',
            db_jobs := lease_rows (map job_ID jobs) until token (db_jobs w)\<rparr>"
    by (rule bounded_executor_ok [OF w2(1) _ d]) simp_all
  moreover have "length jobs = k"
    using k(2,5) by simp
  moreover have "db_jobs w' = sql_update (\<lambda>r. r_id r \<in> job_ID ` set jobs) (take_lease until token) (db_jobs w)"
    "db_keys w' = db_keys w" "db_failed w' = db_failed w"
    by (simp_all add: w2(2) k(6) lease_rows_def)
  ultimately show ?thesis
    unfolding claim_rows_def [symmetric] Let_def by simp
qed

definition sample_bounded :: "(error + Job list) \<times> sqlite" where
  "sample_bounded = sqlite_FindAndReserveJobsForCapabilityBounded sample_str (99 * millisecond) (120 * millisecond)
     (LeaseToken 8) sample_cap \<lparr>bl_MaxMessages = 10, bl_MaxBytes = 5\<rparr> sample_db"

theorem sqlite_bounded_claim_prefix_witness:
  "map job_ID (projr (fst sample_bounded)) = [JobID 1, JobID 2] \<and> 1 \<le> length (projr (fst sample_bounded)) \<and>
   int (length (projr (fst sample_bounded))) \<le> 10"
proof -
  have "sqlite_FindAndReserveJobsForCapabilityBounded sample_str (99 * millisecond) (120 * millisecond)
      (LeaseToken 8) sample_cap \<lparr>bl_MaxMessages = 10, bl_MaxBytes = 5\<rparr> sample_db =
      (Inr (projr (fst sample_bounded)), snd sample_bounded)"
    by code_simp
  moreover have "map job_ID (projr (fst sample_bounded)) = [JobID 1, JobID 2]"
    by code_simp
  ultimately show ?thesis
    using sqlite_bounded_claim_prefix [OF wf_sample_db] unfolding Let_def by fastforce
qed

section \<open>Failed claims\<close>

lemma bounded_claim_ok:
  assumes "sqlite_FindAndReserveJobsForCapabilityBounded str now until token cap limits w = (Inr jobs, w')"
    and d: "distinct (map r_id (db_jobs w))"
  obtains k where
    "map job_ID jobs = map r_id (take k (claim_rows str now [cap] (bl_MaxMessages limits) (db_jobs w)))"
    "db_jobs w' = lease_rows (map r_id (take k (claim_rows str now [cap] (bl_MaxMessages limits) (db_jobs w))))
       until token (db_jobs w)"
proof -
  have "withImmediateTransaction
      (findAndReserveBatchBoundedWithExecutor str now until token cap limits) w = (Inr jobs, w')"
    using assms(1) by (auto simp: sqlite_FindAndReserveJobsForCapabilityBounded_def
        split: option.splits if_splits)
  then obtain F w2 G where w2: "findAndReserveBatchBoundedWithExecutor str now until token cap limits
      (w\<lparr>db_faults := F, db_in_tx := True\<rparr>) = (Inr jobs, w2)"
    "w' = w2\<lparr>db_faults := G, db_in_tx := db_in_tx w \<and> db_in_tx w2\<rparr>"
    by (rule withImmediateTransaction_ok)
  from w2(1) _ d show thesis
  proof (rule bounded_executor_ok)
    fix F' k
    let ?cands = "claim_rows str now [cap] (bl_MaxMessages limits) (db_jobs w)"
    assume k: "jobs = map (\<lambda>r. scanJob (take_lease until token r)) (take k ?cands)"
      "w2 = w\<lparr>db_faults := F, db_in_tx := True, db_faults := F',
              db_jobs := lease_rows (map job_ID jobs) until token (db_jobs w)\<rparr>"
    have "map job_ID jobs = map r_id (take k ?cands)"
      by (simp add: k(1) comp_def scanJob_def)
    moreover have "db_jobs w' = lease_rows (map job_ID jobs) until token (db_jobs w)"
      by (simp add: w2(2) k(2))
    ultimately show thesis
      using that by simp
  qed simp_all
qed







end
