(* ===== verification/Lease_Store.thy ===== *)
theory Lease_Store
  imports Repository
begin

text \<open>
  What the service relies on the jobs table for, independently of a database: a map from job
  identifiers to the state of their lease, changed only by taking free jobs and by changing jobs one
  owns. This is the contract of \<open>JobsRepository\<close> and \<open>BatchJobsRepository\<close> in src/outbox/contract.go and
  src/outbox/batch.go; the storage backends are proved to implement it. On top of it stands an abstract
  protocol of any number of workers, with the leases each of them was told it has, and its main
  invariant: at no time do two different tokens hold the same job. The calls of the SQLite repository
  are proved to be steps of this protocol in \<open>Sqlite_Fleet\<close>.
\<close>

section \<open>Lease states\<close>

text \<open>Deadlines and availability are in milliseconds, the unit in which they are compared.\<close>

record lease_state =
  ls_token :: LeaseToken
  ls_until :: "int option"
  ls_available :: int
  ls_attempts :: int

type_synonym lease_store = "JobID \<Rightarrow> lease_state option"

definition ls_free :: "time \<Rightarrow> lease_state \<Rightarrow> bool" where
  "ls_free now l \<longleftrightarrow> ls_available l \<le> UnixMilli now \<and>
     (case ls_until l of None \<Rightarrow> True | Some d \<Rightarrow> d \<le> UnixMilli now)"

definition ls_owned :: "LeaseToken \<Rightarrow> time \<Rightarrow> lease_state \<Rightarrow> bool" where
  "ls_owned token now l \<longleftrightarrow> ls_token l = token \<and>
     (case ls_until l of None \<Rightarrow> False | Some d \<Rightarrow> d > UnixMilli now)"

definition ls_take :: "int \<Rightarrow> LeaseToken \<Rightarrow> lease_state \<Rightarrow> lease_state" where
  "ls_take until token l = l\<lparr>ls_token := token, ls_until := Some until, ls_attempts := ls_attempts l + 1\<rparr>"

definition ls_drop :: "lease_state \<Rightarrow> lease_state" where
  "ls_drop l = l\<lparr>ls_token := LeaseTokenNil, ls_until := None\<rparr>"

definition ls_uncount :: "lease_state \<Rightarrow> lease_state" where
  "ls_uncount l = l\<lparr>ls_attempts := ls_attempts l - 1\<rparr>"

text \<open>What an owner may do to a job: prolong its lease, give it back unstarted, schedule it again with
  or without the attempt counted, or remove it.\<close>

datatype lease_change = Extend int | Release | Reschedule int | Postpone int | Remove

fun lease_effect :: "lease_change \<Rightarrow> lease_state \<Rightarrow> lease_state option" where
  "lease_effect (Extend until) l = Some (l\<lparr>ls_until := Some until\<rparr>)"
| "lease_effect Release l = Some (ls_drop (ls_uncount l))"
| "lease_effect (Reschedule at) l = Some ((ls_drop l)\<lparr>ls_available := at\<rparr>)"
| "lease_effect (Postpone at) l = Some ((ls_drop (ls_uncount l))\<lparr>ls_available := at\<rparr>)"
| "lease_effect Remove l = None"

section \<open>Operations of the store\<close>

definition store_create :: "JobID \<Rightarrow> int \<Rightarrow> lease_store \<Rightarrow> lease_store" where
  "store_create i at S =
     S(i \<mapsto> \<lparr>ls_token = LeaseTokenNil, ls_until = None, ls_available = at, ls_attempts = 0\<rparr>)"

definition store_claim :: "int \<Rightarrow> LeaseToken \<Rightarrow> JobID set \<Rightarrow> lease_store \<Rightarrow> lease_store" where
  "store_claim until token I S = (\<lambda>i. if i \<in> I then map_option (ls_take until token) (S i) else S i)"

definition store_own ::
  "LeaseToken \<Rightarrow> time \<Rightarrow> (JobID \<Rightarrow> lease_change option) \<Rightarrow> lease_store \<Rightarrow> lease_store" where
  "store_own token now changes S = (\<lambda>i.
     case S i of
       None \<Rightarrow> None
     | Some l \<Rightarrow> (case changes i of
                   Some c \<Rightarrow> if ls_owned token now l then lease_effect c l else Some l
                 | None \<Rightarrow> Some l))"

text \<open>The jobs such a call takes effect on, whose number the repositories report.\<close>

definition own_hits ::
  "LeaseToken \<Rightarrow> time \<Rightarrow> (JobID \<Rightarrow> lease_change option) \<Rightarrow> lease_store \<Rightarrow> JobID set" where
  "own_hits token now changes S = {i. changes i \<noteq> None \<and> (\<exists>l. S i = Some l \<and> ls_owned token now l)}"

text \<open>The same change for a set of jobs.\<close>

definition on_jobs :: "JobID set \<Rightarrow> lease_change \<Rightarrow> JobID \<Rightarrow> lease_change option" where
  "on_jobs I c = (\<lambda>i. if i \<in> I then Some c else None)"

section \<open>Holding a lease\<close>

text \<open>\<open>token\<close> holds job \<open>i\<close> up to the millisecond \<open>d\<close>.\<close>

definition holds_until :: "lease_store \<Rightarrow> JobID \<Rightarrow> LeaseToken \<Rightarrow> int \<Rightarrow> bool" where
  "holds_until S i token d \<longleftrightarrow> (\<exists>l u. S i = Some l \<and> ls_token l = token \<and> ls_until l = Some u \<and> d \<le> u)"

lemma holds_until_same_token: "holds_until S i t1 d1 \<Longrightarrow> holds_until S i t2 d2 \<Longrightarrow> t1 = t2"
  by (auto simp: holds_until_def)

lemma holds_until_create: "holds_until S i token d \<Longrightarrow> S j = None \<Longrightarrow> holds_until (store_create j at S) i token d"
  by (auto simp: holds_until_def store_create_def)

lemma holds_until_claim:
  assumes "holds_until S i token d" "UnixMilli now < d"
    and "\<forall>j \<in> I. \<exists>l. S j = Some l \<and> ls_free now l"
  shows "holds_until (store_claim until token' I S) i token d"
proof -
  have "i \<notin> I"
    using assms by (fastforce simp: holds_until_def ls_free_def)
  then show ?thesis
    using assms(1) by (simp add: holds_until_def store_claim_def)
qed

lemma holds_until_claimed:
  "i \<in> I \<Longrightarrow> S i \<noteq> None \<Longrightarrow> holds_until (store_claim until token I S) i token until"
  by (auto simp: holds_until_def store_claim_def ls_take_def)

lemma holds_until_own_other:
  "holds_until S i token d \<Longrightarrow> token' \<noteq> token \<or> changes i = None \<Longrightarrow>
   holds_until (store_own token' now changes S) i token d"
  by (auto simp: holds_until_def store_own_def ls_owned_def split: option.splits)

lemma holds_until_extend:
  assumes "holds_until S i token d" "i \<in> I \<Longrightarrow> token' = token \<Longrightarrow> d \<le> until"
  shows "holds_until (store_own token' now (on_jobs I (Extend until)) S) i token d"
  using assms by (auto simp: holds_until_def store_own_def on_jobs_def ls_owned_def split: option.splits)

lemma holds_until_extended:
  "i \<in> own_hits token now (on_jobs I (Extend until)) S \<Longrightarrow>
   holds_until (store_own token now (on_jobs I (Extend until)) S) i token until"
  by (auto simp: holds_until_def store_own_def own_hits_def on_jobs_def ls_owned_def)

section \<open>The protocol of the workers\<close>

text \<open>The shared clock, the store, and for every lease some worker was told it has: the job, the
  token and the deadline. A worker acts on a time it read earlier, so \<open>now\<close> lies anywhere before
  the clock. It extends its leases no less far than it was told they run, and it gives up the leases of
  the jobs it is about to finish.\<close>

record protocol =
  p_clock :: time
  p_store :: lease_store
  p_grants :: "(JobID \<times> LeaseToken \<times> int) set"

definition is_extend :: "lease_change \<Rightarrow> bool" where
  "is_extend c = (case c of Extend _ \<Rightarrow> True | _ \<Rightarrow> False)"

inductive protocol_step :: "protocol \<Rightarrow> protocol \<Rightarrow> bool" where
  tick: "p_clock s \<le> t \<Longrightarrow> protocol_step s (s\<lparr>p_clock := t\<rparr>)"
| create: "p_store s i = None \<Longrightarrow> protocol_step s (s\<lparr>p_store := store_create i at (p_store s)\<rparr>)"
| claim: "now \<le> p_clock s \<Longrightarrow> \<forall>i \<in> I. \<exists>l. p_store s i = Some l \<and> ls_free now l \<Longrightarrow>
    protocol_step s (s\<lparr>p_store := store_claim until token I (p_store s),
                       p_grants := p_grants s \<union> (\<lambda>i. (i, token, until)) ` I\<rparr>)"
| extend: "now \<le> p_clock s \<Longrightarrow>
    \<forall>(i, t, d) \<in> p_grants s. i \<in> I \<longrightarrow> t = token \<longrightarrow> UnixMilli (p_clock s) < d \<longrightarrow> d \<le> until \<Longrightarrow>
    protocol_step s (s\<lparr>p_store := store_own token now (on_jobs I (Extend until)) (p_store s),
      p_grants := p_grants s \<union>
        (\<lambda>i. (i, token, until)) ` own_hits token now (on_jobs I (Extend until)) (p_store s)\<rparr>)"
| finish: "now \<le> p_clock s \<Longrightarrow>
    protocol_step s (s\<lparr>p_store := store_own token now changes (p_store s),
      p_grants := {(i, t, d) \<in> p_grants s. t \<noteq> token \<or> changes i = None}\<rparr>)"
| forget: "G \<subseteq> p_grants s \<Longrightarrow> protocol_step s (s\<lparr>p_grants := G\<rparr>)"

inductive protocol_reachable :: "protocol \<Rightarrow> bool" where
  initial: "p_grants s = {} \<Longrightarrow> protocol_reachable s"
| step: "protocol_reachable s \<Longrightarrow> protocol_step s s' \<Longrightarrow> protocol_reachable s'"

text \<open>The invariant: a granted lease that has not run out is in the store, under its token and at
  least up to the granted deadline.\<close>

definition grants_backed :: "protocol \<Rightarrow> bool" where
  "grants_backed s \<longleftrightarrow>
     (\<forall>(i, token, d) \<in> p_grants s. UnixMilli (p_clock s) < d \<longrightarrow> holds_until (p_store s) i token d)"

lemma grants_backedD:
  "grants_backed s \<Longrightarrow> (i, token, d) \<in> p_grants s \<Longrightarrow> UnixMilli (p_clock s) < d \<Longrightarrow>
   holds_until (p_store s) i token d"
  by (auto simp: grants_backed_def)

lemma grants_backed_step:
  assumes "protocol_step s s'" "grants_backed s"
  shows "grants_backed s'"
  using assms(1)
proof cases
  case (tick t)
  then show ?thesis
    using assms(2) UnixMilli_mono [of "p_clock s" t] by (fastforce simp: grants_backed_def)
next
  case (create i at)
  then show ?thesis
    using assms(2) by (fastforce simp: grants_backed_def intro: holds_until_create)
next
  case (claim now I until token)
  have "UnixMilli now < d" if "UnixMilli (p_clock s) < d" for d
    using that UnixMilli_mono [OF claim(2)] by simp
  then show ?thesis
    using claim assms(2)
    by (auto simp: grants_backed_def intro!: holds_until_claimed holds_until_claim [where now = now])
next
  case (extend now I token until)
  then show ?thesis
    using assms(2)
    by (fastforce simp: grants_backed_def intro: holds_until_extended holds_until_extend)
next
  case (finish now token changes)
  then show ?thesis
    using assms(2) by (fastforce simp: grants_backed_def intro: holds_until_own_other)
next
  case (forget G)
  then show ?thesis
    using assms(2) by (auto simp: grants_backed_def)
qed

lemma grants_backed_reachable: "protocol_reachable s \<Longrightarrow> grants_backed s"
proof (induction rule: protocol_reachable.induct)
  case (initial s)
  then show ?case
    by (simp add: grants_backed_def)
qed (rule grants_backed_step)

text \<open>Two leases on the same job that have both not run out belong to the same token, and the job is in the
  store under that token at least until the later of their deadlines.\<close>

lemma protocol_exclusive:
  assumes "protocol_reachable s"
    and "(i, t1, d1) \<in> p_grants s" "(i, t2, d2) \<in> p_grants s"
    and "UnixMilli (p_clock s) < d1" "UnixMilli (p_clock s) < d2"
  shows "t1 = t2 \<and> (\<exists>l u. p_store s i = Some l \<and> ls_token l = t1 \<and> ls_until l = Some u \<and> max d1 d2 \<le> u)"
proof -
  have "holds_until (p_store s) i t1 d1" "holds_until (p_store s) i t2 d2"
    using assms grants_backed_reachable [OF assms(1)] by (auto intro: grants_backedD)
  then show ?thesis
    by (auto simp: holds_until_def)
qed

end
