(* ===== verification/Sqlite_Leases.thy ===== *)
theory Sqlite_Leases
  imports Sqlite_Claims Lease_Store
begin

text \<open>
  The lease operations of the SQLite repository implement the abstract lease store: each of them
  is, on the abstraction of the jobs table, the claim or the owner's change of \<open>Lease_Store\<close>, and the
  row count it reports is the number of jobs it took effect on. The second part is the fence seen on
  the rows themselves, and the invariants of the table that every operation keeps.
\<close>

section \<open>The abstraction\<close>

definition abs_row :: "job_row \<Rightarrow> lease_state" where
  "abs_row r = \<lparr>ls_token = r_lease_token r, ls_until = r_reserved_at r, ls_available = r_available_at r,
                ls_attempts = r_attempts r\<rparr>"

definition abs_store :: "job_row list \<Rightarrow> lease_store" where
  "abs_store js i = map_option abs_row (row_at r_id js i)"

text \<open>The invariant of the jobs table: the constraints of the schema, and that a row under a lease
  has a token and has been attempted.\<close>

definition lease_wf :: "job_row list \<Rightarrow> bool" where
  "lease_wf js \<longleftrightarrow> wf_jobs js \<and>
     (\<forall>r \<in> set js. 0 \<le> r_attempts r \<and>
        (r_reserved_at r \<noteq> None \<longrightarrow> 0 < r_attempts r \<and> r_lease_token r \<noteq> LeaseTokenNil))"

lemma lease_wf_distinct: "lease_wf js \<Longrightarrow> distinct (map r_id js)"
  by (simp add: lease_wf_def wf_jobs_def)

lemma leased_abs: "leased token now r \<longleftrightarrow> ls_owned token now (abs_row r)"
  by (simp add: leased_def ls_owned_def abs_row_def)

lemma claimable_abs: "claimable now r \<longleftrightarrow> ls_free now (abs_row r)"
  by (simp add: claimable_def ls_free_def abs_row_def)

lemma lease_wf_attempts: "lease_wf js \<Longrightarrow> r \<in> set js \<Longrightarrow> leased token now r \<Longrightarrow> 0 < r_attempts r"
  by (auto simp: lease_wf_def leased_def split: option.splits)

lemma abs_store_Some: "lease_wf js \<Longrightarrow> r \<in> set js \<Longrightarrow> abs_store js (r_id r) = Some (abs_row r)"
  by (auto simp: abs_store_def row_at_iff [OF lease_wf_distinct])

lemma abs_store_iff:
  "lease_wf js \<Longrightarrow> abs_store js i = Some l \<longleftrightarrow> (\<exists>r \<in> set js. r_id r = i \<and> abs_row r = l)"
  by (auto simp: abs_store_def row_at_iff [OF lease_wf_distinct])

section \<open>Refinement of owner operations\<close>

lemma own_hits_count:
  assumes "lease_wf js" "\<And>r. r \<in> set js \<Longrightarrow> p r \<longleftrightarrow> changes (r_id r) \<noteq> None \<and> leased token now r"
  shows "sql_count p js = int (card (own_hits token now changes (abs_store js)))"
proof -
  have "sql_count p js = sql_count (\<lambda>r. r_id r \<in> {i. changes i \<noteq> None} \<and> leased token now r) js"
    using assms(2) by (auto simp: sql_count_def intro!: arg_cong [where f = length] filter_cong)
  also have "\<dots> = int (card {i \<in> {i. changes i \<noteq> None}. \<exists>r \<in> set js. r_id r = i \<and> leased token now r})"
    using lease_wf_distinct [OF assms(1)] by (rule sql_count_card)
  also have "{i \<in> {i. changes i \<noteq> None}. \<exists>r \<in> set js. r_id r = i \<and> leased token now r} =
      own_hits token now changes (abs_store js)"
    by (auto simp: own_hits_def leased_abs abs_store_iff [OF assms(1)])
  finally show ?thesis .
qed

lemma update_refines_own:
  assumes "lease_wf js" "\<And>r. r_id (f r) = r_id r"
    and p: "\<And>r. r \<in> set js \<Longrightarrow> p r \<longleftrightarrow> changes (r_id r) \<noteq> None \<and> leased token now r"
    and f: "\<And>r c. r \<in> set js \<Longrightarrow> p r \<Longrightarrow> changes (r_id r) = Some c \<Longrightarrow>
      lease_effect c (abs_row r) = Some (abs_row (f r))"
  shows "abs_store (sql_update p f js) = store_own token now changes (abs_store js)"
proof
  fix i
  show "abs_store (sql_update p f js) i = store_own token now changes (abs_store js) i"
  proof (cases "row_at r_id js i")
    case None
    then show ?thesis
      by (simp add: abs_store_def store_own_def row_at_update assms(2))
  next
    case (Some r)
    then have "r \<in> set js" "r_id r = i"
      by (auto dest: row_at_SomeD)
    then show ?thesis
      using Some p [of r] f [of r]
      by (cases "changes i") (simp_all add: abs_store_def store_own_def row_at_update assms(2) leased_abs)
  qed
qed

lemma delete_refines_own:
  assumes "lease_wf js"
    and p: "\<And>r. r \<in> set js \<Longrightarrow> p r \<longleftrightarrow> changes (r_id r) \<noteq> None \<and> leased token now r"
    and f: "\<And>i. changes i = None \<or> changes i = Some Remove"
  shows "abs_store (sql_delete p js) = store_own token now changes (abs_store js)"
proof
  fix i
  show "abs_store (sql_delete p js) i = store_own token now changes (abs_store js) i"
  proof (cases "row_at r_id js i")
    case None
    then show ?thesis
      using row_at_delete [OF lease_wf_distinct [OF assms(1)]] by (simp add: abs_store_def store_own_def)
  next
    case (Some r)
    then have "r \<in> set js" "r_id r = i"
      by (auto dest: row_at_SomeD)
    then show ?thesis
      using Some p [of r] f [of i] row_at_delete [OF lease_wf_distinct [OF assms(1)], of p i]
      by (cases "changes i") (simp_all add: abs_store_def store_own_def leased_abs)
  qed
qed

text \<open>An operation that reports a count has made the owner's changes and counted them; one that
  reports an error has changed nothing.\<close>

definition own_refined ::
  "LeaseToken \<Rightarrow> time \<Rightarrow> (JobID \<Rightarrow> lease_change option) \<Rightarrow> error + int \<Rightarrow> job_row list \<Rightarrow> job_row list \<Rightarrow> bool" where
  "own_refined token now changes res js js' \<longleftrightarrow>
     (case res of
        Inl _ \<Rightarrow> js' = js
      | Inr n \<Rightarrow> abs_store js' = store_own token now changes (abs_store js) \<and>
                 n = int (card (own_hits token now changes (abs_store js))))"

lemma update_jobs_refined:
  assumes "update_jobs p f w = (res, w')" "lease_wf (db_jobs w)" "\<And>r. r_id (f r) = r_id r"
    and "\<And>r. r \<in> set (db_jobs w) \<Longrightarrow> p r \<longleftrightarrow> changes (r_id r) \<noteq> None \<and> leased token now r"
    and "\<And>r c. r \<in> set (db_jobs w) \<Longrightarrow> p r \<Longrightarrow> changes (r_id r) = Some c \<Longrightarrow>
      lease_effect c (abs_row r) = Some (abs_row (f r))"
  shows "own_refined token now changes res (db_jobs w) (db_jobs w')"
  using assms(1)
proof (cases rule: update_jobs_cases)
  case (failed e F)
  then show ?thesis
    by (simp add: own_refined_def)
next
  case (ran F)
  have "abs_store (sql_update p f (db_jobs w)) = store_own token now changes (abs_store (db_jobs w))"
    by (rule update_refines_own) (fact assms)+
  moreover have "sql_count p (db_jobs w) = int (card (own_hits token now changes (abs_store (db_jobs w))))"
    by (rule own_hits_count) (fact assms)+
  ultimately show ?thesis
    by (simp add: ran own_refined_def)
qed

lemma delete_jobs_refined:
  assumes "delete_jobs p w = (res, w')" "lease_wf (db_jobs w)"
    and "\<And>r. r \<in> set (db_jobs w) \<Longrightarrow> p r \<longleftrightarrow> changes (r_id r) \<noteq> None \<and> leased token now r"
    and "\<And>i. changes i = None \<or> changes i = Some Remove"
  shows "own_refined token now changes res (db_jobs w) (db_jobs w')"
  using assms(1)
proof (cases rule: delete_jobs_cases)
  case (failed e F)
  then show ?thesis
    by (simp add: own_refined_def)
next
  case (ran F)
  have "abs_store (sql_delete p (db_jobs w)) = store_own token now changes (abs_store (db_jobs w))"
    by (rule delete_refines_own) (fact assms)+
  moreover have "sql_count p (db_jobs w) = int (card (own_hits token now changes (abs_store (db_jobs w))))"
    by (rule own_hits_count) (fact assms)+
  ultimately show ?thesis
    by (simp add: ran own_refined_def)
qed

lemmas effect_defs = abs_row_def ls_drop_def ls_uncount_def on_jobs_def

lemma extend_refined:
  assumes "sqlite_ExtendJobLeases ids token now until w = (res, w')" "lease_wf (db_jobs w)"
  shows "own_refined token now (on_jobs (set ids) (Extend (UnixMilli until))) res (db_jobs w) (db_jobs w')"
proof (cases "validateBatchLease ids token")
  case None
  with assms(1) have "update_jobs (\<lambda>r. r_id r \<in> set ids \<and> leased token now r)
      (\<lambda>r. r\<lparr>r_reserved_at := Some (UnixMilli until)\<rparr>) w = (res, w')"
    by (simp add: sqlite_ExtendJobLeases_def)
  then show ?thesis
    by (rule update_jobs_refined [OF _ assms(2)]) (auto simp: effect_defs)
qed (use assms(1) in \<open>auto simp: sqlite_ExtendJobLeases_def own_refined_def\<close>)

lemma release_refined:
  assumes "sqlite_ReleaseUnstartedJobsWithLease ids token now w = (res, w')" "lease_wf (db_jobs w)"
  shows "own_refined token now (on_jobs (set ids) Release) res (db_jobs w) (db_jobs w')"
proof (cases "validateBatchLease ids token")
  case None
  with assms(1) have "update_jobs (\<lambda>r. r_id r \<in> set ids \<and> leased token now r \<and> r_attempts r > 0)
      (\<lambda>r. r\<lparr>r_attempts := r_attempts r - 1, r_reserved_at := None, r_lease_token := LeaseTokenNil\<rparr>) w = (res, w')"
    by (simp add: sqlite_ReleaseUnstartedJobsWithLease_def)
  then show ?thesis
    by (rule update_jobs_refined [OF _ assms(2)])
       (auto simp: effect_defs dest: lease_wf_attempts [OF assms(2)])
qed (use assms(1) in \<open>auto simp: sqlite_ReleaseUnstartedJobsWithLease_def own_refined_def\<close>)

lemma delete_refined:
  assumes "sqlite_DeleteJobWithLease i token now w = (res, w')" "lease_wf (db_jobs w)"
  shows "own_refined token now (on_jobs {i} Remove) res (db_jobs w) (db_jobs w')"
proof (cases "JobID_IsZero i \<or> LeaseToken_Validate token \<noteq> None")
  case False
  with assms(1) have "delete_jobs (\<lambda>r. r_id r = i \<and> leased token now r) w = (res, w')"
    by (simp add: sqlite_DeleteJobWithLease_def LeaseToken_Validate_def LeaseToken_IsZero_def)
  then show ?thesis
    by (rule delete_jobs_refined [OF _ assms(2)]) (auto simp: on_jobs_def split: if_splits)
qed (use assms(1) in \<open>auto simp: sqlite_DeleteJobWithLease_def own_refined_def split: if_splits option.splits\<close>)

lemma reschedule_refined:
  assumes "sqlite_RescheduleJobWithLease i token now at w = (res, w')" "lease_wf (db_jobs w)"
  shows "own_refined token now (on_jobs {i} (Reschedule (UnixMilli at))) res (db_jobs w) (db_jobs w')"
proof (cases "JobID_IsZero i \<or> LeaseToken_Validate token \<noteq> None")
  case False
  with assms(1) have "update_jobs (\<lambda>r. r_id r = i \<and> leased token now r)
      (\<lambda>r. r\<lparr>r_available_at := UnixMilli at, r_reserved_at := None, r_lease_token := LeaseTokenNil\<rparr>) w = (res, w')"
    by (simp add: sqlite_RescheduleJobWithLease_def LeaseToken_Validate_def LeaseToken_IsZero_def)
  then show ?thesis
    by (rule update_jobs_refined [OF _ assms(2)]) (auto simp: effect_defs)
qed (use assms(1) in \<open>auto simp: sqlite_RescheduleJobWithLease_def own_refined_def split: if_splits option.splits\<close>)

text \<open>C16. Extending, releasing, deleting and rescheduling implement the abstract lease store: on the
  abstraction of the jobs table they make exactly the owner's change on the named jobs that the token
  still owns, the count they report is the number of those jobs, and when they report an error the
  table is unchanged.\<close>

theorem sqlite_lease_ops_refine:
  assumes "lease_wf (db_jobs w)"
  shows
    "(\<forall>res w'. sqlite_ExtendJobLeases ids token now until w = (res, w') \<longrightarrow>
       own_refined token now (on_jobs (set ids) (Extend (UnixMilli until))) res (db_jobs w) (db_jobs w')) \<and>
     (\<forall>res w'. sqlite_ReleaseUnstartedJobsWithLease ids token now w = (res, w') \<longrightarrow>
       own_refined token now (on_jobs (set ids) Release) res (db_jobs w) (db_jobs w')) \<and>
     (\<forall>res w'. sqlite_DeleteJobWithLease i token now w = (res, w') \<longrightarrow>
       own_refined token now (on_jobs {i} Remove) res (db_jobs w) (db_jobs w')) \<and>
     (\<forall>res w'. sqlite_RescheduleJobWithLease i token now at w = (res, w') \<longrightarrow>
       own_refined token now (on_jobs {i} (Reschedule (UnixMilli at))) res (db_jobs w) (db_jobs w'))"
  using assms by (auto intro: extend_refined release_refined delete_refined reschedule_refined)

lemma lease_wf_sample: "lease_wf (db_jobs sample_db)"
  by code_simp

theorem sqlite_lease_ops_refine_witness:
  "fst (sqlite_ExtendJobLeases [JobID 1, JobID 2] (LeaseToken 7) (50 * millisecond) (120 * millisecond) sample_db) = Inr 1 \<and>
   abs_store (db_jobs (snd (sqlite_ExtendJobLeases [JobID 1, JobID 2] (LeaseToken 7) (50 * millisecond)
     (120 * millisecond) sample_db))) =
   store_own (LeaseToken 7) (50 * millisecond) (on_jobs {JobID 1, JobID 2} (Extend 120)) (abs_store (db_jobs sample_db))"
proof -
  let ?r = "sqlite_ExtendJobLeases [JobID 1, JobID 2] (LeaseToken 7) (50 * millisecond) (120 * millisecond) sample_db"
  have "?r = (fst ?r, snd ?r)"
    by simp
  then have "own_refined (LeaseToken 7) (50 * millisecond)
      (on_jobs (set [JobID 1, JobID 2]) (Extend (UnixMilli (120 * millisecond)))) (fst ?r) (db_jobs sample_db) (db_jobs (snd ?r))"
    using sqlite_lease_ops_refine [OF lease_wf_sample, of "[JobID 1, JobID 2]" "LeaseToken 7" "50 * millisecond"
        "120 * millisecond"] by blast
  moreover have "fst ?r = Inr 1"
    by code_simp
  moreover have "UnixMilli (120 * millisecond) = 120"
    by (simp add: UnixMilli_def millisecond_def)
  ultimately show ?thesis
    by (simp add: own_refined_def)
qed

section \<open>Refinement of batch outcomes\<close>

definition outcome_change :: "BatchJobOutcome \<Rightarrow> lease_change option" where
  "outcome_change x =
     (case bo_Kind x of
        BatchJobOutcomeSuccess \<Rightarrow> Some Remove
      | BatchJobOutcomeDLQ \<Rightarrow> Some Remove
      | BatchJobOutcomeRetry \<Rightarrow> Some (Reschedule (UnixMilli (bo_AvailableAt x)))
      | BatchJobOutcomeDefer \<Rightarrow> Some (Postpone (UnixMilli (bo_AvailableAt x)))
      | BatchJobOutcomeUnknown _ \<Rightarrow> None)"

definition outcome_changes :: "BatchJobOutcome list \<Rightarrow> JobID \<Rightarrow> lease_change option" where
  "outcome_changes outcomes i = Option.bind (outcome_of outcomes i) outcome_change"

lemma validate_outcomes_distinct:
  "validate_outcomes_loop seen outcomes = None \<Longrightarrow>
   distinct (map bo_JobID outcomes) \<and> set (map bo_JobID outcomes) \<inter> seen = {} \<and>
   (\<forall>x \<in> set outcomes. is_terminal (bo_Kind x) \<or> is_delayed (bo_Kind x))"
proof (induction outcomes arbitrary: seen)
  case (Cons x outcomes)
  have x: "validate_outcomes_loop (insert (bo_JobID x) seen) outcomes = None" "bo_JobID x \<notin> seen"
    "is_terminal (bo_Kind x) \<or> is_delayed (bo_Kind x)"
    using Cons.prems by (auto simp: is_terminal_def is_delayed_def Let_def
        split: option.splits if_splits BatchJobOutcomeKind.splits)
  show ?case
    using Cons.IH [OF x(1)] x(2,3) by auto
qed simp

lemma validateBatchOutcomes_None:
  "validateBatchOutcomes token outcomes = None \<Longrightarrow>
   distinct (map bo_JobID outcomes) \<and> token \<noteq> LeaseTokenNil \<and>
   (\<forall>x \<in> set outcomes. is_terminal (bo_Kind x) \<or> is_delayed (bo_Kind x))"
  using validate_outcomes_distinct [of "{}" outcomes]
  by (auto simp: validateBatchOutcomes_def split: option.splits if_splits)

lemma outcome_of_Some:
  "distinct (map bo_JobID outcomes) \<Longrightarrow> outcome_of outcomes i = Some x \<longleftrightarrow> x \<in> set outcomes \<and> bo_JobID x = i"
  using row_at_iff [of bo_JobID outcomes i x] by (simp add: outcome_of_def row_at_def)

lemma outcome_of_None: "outcome_of outcomes i = None \<longleftrightarrow> i \<notin> bo_JobID ` set outcomes"
  using row_at_None_iff [of bo_JobID outcomes i] by (simp add: outcome_of_def row_at_def)

lemma store_own_compose:
  assumes "\<And>i. c1 i = None \<or> c2 i = None"
  shows "store_own token now c2 (store_own token now c1 S) =
    store_own token now (\<lambda>i. case c1 i of Some c \<Rightarrow> Some c | None \<Rightarrow> c2 i) S"
proof
  fix i
  show "store_own token now c2 (store_own token now c1 S) i =
    store_own token now (\<lambda>i. case c1 i of Some c \<Rightarrow> Some c | None \<Rightarrow> c2 i) S i"
    using assms [of i] by (cases "c1 i"; cases "S i") (auto simp: store_own_def split: option.splits)
qed

lemma own_hits_compose:
  assumes "\<And>i. c1 i = None \<or> c2 i = None"
  shows "own_hits token now c2 (store_own token now c1 S) = own_hits token now c2 S"
proof -
  have "store_own token now c1 S i = S i" if "c2 i \<noteq> None" for i
    using assms [of i] that by (auto simp: store_own_def split: option.splits)
  then show ?thesis
    by (auto simp: own_hits_def)
qed

section \<open>The invariant of the table\<close>

definition row_ok :: "job_row \<Rightarrow> bool" where
  "row_ok r \<longleftrightarrow> 0 \<le> r_attempts r \<and>
     (r_reserved_at r \<noteq> None \<longrightarrow> 0 < r_attempts r \<and> r_lease_token r \<noteq> LeaseTokenNil)"

lemma lease_wf_alt: "lease_wf js \<longleftrightarrow> wf_jobs js \<and> (\<forall>r \<in> set js. row_ok r)"
  by (simp add: lease_wf_def row_ok_def)

lemma map_filter_update:
  "(\<And>r. g (f r) = g r) \<Longrightarrow> List.map_filter g (sql_update p f js) = List.map_filter g js"
  by (induction js) (auto simp: List.map_filter_simps split: option.splits)

lemma set_map_filter: "set (List.map_filter g js) = {y. \<exists>r \<in> set js. g r = Some y}"
  by (induction js) (auto simp: List.map_filter_simps split: option.splits)

lemma distinct_map_filter_delete:
  "distinct (List.map_filter g js) \<Longrightarrow> distinct (List.map_filter g (sql_delete p js))"
  by (induction js) (auto simp: List.map_filter_simps sql_delete_def set_map_filter split: option.splits)

lemma wf_jobs_update:
  assumes "wf_jobs js" "\<And>r. r_id (f r) = r_id r" "\<And>r. r_deduplication_key (f r) = r_deduplication_key r"
    and "\<And>r. r_schema_version (f r) = r_schema_version r"
  shows "wf_jobs (sql_update p f js)"
  using assms(1) by (auto simp: wf_jobs_def map_sql_update assms(2-4) map_filter_update set_sql_update)

lemma wf_jobs_delete: "wf_jobs js \<Longrightarrow> wf_jobs (sql_delete p js)"
  by (auto simp: wf_jobs_def distinct_map_filter_delete)

lemma lease_wf_update:
  assumes "lease_wf js" "\<And>r. r_id (f r) = r_id r" "\<And>r. r_deduplication_key (f r) = r_deduplication_key r"
    and "\<And>r. r_schema_version (f r) = r_schema_version r" "\<And>r. row_ok r \<Longrightarrow> p r \<Longrightarrow> row_ok (f r)"
  shows "lease_wf (sql_update p f js)"
proof -
  have "wf_jobs (sql_update p f js)"
    by (rule wf_jobs_update) (use assms(1) in \<open>simp_all add: lease_wf_alt assms(2-4)\<close>)
  then show ?thesis
    using assms(1,5) by (auto simp: lease_wf_alt set_sql_update)
qed

lemma lease_wf_delete: "lease_wf js \<Longrightarrow> lease_wf (sql_delete p js)"
  by (auto simp: lease_wf_alt wf_jobs_delete)

lemma lease_wf_lease_rows:
  "lease_wf js \<Longrightarrow> token \<noteq> LeaseTokenNil \<Longrightarrow> lease_wf (lease_rows ids until token js)"
  unfolding lease_rows_def by (rule lease_wf_update) (auto simp: row_ok_def take_lease_def)

lemma apply_delay_simps [simp]:
  "r_id (apply_delay outcomes r) = r_id r"
  "r_deduplication_key (apply_delay outcomes r) = r_deduplication_key r"
  "r_schema_version (apply_delay outcomes r) = r_schema_version r"
  by (auto simp: apply_delay_def split: option.splits)

lemma row_ok_apply_delay: "row_ok r \<Longrightarrow> 0 < r_attempts r \<Longrightarrow> row_ok (apply_delay outcomes r)"
  by (auto simp: row_ok_def apply_delay_def split: option.splits)

section \<open>Outcomes in the store\<close>

definition terminal_changes :: "BatchJobOutcome list \<Rightarrow> JobID \<Rightarrow> lease_change option" where
  "terminal_changes outcomes i = (if i \<in> outcome_ids is_terminal outcomes then Some Remove else None)"

definition delay_changes :: "BatchJobOutcome list \<Rightarrow> JobID \<Rightarrow> lease_change option" where
  "delay_changes outcomes i =
     (if i \<in> outcome_ids is_delayed outcomes then outcome_changes outcomes i else None)"

lemma outcome_ids_iff:
  "distinct (map bo_JobID outcomes) \<Longrightarrow>
   i \<in> outcome_ids p outcomes \<longleftrightarrow> (\<exists>x. outcome_of outcomes i = Some x \<and> p (bo_Kind x))"
  by (auto simp: outcome_ids_def outcome_of_Some)

lemma delay_changes_hit:
  "distinct (map bo_JobID outcomes) \<Longrightarrow> delay_changes outcomes i \<noteq> None \<longleftrightarrow> i \<in> outcome_ids is_delayed outcomes"
  by (auto simp: delay_changes_def outcome_changes_def outcome_ids_iff outcome_change_def is_delayed_def)

lemma changes_disjoint:
  "distinct (map bo_JobID outcomes) \<Longrightarrow> terminal_changes outcomes i = None \<or> delay_changes outcomes i = None"
  by (auto simp: terminal_changes_def delay_changes_def outcome_ids_iff is_terminal_def is_delayed_def)

lemma changes_join:
  assumes "distinct (map bo_JobID outcomes)"
    and "\<forall>x \<in> set outcomes. is_terminal (bo_Kind x) \<or> is_delayed (bo_Kind x)"
  shows "(case terminal_changes outcomes i of Some c \<Rightarrow> Some c | None \<Rightarrow> delay_changes outcomes i) =
    outcome_changes outcomes i"
proof (cases "outcome_of outcomes i")
  case None
  then show ?thesis
    using assms(1) by (simp add: terminal_changes_def delay_changes_def outcome_changes_def outcome_ids_iff)
next
  case (Some x)
  then have "is_terminal (bo_Kind x) \<or> is_delayed (bo_Kind x)"
    using assms by (simp add: outcome_of_Some)
  then show ?thesis
    using assms(1) Some by (auto simp: terminal_changes_def delay_changes_def outcome_changes_def
        outcome_ids_iff outcome_change_def is_terminal_def is_delayed_def)
qed

lemma delete_outcomes_refined:
  assumes "deleteBatchTerminalOutcomes token now outcomes w = (res, w')" "lease_wf (db_jobs w)"
  shows "own_refined token now (terminal_changes outcomes) res (db_jobs w) (db_jobs w')"
  using assms(1) unfolding deleteBatchTerminalOutcomes_def
  by (rule delete_jobs_refined [OF _ assms(2)]) (auto simp: terminal_changes_def)

lemma update_outcomes_refined:
  assumes "updateBatchRetryOutcomes token now outcomes w = (res, w')" "lease_wf (db_jobs w)"
    and "distinct (map bo_JobID outcomes)"
  shows "own_refined token now (delay_changes outcomes) res (db_jobs w) (db_jobs w')"
  using assms(1) unfolding updateBatchRetryOutcomes_def
proof (rule update_jobs_refined [OF _ assms(2)])
  fix r
  assume "r \<in> set (db_jobs w)"
  then show "(r_id r \<in> outcome_ids is_delayed outcomes \<and> leased token now r \<and> 0 < r_attempts r) \<longleftrightarrow>
      delay_changes outcomes (r_id r) \<noteq> None \<and> leased token now r"
    unfolding delay_changes_hit [OF assms(3)] using lease_wf_attempts [OF assms(2)] by blast
next
  fix r c
  assume "r \<in> set (db_jobs w)"
    "r_id r \<in> outcome_ids is_delayed outcomes \<and> leased token now r \<and> 0 < r_attempts r"
    "delay_changes outcomes (r_id r) = Some c"
  then show "lease_effect c (abs_row r) = Some (abs_row (apply_delay outcomes r))"
    using assms(3) by (auto simp: delay_changes_def outcome_changes_def outcome_ids_iff outcome_change_def
        is_delayed_def apply_delay_def abs_row_def ls_drop_def ls_uncount_def)
qed simp

lemma delete_outcomes_wf:
  "deleteBatchTerminalOutcomes token now outcomes w = (res, w') \<Longrightarrow> lease_wf (db_jobs w) \<Longrightarrow> lease_wf (db_jobs w')"
  unfolding deleteBatchTerminalOutcomes_def by (erule delete_jobs_cases) (simp_all add: lease_wf_delete)

lemma update_outcomes_wf:
  assumes "updateBatchRetryOutcomes token now outcomes w = (res, w')" "lease_wf (db_jobs w)"
  shows "lease_wf (db_jobs w')"
  using assms(1) unfolding updateBatchRetryOutcomes_def
proof (cases rule: update_jobs_cases)
  case (ran F)
  show ?thesis
    unfolding ran using assms(2) by simp (rule lease_wf_update, simp_all add: row_ok_apply_delay)
qed (use assms(2) in simp)

lemma outcomes_tx_refined:
  assumes "apply_outcomes_tx token now outcomes w = (None, w')" "lease_wf (db_jobs w)"
    and "distinct (map bo_JobID outcomes)"
    and "\<forall>x \<in> set outcomes. is_terminal (bo_Kind x) \<or> is_delayed (bo_Kind x)"
  shows "abs_store (db_jobs w') = store_own token now (outcome_changes outcomes) (abs_store (db_jobs w)) \<and>
    own_hits token now (outcome_changes outcomes) (abs_store (db_jobs w)) = bo_JobID ` set outcomes"
proof -
  let ?t = "terminal_changes outcomes" and ?d = "delay_changes outcomes"
  let ?hits = "\<lambda>c. own_hits token now c (abs_store (db_jobs w))"
  obtain n1 w1 n2 where a: "deleteBatchTerminalOutcomes token now outcomes w = (Inr n1, w1)"
    "updateBatchRetryOutcomes token now outcomes w1 = (Inr n2, w')" "n1 + n2 = int (length outcomes)"
    using assms(1) by (auto simp: apply_outcomes_tx_def split: prod.splits sum.splits if_splits)
  have wf1: "lease_wf (db_jobs w1)"
    using a(1) assms(2) by (rule delete_outcomes_wf)
  have r1: "abs_store (db_jobs w1) = store_own token now ?t (abs_store (db_jobs w))" "n1 = int (card (?hits ?t))"
    using delete_outcomes_refined [OF a(1) assms(2)] by (simp_all add: own_refined_def)
  have r2: "abs_store (db_jobs w') = store_own token now ?d (abs_store (db_jobs w1))" "n2 = int (card (?hits ?d))"
    using update_outcomes_refined [OF a(2) wf1 assms(3)]
    by (simp_all add: own_refined_def r1(1) own_hits_compose [OF changes_disjoint [OF assms(3)]])
  have join: "outcome_changes outcomes = (\<lambda>i. case ?t i of Some c \<Rightarrow> Some c | None \<Rightarrow> ?d i)"
    by (rule ext) (simp only: changes_join [OF assms(3,4)])
  have sub: "?hits (outcome_changes outcomes) \<subseteq> bo_JobID ` set outcomes"
    by (auto simp: own_hits_def outcome_changes_def outcome_of_Some [OF assms(3)] bind_eq_Some_conv)
  have split: "?hits (outcome_changes outcomes) = ?hits ?t \<union> ?hits ?d" "?hits ?t \<inter> ?hits ?d = {}"
    by (auto simp: join own_hits_def split: option.splits) (metis changes_disjoint [OF assms(3)] option.distinct(1))
  then have "finite (?hits ?t)" "finite (?hits ?d)"
    using sub finite_subset by (metis finite_Un finite_imageI finite_set)+
  then have "card (?hits (outcome_changes outcomes)) = card (bo_JobID ` set outcomes)"
    using a(3) assms(3) split by (simp add: r1(2) r2(2) card_Un_disjoint distinct_map card_image distinct_card)
  then have "?hits (outcome_changes outcomes) = bo_JobID ` set outcomes"
    by (intro card_subset_eq sub) simp_all
  moreover have "abs_store (db_jobs w') = store_own token now (outcome_changes outcomes) (abs_store (db_jobs w))"
    unfolding r2(1) r1(1) join by (rule store_own_compose) (rule changes_disjoint [OF assms(3)])
  ultimately show ?thesis
    by simp
qed

lemma outcomes_tx_frame:
  assumes "apply_outcomes_tx token now outcomes w = (res, w')"
  shows "db_lost_commits w' = db_lost_commits w \<and> db_keys w' = db_keys w \<and> db_failed w' = db_failed w"
proof -
  obtain r1 w1 where d: "deleteBatchTerminalOutcomes token now outcomes w = (r1, w1)"
    by fastforce
  obtain r2 w2 where u: "updateBatchRetryOutcomes token now outcomes w1 = (r2, w2)"
    by fastforce
  have "w' = w1 \<or> w' = w2"
    using assms d u by (auto simp: apply_outcomes_tx_def split: sum.splits if_splits)
  then show ?thesis
    using d u unfolding deleteBatchTerminalOutcomes_def updateBatchRetryOutcomes_def
    by (elim delete_jobs_cases update_jobs_cases) auto
qed

text \<open>The outcomes took effect as one: every one of them on a job the token owned.\<close>

definition outcomes_applied ::
  "LeaseToken \<Rightarrow> time \<Rightarrow> BatchJobOutcome list \<Rightarrow> job_row list \<Rightarrow> job_row list \<Rightarrow> bool" where
  "outcomes_applied token now outcomes js js' \<longleftrightarrow>
     own_hits token now (outcome_changes outcomes) (abs_store js) = bo_JobID ` set outcomes \<and>
     abs_store js' = store_own token now (outcome_changes outcomes) (abs_store js)"

lemma outcomes_tx_applied:
  assumes "apply_outcomes_tx token now outcomes (w\<lparr>db_faults := F, db_in_tx := True\<rparr>) = (None, w2)"
    and "validateBatchOutcomes token outcomes = None" "lease_wf (db_jobs w)"
  shows "outcomes_applied token now outcomes (db_jobs w) (db_jobs w2)"
  using outcomes_tx_refined [OF assms(1)] validateBatchOutcomes_None [OF assms(2)] assms(3)
  by (simp add: outcomes_applied_def)

lemma outcomes_cases:
  assumes "sqlite_ApplyBatchJobOutcomes token now outcomes w = (res, w')" "lease_wf (db_jobs w)" "\<not> db_in_tx w"
  obtains (refused) e where "res = Inl e" "tables w' = tables w"
    | (lost) e where "res = Inl e" "True \<in> set (db_lost_commits w)" "outcomes_applied token now outcomes (db_jobs w) (db_jobs w')"
        "db_keys w' = db_keys w" "db_failed w' = db_failed w"
    | (applied) "res = Inr (int (length outcomes))" "outcomes_applied token now outcomes (db_jobs w) (db_jobs w')"
        "db_keys w' = db_keys w" "db_failed w' = db_failed w"
proof (cases "validateBatchOutcomes token outcomes")
  case (Some e)
  then show thesis
    using assms(1) refused by (auto simp: sqlite_ApplyBatchJobOutcomes_def)
next
  case None
  obtain r w1 where tx: "sqlite_RunInTx (apply_outcomes_tx token now outcomes) w = (r, w1)"
    by fastforce
  then have res: "w' = w1" "r = None \<and> res = Inr (int (length outcomes)) \<or> (\<exists>e e'. r = Some e' \<and> res = Inl e)"
    using assms(1) None by (auto simp: sqlite_ApplyBatchJobOutcomes_def split: option.splits)
  show thesis
  proof (cases r)
    case None': None
    with tx have "sqlite_RunInTx (apply_outcomes_tx token now outcomes) w = (None, w1)"
      by simp
    then obtain F w2 G where w2: "apply_outcomes_tx token now outcomes (w\<lparr>db_faults := F, db_in_tx := True\<rparr>) = (None, w2)"
      "w1 = w2\<lparr>db_faults := G, db_in_tx := db_in_tx w \<and> db_in_tx w2\<rparr>"
      by (rule sqlite_RunInTx_ok)
    show thesis
      using outcomes_tx_applied [OF w2(1) None assms(2)] outcomes_tx_frame [OF w2(1)] None' res w2(2)
      by (intro that(3)) auto
  next
    case (Some e)
    with tx have "sqlite_RunInTx (apply_outcomes_tx token now outcomes) w = (Some e, w1)"
      by simp
    then show thesis
    proof (cases rule: sqlite_RunInTx_error [OF _ assms(3), consumes 1, case_names undone landed])
      case undone
      then show thesis
        using refused res Some by auto
    next
      case (landed F w2)
      have "lease_wf (db_jobs w)"
        by (fact assms(2))
      from outcomes_tx_applied [OF landed(1) None this] outcomes_tx_frame [OF landed(1)] landed(2,3)
      show thesis
        using res Some lost by (auto simp: tables_def)
    qed
  qed
qed

text \<open>C13. Finalizing a batch is all or nothing. When it succeeds, every outcome named a job the token
  still owned, and the abstraction of the jobs table is changed by exactly these outcomes: a
  successful or dead job is removed, a retried one is free again at its time, and a deferred one also
  gets its attempt back. When it fails outside a transaction, no table has changed; or its commit took
  effect and only the answer was lost, and then all the outcomes have been applied as on success and
  nothing else has changed. The second happens only where a commit is lost.\<close>

theorem sqlite_outcomes_all_or_nothing:
  assumes "lease_wf (db_jobs w)"
    and "sqlite_ApplyBatchJobOutcomes token now outcomes w = (res, w')"
  shows "case res of
      Inr n \<Rightarrow> n = int (length outcomes) \<and>
        own_hits token now (outcome_changes outcomes) (abs_store (db_jobs w)) = bo_JobID ` set outcomes \<and>
        abs_store (db_jobs w') = store_own token now (outcome_changes outcomes) (abs_store (db_jobs w))
    | Inl _ \<Rightarrow> db_in_tx w \<or> tables w' = tables w \<or>
        True \<in> set (db_lost_commits w) \<and>
        own_hits token now (outcome_changes outcomes) (abs_store (db_jobs w)) = bo_JobID ` set outcomes \<and>
        abs_store (db_jobs w') = store_own token now (outcome_changes outcomes) (abs_store (db_jobs w)) \<and>
        db_keys w' = db_keys w \<and> db_failed w' = db_failed w"
proof (cases res)
  case (Inl e)
  then show ?thesis
    using outcomes_cases [OF assms(2,1)] by (cases "db_in_tx w") (auto simp: outcomes_applied_def)
next
  case (Inr n)
  then have v: "validateBatchOutcomes token outcomes = None" "n = int (length outcomes)"
    "sqlite_RunInTx (apply_outcomes_tx token now outcomes) w = (None, w')"
    using assms(2) by (auto simp: sqlite_ApplyBatchJobOutcomes_def split: option.splits prod.splits)
  from v(3) obtain F w2 G where "apply_outcomes_tx token now outcomes (w\<lparr>db_faults := F, db_in_tx := True\<rparr>) = (None, w2)"
    "w' = w2\<lparr>db_faults := G, db_in_tx := db_in_tx w \<and> db_in_tx w2\<rparr>"
    by (rule sqlite_RunInTx_ok)
  then show ?thesis
    using outcomes_tx_refined [of token now outcomes "w\<lparr>db_faults := F, db_in_tx := True\<rparr>" w2]
      validateBatchOutcomes_None [OF v(1)] assms(1) Inr v(2) by simp
qed

definition sample_outcomes :: "BatchJobOutcome list" where
  "sample_outcomes =
     [\<lparr>bo_JobID = JobID 2, bo_Kind = BatchJobOutcomeDefer, bo_AvailableAt = 70 * millisecond, bo_Reason = []\<rparr>]"

definition sample_applied :: "(error + int) \<times> sqlite" where
  "sample_applied = sqlite_ApplyBatchJobOutcomes (LeaseToken 7) (50 * millisecond) sample_outcomes sample_db"

text \<open>The same call with a commit that took effect but was not answered.\<close>

definition sample_unanswered :: "(error + int) \<times> sqlite" where
  "sample_unanswered = sqlite_ApplyBatchJobOutcomes (LeaseToken 7) (50 * millisecond) sample_outcomes
     (sample_db\<lparr>db_faults := [None, None, None, Some (ErrNew ''context canceled'')], db_lost_commits := [True]\<rparr>)"

theorem sqlite_outcomes_all_or_nothing_witness:
  "fst sample_applied = Inr 1 \<and> abs_store (db_jobs (snd sample_applied)) =
   store_own (LeaseToken 7) (50 * millisecond) (outcome_changes sample_outcomes) (abs_store (db_jobs sample_db)) \<and>
   isl (fst sample_unanswered) \<and> db_jobs (snd sample_unanswered) = db_jobs (snd sample_applied)"
proof -
  have "sqlite_ApplyBatchJobOutcomes (LeaseToken 7) (50 * millisecond) sample_outcomes sample_db =
      (fst sample_applied, snd sample_applied)"
    by (simp add: sample_applied_def)
  moreover have "fst sample_applied = Inr 1"
    by code_simp
  moreover have "isl (fst sample_unanswered)" "db_jobs (snd sample_unanswered) = db_jobs (snd sample_applied)"
    by code_simp+
  ultimately show ?thesis
    using sqlite_outcomes_all_or_nothing [OF lease_wf_sample] by fastforce
qed

section \<open>The fence\<close>

text \<open>A call that acts on jobs in the name of a token, whatever it reports.\<close>

inductive owner_op ::
  "LeaseToken \<Rightarrow> time \<Rightarrow> JobID set \<Rightarrow> 'a sqlite_scheme \<Rightarrow> 'a sqlite_scheme \<Rightarrow> bool" where
  op_extend: "sqlite_ExtendJobLeases ids token now until w = (res, w') \<Longrightarrow> owner_op token now (set ids) w w'"
| op_release: "sqlite_ReleaseUnstartedJobsWithLease ids token now w = (res, w') \<Longrightarrow> owner_op token now (set ids) w w'"
| op_delete: "sqlite_DeleteJobWithLease i token now w = (res, w') \<Longrightarrow> owner_op token now {i} w w'"
| op_reschedule: "sqlite_RescheduleJobWithLease i token now at w = (res, w') \<Longrightarrow> owner_op token now {i} w w'"
| op_defer: "sqlite_DeferJobWithLease i token now at w = (res, w') \<Longrightarrow> owner_op token now {i} w w'"
| op_outcomes: "sqlite_ApplyBatchJobOutcomes token now xs w = (res, w') \<Longrightarrow> owner_op token now (bo_JobID ` set xs) w w'"

text \<open>The columns a lease operation never touches.\<close>

definition same_content :: "job_row \<Rightarrow> job_row \<Rightarrow> bool" where
  "same_content r r' \<longleftrightarrow> r_id r' = r_id r \<and> r_queue r' = r_queue r \<and> r_name r' = r_name r \<and>
     r_schema_version r' = r_schema_version r \<and> r_payload r' = r_payload r \<and>
     r_deduplication_key r' = r_deduplication_key r \<and> r_created_at r' = r_created_at r"

definition fenced :: "LeaseToken \<Rightarrow> time \<Rightarrow> JobID set \<Rightarrow> job_row list \<Rightarrow> job_row list \<Rightarrow> bool" where
  "fenced token now I js js' \<longleftrightarrow>
     (\<forall>r \<in> set js. r_id r \<in> I \<and> leased token now r \<or> r \<in> set js') \<and>
     (\<forall>r' \<in> set js'. \<exists>r \<in> set js. same_content r r' \<and> (r' = r \<or> r_id r \<in> I \<and> leased token now r)) \<and>
     (lease_wf js \<longrightarrow> lease_wf js')"

lemma fenced_refl: "fenced token now I js js"
  by (auto simp: fenced_def same_content_def)

lemma fenced_trans:
  assumes "fenced token now I js1 js2" "fenced token now I js2 js3"
  shows "fenced token now I js1 js3"
  unfolding fenced_def
proof (intro conjI ballI)
  fix r
  assume "r \<in> set js1"
  then show "r_id r \<in> I \<and> leased token now r \<or> r \<in> set js3"
    using assms unfolding fenced_def by blast
next
  fix r3
  assume "r3 \<in> set js3"
  then obtain r2 where r2: "r2 \<in> set js2" "same_content r2 r3" "r3 = r2 \<or> r_id r2 \<in> I \<and> leased token now r2"
    using assms(2) unfolding fenced_def by blast
  then obtain r1 where "r1 \<in> set js1" "same_content r1 r2" "r2 = r1 \<or> r_id r1 \<in> I \<and> leased token now r1"
    using assms(1) unfolding fenced_def by blast
  with r2 show "\<exists>r \<in> set js1. same_content r r3 \<and> (r3 = r \<or> r_id r \<in> I \<and> leased token now r)"
    by (auto simp: same_content_def)
qed (use assms in \<open>simp add: fenced_def\<close>)

lemma fenced_update:
  assumes "\<And>r. p r \<Longrightarrow> r_id r \<in> I \<and> leased token now r" "\<And>r. same_content r (f r)"
    and "\<And>r. row_ok r \<Longrightarrow> p r \<Longrightarrow> row_ok (f r)"
  shows "fenced token now I js (sql_update p f js)"
proof -
  have "lease_wf js \<longrightarrow> lease_wf (sql_update p f js)"
    using assms(2,3) by (auto simp: same_content_def intro!: lease_wf_update)
  then show ?thesis
    using assms(1,2) by (auto simp: fenced_def set_sql_update) (auto simp: same_content_def)
qed

lemma fenced_delete:
  "(\<And>r. p r \<Longrightarrow> r_id r \<in> I \<and> leased token now r) \<Longrightarrow> fenced token now I js (sql_delete p js)"
  by (auto simp: fenced_def same_content_def lease_wf_delete)

text \<open>The jobs table fenced, the other tables untouched.\<close>

definition world_fenced ::
  "LeaseToken \<Rightarrow> time \<Rightarrow> JobID set \<Rightarrow> 'a sqlite_scheme \<Rightarrow> 'a sqlite_scheme \<Rightarrow> bool" where
  "world_fenced token now I w w' \<longleftrightarrow>
     fenced token now I (db_jobs w) (db_jobs w') \<and> db_keys w' = db_keys w \<and> db_failed w' = db_failed w"

lemma world_fenced_refl: "world_fenced token now I w w"
  by (simp add: world_fenced_def fenced_refl)

lemma update_jobs_fenced:
  assumes "update_jobs p f w = (res, w')" "\<And>r. p r \<Longrightarrow> r_id r \<in> I \<and> leased token now r"
    and "\<And>r. same_content r (f r)" "\<And>r. row_ok r \<Longrightarrow> p r \<Longrightarrow> row_ok (f r)"
  shows "world_fenced token now I w w'"
  using assms(1)
proof (cases rule: update_jobs_cases)
  case (ran F)
  have "fenced token now I (db_jobs w) (sql_update p f (db_jobs w))"
    by (rule fenced_update) (fact assms)+
  then show ?thesis
    by (simp add: ran world_fenced_def)
qed (simp add: world_fenced_def fenced_refl)

lemma delete_jobs_fenced:
  assumes "delete_jobs p w = (res, w')" "\<And>r. p r \<Longrightarrow> r_id r \<in> I \<and> leased token now r"
  shows "world_fenced token now I w w'"
  using assms(1)
proof (cases rule: delete_jobs_cases)
  case (ran F)
  have "fenced token now I (db_jobs w) (sql_delete p (db_jobs w))"
    by (rule fenced_delete) (fact assms)
  then show ?thesis
    by (simp add: ran world_fenced_def)
qed (simp add: world_fenced_def fenced_refl)

lemma same_content_apply_delay: "same_content r (apply_delay outcomes r)"
  by (auto simp: same_content_def apply_delay_def split: option.splits)

lemma outcomes_tx_fenced:
  assumes "apply_outcomes_tx token now outcomes w = (res, w')"
  shows "world_fenced token now (bo_JobID ` set outcomes) w w'"
proof -
  let ?ok = "world_fenced token now (bo_JobID ` set outcomes)"
  obtain r1 w1 where d: "deleteBatchTerminalOutcomes token now outcomes w = (r1, w1)"
    by (cases "deleteBatchTerminalOutcomes token now outcomes w")
  have ok1: "?ok w w1"
    using d unfolding deleteBatchTerminalOutcomes_def
    by (rule delete_jobs_fenced) (auto simp: outcome_ids_def)
  obtain r2 w2 where u: "updateBatchRetryOutcomes token now outcomes w1 = (r2, w2)"
    by (cases "updateBatchRetryOutcomes token now outcomes w1")
  have ok2: "?ok w1 w2"
    using u unfolding updateBatchRetryOutcomes_def
    by (rule update_jobs_fenced) (auto simp: outcome_ids_def same_content_apply_delay row_ok_apply_delay)
  have "w' = w1 \<or> w' = w2"
    using assms d u by (auto simp: apply_outcomes_tx_def split: sum.splits if_splits)
  then show ?thesis
    using ok1 ok2 fenced_trans by (auto simp: world_fenced_def)
qed

lemma RunInTx_fenced:
  assumes "sqlite_RunInTx fn w = (res, w')"
    and "\<And>w r w'. fn w = (r, w') \<Longrightarrow> world_fenced token now I w w'"
  shows "world_fenced token now I w w'"
proof (cases "db_in_tx w")
  case True
  then show ?thesis
    using assms by (simp add: sqlite_RunInTx_def)
next
  case False
  show ?thesis
  proof (cases res)
    case None
    with assms(1) have "sqlite_RunInTx fn w = (None, w')"
      by simp
    then obtain F w2 G where "fn (w\<lparr>db_faults := F, db_in_tx := True\<rparr>) = (None, w2)"
      "w' = w2\<lparr>db_faults := G, db_in_tx := db_in_tx w \<and> db_in_tx w2\<rparr>"
      by (rule sqlite_RunInTx_ok)
    then show ?thesis
      using assms(2) by (fastforce simp: world_fenced_def)
  next
    case (Some e)
    with assms(1) have "sqlite_RunInTx fn w = (Some e, w')"
      by simp
    then show ?thesis
    proof (cases rule: sqlite_RunInTx_error [OF _ False, consumes 1, case_names undone landed])
      case (landed F w2)
      then show ?thesis
        using assms(2) [OF landed(1)] by (simp add: tables_def world_fenced_def)
    qed (simp add: tables_def world_fenced_def fenced_refl)
  qed
qed

lemma outcomes_fenced:
  assumes "sqlite_ApplyBatchJobOutcomes token now outcomes w = (res, w')"
  shows "world_fenced token now (bo_JobID ` set outcomes) w w'"
proof (cases "validateBatchOutcomes token outcomes")
  case None
  then obtain r where "sqlite_RunInTx (apply_outcomes_tx token now outcomes) w = (r, w')"
    using assms by (auto simp: sqlite_ApplyBatchJobOutcomes_def split: prod.splits option.splits)
  then show ?thesis
    by (rule RunInTx_fenced) (rule outcomes_tx_fenced)
next
  case (Some e)
  then show ?thesis
    using assms by (auto simp: sqlite_ApplyBatchJobOutcomes_def world_fenced_refl)
qed

lemma extend_fenced:
  assumes "sqlite_ExtendJobLeases ids token now until w = (res, w')"
  shows "world_fenced token now (set ids) w w'"
proof (cases "validateBatchLease ids token")
  case None
  with assms have "update_jobs (\<lambda>r. r_id r \<in> set ids \<and> leased token now r)
      (\<lambda>r. r\<lparr>r_reserved_at := Some (UnixMilli until)\<rparr>) w = (res, w')"
    by (simp add: sqlite_ExtendJobLeases_def)
  then show ?thesis
    by (rule update_jobs_fenced) (auto simp: same_content_def row_ok_def leased_def split: option.splits)
qed (use assms in \<open>simp add: sqlite_ExtendJobLeases_def world_fenced_refl\<close>)

lemma release_fenced:
  assumes "sqlite_ReleaseUnstartedJobsWithLease ids token now w = (res, w')"
  shows "world_fenced token now (set ids) w w'"
proof (cases "validateBatchLease ids token")
  case None
  with assms have "update_jobs (\<lambda>r. r_id r \<in> set ids \<and> leased token now r \<and> 0 < r_attempts r)
      (\<lambda>r. r\<lparr>r_attempts := r_attempts r - 1, r_reserved_at := None, r_lease_token := LeaseTokenNil\<rparr>) w = (res, w')"
    by (simp add: sqlite_ReleaseUnstartedJobsWithLease_def)
  then show ?thesis
    by (rule update_jobs_fenced) (auto simp: same_content_def row_ok_def)
qed (use assms in \<open>simp add: sqlite_ReleaseUnstartedJobsWithLease_def world_fenced_refl\<close>)

lemma delete_fenced:
  assumes "sqlite_DeleteJobWithLease i token now w = (res, w')"
  shows "world_fenced token now {i} w w'"
proof (cases "JobID_IsZero i \<or> LeaseToken_IsZero token")
  case False
  with assms have "delete_jobs (\<lambda>r. r_id r = i \<and> leased token now r) w = (res, w')"
    by (simp add: sqlite_DeleteJobWithLease_def LeaseToken_Validate_def)
  then show ?thesis
    by (rule delete_jobs_fenced) simp
qed (use assms in \<open>auto simp: sqlite_DeleteJobWithLease_def LeaseToken_Validate_def world_fenced_refl split: if_splits\<close>)

lemma reschedule_fenced:
  assumes "sqlite_RescheduleJobWithLease i token now at w = (res, w')"
  shows "world_fenced token now {i} w w'"
proof (cases "JobID_IsZero i \<or> LeaseToken_IsZero token")
  case False
  with assms have "update_jobs (\<lambda>r. r_id r = i \<and> leased token now r)
      (\<lambda>r. r\<lparr>r_available_at := UnixMilli at, r_reserved_at := None, r_lease_token := LeaseTokenNil\<rparr>) w = (res, w')"
    by (simp add: sqlite_RescheduleJobWithLease_def LeaseToken_Validate_def)
  then show ?thesis
    by (rule update_jobs_fenced) (auto simp: same_content_def row_ok_def)
qed (use assms in \<open>auto simp: sqlite_RescheduleJobWithLease_def LeaseToken_Validate_def world_fenced_refl split: if_splits\<close>)

lemma defer_fenced:
  "sqlite_DeferJobWithLease i token now at w = (res, w') \<Longrightarrow> world_fenced token now {i} w w'"
  using outcomes_fenced [of token now "[\<lparr>bo_JobID = i, bo_Kind = BatchJobOutcomeDefer, bo_AvailableAt = at, bo_Reason = []\<rparr>]"]
  by (simp add: sqlite_DeferJobWithLease_def)

text \<open>C3. Fencing. A call made with a token, at a time, for some jobs, changes no row but those of the
  named jobs whose lease still runs under that token: every other row stays as it is, no row appears,
  and even on the rows it changes the payload, name, version, key and creation time stay. This holds
  for every result of the call, failures included, so a worker whose lease was lost to another can
  never disturb it. The call keeps the invariant of the table and never touches the deduplication
  keys and the failed jobs.\<close>

theorem sqlite_owner_ops_fenced:
  assumes "owner_op token now I w w'"
  shows "fenced token now I (db_jobs w) (db_jobs w') \<and> db_keys w' = db_keys w \<and> db_failed w' = db_failed w"
  using assms unfolding world_fenced_def [symmetric]
  by cases (auto intro: extend_fenced release_fenced delete_fenced reschedule_fenced defer_fenced outcomes_fenced)

theorem sqlite_owner_ops_fenced_witness:
  "fenced (LeaseToken 7) (50 * millisecond) {JobID 2, JobID 3} (db_jobs sample_db)
     (db_jobs (snd (sqlite_ReleaseUnstartedJobsWithLease [JobID 2, JobID 3] (LeaseToken 7) (50 * millisecond) sample_db))) \<and>
   fst (sqlite_ReleaseUnstartedJobsWithLease [JobID 2, JobID 3] (LeaseToken 7) (50 * millisecond) sample_db) = Inr 1"
proof -
  let ?r = "sqlite_ReleaseUnstartedJobsWithLease [JobID 2, JobID 3] (LeaseToken 7) (50 * millisecond) sample_db"
  have "owner_op (LeaseToken 7) (50 * millisecond) (set [JobID 2, JobID 3]) sample_db (snd ?r)"
    by (rule op_release [of _ _ _ _ "fst ?r"]) simp
  moreover have "fst ?r = Inr 1"
    by code_simp
  ultimately show ?thesis
    using sqlite_owner_ops_fenced by fastforce
qed

end
