(* ===== verification/Lease_Soundness.thy ===== *)
theory Lease_Soundness
  imports Lease_Ledger Sqlite_Leases Sqlite_Failed
begin

text \<open>
  The ledger of a worker against the database it was granted its leases by. The interface between
  the two is the locale \<open>lease_world\<close>: what the worker relies on a repository and the rest of the
  system for, namely that nobody takes a lease away before it runs out and that a full extension is
  stored. Under it a deadline in the ledger is, until it passes, a deadline in the store. The SQLite
  repository, shared with any other workers whose calls interleave with every step, provides it.
\<close>

section \<open>The interface\<close>

text \<open>A step of the world that lets every running lease be: \<open>holds w i u\<close> says that the store has job
  \<open>i\<close> under the worker's token until \<open>u\<close>, up to the milliseconds of the store.\<close>

definition kept ::
  "('w \<Rightarrow> time) \<Rightarrow> ('w \<Rightarrow> bool) \<Rightarrow> ('w \<Rightarrow> JobID \<Rightarrow> time \<Rightarrow> bool) \<Rightarrow> 'w \<Rightarrow> 'w \<Rightarrow> bool" where
  "kept clock ok holds w w' \<longleftrightarrow> (ok w \<longrightarrow> ok w' \<and> clock w \<le> clock w' \<and>
     (\<forall>i u. holds w i u \<longrightarrow> clock w' < truncate_ms u \<longrightarrow> holds w' i u))"

text \<open>Every deadline of the ledger that has not passed is backed by the store.\<close>

definition ledger_sound ::
  "('w \<Rightarrow> time) \<Rightarrow> ('w \<Rightarrow> bool) \<Rightarrow> ('w \<Rightarrow> JobID \<Rightarrow> time \<Rightarrow> bool) \<Rightarrow> LeaseToken \<Rightarrow> manager \<Rightarrow> 'w \<Rightarrow> bool" where
  "ledger_sound clock ok holds token m w \<longleftrightarrow> ok w \<and> bm_leaseToken m = token \<and>
     (\<forall>i u. map_of (bm_outstanding m) i = Some u \<longrightarrow> clock w < truncate_ms u \<longrightarrow> holds w i u)"

text \<open>The deadline up to which a finalization makes sure of its leases.\<close>

definition kept_deadline :: "time \<Rightarrow> time" where
  "kept_deadline t = t + leaseFinalizationTimeout + batchFinalizationMargin"

lemma kept_refl: "kept clock ok holds w w"
  by (simp add: kept_def)

lemma kept_trans: "kept clock ok holds w1 w2 \<Longrightarrow> kept clock ok holds w2 w3 \<Longrightarrow> kept clock ok holds w1 w3"
  unfolding kept_def by (meson le_less_trans order_trans)

lemma ledger_sound_kept:
  "ledger_sound clock ok holds token m w \<Longrightarrow> kept clock ok holds w w' \<Longrightarrow> ledger_sound clock ok holds token m w'"
  unfolding ledger_sound_def kept_def by (meson le_less_trans)

lemma ledger_sound_same:
  "ledger_sound clock ok holds token m w \<Longrightarrow> bm_outstanding m' = bm_outstanding m \<Longrightarrow>
   bm_leaseToken m' = bm_leaseToken m \<Longrightarrow> ledger_sound clock ok holds token m' w"
  by (simp add: ledger_sound_def)

lemma batch_Cause_token: "batch_Cause rt c m w = (e, m', w') \<Longrightarrow> bm_leaseToken m' = bm_leaseToken m"
  using prolongs_batch_Cause [of rt c m w e m' w'] by (simp add: prolongs_def)

lemma check_token: "checkLeasesLocked now m = (e, m') \<Longrightarrow> bm_leaseToken m' = bm_leaseToken m"
  using prolongs_check [of now m e m'] by (simp add: prolongs_def)

locale lease_world =
  fixes rt :: "'w runtime" and repo :: "'w JobsRepository" and token :: LeaseToken
    and clock :: "'w \<Rightarrow> time" and ok :: "'w \<Rightarrow> bool" and holds :: "'w \<Rightarrow> JobID \<Rightarrow> time \<Rightarrow> bool"
  assumes now_reads_clock: "time_Now rt w = (t, w') \<Longrightarrow> ok w \<Longrightarrow> t \<le> clock w'"
    and now_keeps: "time_Now rt w = (t, w') \<Longrightarrow> kept clock ok holds w w'"
    and cause_keeps: "context_Cause rt c w = (e, w') \<Longrightarrow> kept clock ok holds w w'"
    and drain_keeps: "drain_closed rt w = (b, w') \<Longrightarrow> kept clock ok holds w w'"
    and ticks_keep: "heartbeat_ticks rt w = (n, w') \<Longrightarrow> kept clock ok holds w w'"
    and extend_ok: "ExtendJobLeases repo c ids token now until w = (res, w') \<Longrightarrow> ok w \<Longrightarrow> ok w' \<and> clock w \<le> clock w'"
    and extend_keeps: "ExtendJobLeases repo c ids token now until w = (res, w') \<Longrightarrow> ok w \<Longrightarrow> holds w i u \<Longrightarrow>
      clock w' < truncate_ms u \<Longrightarrow> i \<notin> set ids \<or> u \<le> until \<Longrightarrow> holds w' i u"
    and extend_grants: "ExtendJobLeases repo c ids token now until w = (Inr (int (length ids)), w') \<Longrightarrow> ok w \<Longrightarrow>
      i \<in> set ids \<Longrightarrow> now \<le> clock w \<Longrightarrow> clock w' < truncate_ms until \<Longrightarrow> holds w' i until"
begin

lemma batch_Cause_keeps: "batch_Cause rt c m w = (e, m', w') \<Longrightarrow> kept clock ok holds w w'"
  by (auto simp: batch_Cause_def kept_refl split: if_splits prod.splits option.splits dest: cause_keeps)

lemma batch_Cause_sound:
  assumes "batch_Cause rt c m w = (e, m', w')" "ledger_sound clock ok holds token m w"
  shows "ledger_sound clock ok holds token m' w'"
proof -
  have "ledger_sound clock ok holds token m w'"
    using assms(2) batch_Cause_keeps [OF assms(1)] by (rule ledger_sound_kept)
  then show ?thesis
    using batch_Cause_outstanding [OF assms(1)] batch_Cause_token [OF assms(1)] by (simp add: ledger_sound_def)
qed

lemma start_sound:
  assumes "batchStartError rt c m w = (e, m', w')" "ledger_sound clock ok holds token m w"
  shows "ledger_sound clock ok holds token m' w'"
proof -
  obtain e1 m1 w1 where b: "batch_Cause rt c m w = (e1, m1, w1)"
    by (metis prod_cases3)
  then have "ledger_sound clock ok holds token m1 w1"
    using assms(2) by (rule batch_Cause_sound)
  moreover have "m' = m1 \<and> (w' = w1 \<or> (\<exists>d. drain_closed rt w1 = (d, w')))"
    using assms(1) b by (auto simp: batchStartError_def split: option.splits prod.splits bool.splits)
  ultimately show ?thesis
    using drain_keeps ledger_sound_kept by metis
qed

lemma check_sound:
  assumes "checkLeasesLocked t m = (e, m')" "ledger_sound clock ok holds token m w"
  shows "ledger_sound clock ok holds token m' w"
  using assms(2) check_outstanding [OF assms(1)] check_token [OF assms(1)] by (simp add: ledger_sound_def)

lemma now_sound:
  "time_Now rt w = (t, w') \<Longrightarrow> ledger_sound clock ok holds token m w \<Longrightarrow> ledger_sound clock ok holds token m w'"
  using now_keeps ledger_sound_kept by metis

text \<open>The repository call of an extension, before the ledger is updated: all running leases survive
  it, since it never shortens one.\<close>

lemma extension_sound:
  assumes "ExtendJobLeases repo c (short_ids m req) (bm_leaseToken m) now (extension_until req target) w = (res, w')"
    and "ledger_sound clock ok holds token m w"
  shows "ledger_sound clock ok holds token m w'"
  unfolding ledger_sound_def
proof (intro conjI allI impI)
  show tok: "bm_leaseToken m = token"
    using assms(2) by (simp add: ledger_sound_def)
  have okw: "ok w"
    using assms(2) by (simp add: ledger_sound_def)
  then have ok': "ok w' \<and> clock w \<le> clock w'"
    using extend_ok assms(1) tok by metis
  then show "ok w'" ..
  fix i u
  assume u: "map_of (bm_outstanding m) i = Some u" "clock w' < truncate_ms u"
  then have "clock w < truncate_ms u"
    using ok' by simp
  then have "holds w i u"
    using assms(2) u(1) by (simp add: ledger_sound_def)
  moreover have "i \<notin> set (short_ids m req) \<or> u \<le> extension_until req target"
    using u(1) extension_later(1) [of req target] by (auto simp: short_ids_def)
  ultimately show "holds w' i u"
    using extend_keeps assms(1) u(2) tok okw by metis
qed

lemma extend_short_sound:
  assumes "extend_short rt repo c now (extension_until req target) (short_ids m req) m w = (e, m', w')"
    and "ledger_sound clock ok holds token m w" "now \<le> clock w"
  shows "ledger_sound clock ok holds token m' w'"
proof -
  let ?u = "extension_until req target" and ?ids = "short_ids m req"
  let ?c = "WithDeadline c (bm_earliestUntil m)"
  have tok: "bm_leaseToken m = token"
    using assms(2) by (simp add: ledger_sound_def)
  obtain r w2 where ext: "ExtendJobLeases repo ?c ?ids (bm_leaseToken m) now ?u w = (r, w2)"
    by (cases "ExtendJobLeases repo ?c ?ids (bm_leaseToken m) now ?u w")
  obtain e2 m2 w3 where cause: "batch_Cause rt ?c m w2 = (e2, m2, w3)"
    by (metis prod_cases3)
  obtain t w4 where t: "time_Now rt w3 = (t, w4)"
    by (cases "time_Now rt w3")
  have s2: "ledger_sound clock ok holds token m w2"
    using ext assms(2) by (rule extension_sound)
  have s3: "ledger_sound clock ok holds token m2 w3"
    using cause s2 by (rule batch_Cause_sound)
  note run = assms(1) [unfolded extend_short_def Let_def ext prod.case]
  show ?thesis
  proof (cases "r = Inr (int (length ?ids)) \<and> e2 = None")
    case False
    then have "(\<exists>err. failLeaseLocked err m = (e, m') \<and> w' = w2) \<or> (\<exists>err. failLeaseLocked err m2 = (e, m') \<and> w' = w3)"
      using run cause by (auto split: sum.splits option.splits prod.splits if_splits)
    then show ?thesis
      using s2 s3 by (auto simp: failLeaseLocked_def cancelBatch_def ledger_sound_def)
  next
    case True
    then have last: "checkLeasesLocked t (extend_ledger ?ids ?u m2) = (e, m')" "w' = w4"
      using run cause t by (auto split: prod.splits)
    have keep: "kept clock ok holds w2 w4"
      using batch_Cause_keeps [OF cause] now_keeps [OF t] by (rule kept_trans)
    have o2: "bm_outstanding m2 = bm_outstanding m" "bm_leaseToken m2 = token"
      using batch_Cause_outstanding [OF cause] batch_Cause_token [OF cause] tok by simp_all
    have "ledger_sound clock ok holds token (extend_ledger ?ids ?u m2) w4"
      unfolding ledger_sound_def
    proof (intro conjI allI impI)
      fix i v
      assume v: "map_of (bm_outstanding (extend_ledger ?ids ?u m2)) i = Some v" "clock w4 < truncate_ms v"
      then have "clock w2 < truncate_ms v"
        using keep s2 by (simp add: kept_def ledger_sound_def)
      moreover from v(1) have "i \<in> set ?ids \<and> v = ?u \<or> map_of (bm_outstanding m) i = Some v"
        by (auto simp: extend_ledger_def recomputeEarliestLocked_def map_of_fold_update o2 split: if_splits)
      ultimately have "holds w2 i v"
        using s2 extend_grants [of ?c ?ids now ?u w w2 i] ext True tok assms(2,3) by (auto simp: ledger_sound_def)
      then show "holds w4 i v"
        using keep v(2) s2 by (simp add: kept_def ledger_sound_def)
    qed (use keep s2 in \<open>simp_all add: extend_ledger_def recomputeEarliestLocked_def o2 kept_def ledger_sound_def\<close>)
    then show ?thesis
      unfolding last(2) using check_sound [OF last(1)] by blast
  qed
qed

lemma ensure_sound:
  assumes "ensureLeasesLocked rt repo c req target m w = (e, m', w')" "ledger_sound clock ok holds token m w"
  shows "ledger_sound clock ok holds token m' w'"
  using assms(1)
proof (cases rule: ensure_cases)
  case (expired t err)
  then show ?thesis
    using check_sound now_sound assms(2) by blast
next
  case (covered t)
  then show ?thesis
    using check_sound now_sound assms(2) by blast
next
  case (none_short t m1)
  then have "ledger_sound clock ok holds token m1 w'"
    using check_sound now_sound assms(2) by blast
  then show ?thesis
    by (simp add: none_short(4) with_earliest_def ledger_sound_def)
next
  case (short t w1 m1)
  then have "ledger_sound clock ok holds token m1 w1"
    using check_sound now_sound assms(2) by blast
  then have "ledger_sound clock ok holds token (with_earliest m1) w1"
    by (simp add: with_earliest_def ledger_sound_def)
  then show ?thesis
    using extend_short_sound [of c t req target "with_earliest m1" w1] short(4) now_reads_clock [OF short(1)] assms(2)
    by (simp add: ledger_sound_def)
qed

lemma run_ticks_sound:
  "run_ticks rt repo n m w = (m', w') \<Longrightarrow> ledger_sound clock ok holds token m w \<Longrightarrow> ledger_sound clock ok holds token m' w'"
proof (induction n arbitrary: m w)
  case (Suc n)
  obtain t w0 where t: "time_Now rt w = (t, w0)"
    by (cases "time_Now rt w")
  obtain e m1 w1 where ens: "ensureLeasesLocked rt repo HeartbeatCtx (t + bm_reserveFor m) (t + bm_reserveFor m) m w0 = (e, m1, w1)"
    by (metis prod_cases3)
  have "ledger_sound clock ok holds token m1 w1"
    using ensure_sound [OF ens now_sound [OF t Suc.prems(2)]] .
  moreover have "m' = m \<and> w' = w \<or> m' = m1\<lparr>bm_running := False\<rparr> \<and> w' = w1 \<or> run_ticks rt repo n m1 w1 = (m', w')"
    using Suc.prems(1) t ens by (auto simp: Lease_Manager.extend_def split: if_splits option.splits)
  ultimately show ?case
    using Suc.IH Suc.prems(2) by (auto simp: ledger_sound_def)
qed simp

lemma preempt_sound:
  "preempt rt repo m w = (m', w') \<Longrightarrow> ledger_sound clock ok holds token m w \<Longrightarrow> ledger_sound clock ok holds token m' w'"
  by (auto simp: preempt_def split: prod.splits dest: ticks_keep ledger_sound_kept run_ticks_sound)

end

context lease_world
begin

lemma admit_sound:
  assumes "admit rt repo c m w = (e, m', w')" "ledger_sound clock ok holds token m w"
  shows "ledger_sound clock ok holds token m' w'"
proof -
  obtain m0 w0 where pre: "preempt rt repo m w = (m0, w0)"
    by (cases "preempt rt repo m w")
  obtain e1 m1 w1 where start: "batchStartError rt c m0 w0 = (e1, m1, w1)"
    by (metis prod_cases3)
  obtain now w2 where now: "time_Now rt w1 = (now, w2)"
    by (cases "time_Now rt w1")
  obtain e2 m2 where chk: "checkLeasesLocked now m1 = (e2, m2)"
    by (cases "checkLeasesLocked now m1")
  obtain e3 m3 w3 where ens: "(if bm_earliestUntil m2 < now + go_div (bm_reserveFor m2) 3
      then ensureLeasesLocked rt repo c (now + bm_reserveFor m2) (now + bm_reserveFor m2) m2 w2
      else (None, m2, w2)) = (e3, m3, w3)"
    by (metis prod_cases3)
  note run = assms(1) [unfolded admit_def Let_def pre prod.case start now chk]
  have s1: "ledger_sound clock ok holds token m1 w1"
    by (rule start_sound [OF start]) (rule preempt_sound [OF pre assms(2)])
  have s2: "ledger_sound clock ok holds token m2 w2"
    by (rule check_sound [OF chk]) (rule now_sound [OF now s1])
  have s3: "ledger_sound clock ok holds token m3 w3"
    using ens s2 by (auto split: if_splits dest: ensure_sound)
  have "(m' = m1 \<and> w' = w1) \<or> (m' = m2 \<and> w' = w2) \<or> (m' = m3 \<and> w' = w3) \<or> batchStartError rt c m3 w3 = (e, m', w')"
    using run ens by (auto split: option.splits if_splits)
  then show ?thesis
    using s1 s2 s3 start_sound by blast
qed

end

text \<open>What a worker does with its ledger between the claim and its first finalization.\<close>

inductive ledger_run :: "'w runtime \<Rightarrow> 'w JobsRepository \<Rightarrow> manager \<Rightarrow> 'w \<Rightarrow> manager \<Rightarrow> 'w \<Rightarrow> bool"
  for rt :: "'w runtime" and repo :: "'w JobsRepository" and m0 :: manager and w0 :: 'w where
  run_start: "ledger_run rt repo m0 w0 m0 w0"
| run_beats: "ledger_run rt repo m0 w0 m w \<Longrightarrow> preempt rt repo m w = (m', w') \<Longrightarrow> ledger_run rt repo m0 w0 m' w'"
| run_admit: "ledger_run rt repo m0 w0 m w \<Longrightarrow> admit rt repo c m w = (e, m', w') \<Longrightarrow> ledger_run rt repo m0 w0 m' w'"
| run_ensure: "ledger_run rt repo m0 w0 m w \<Longrightarrow> ensureLeasesLocked rt repo c req target m w = (e, m', w') \<Longrightarrow>
    ledger_run rt repo m0 w0 m' w'"
| run_wait: "ledger_run rt repo m0 w0 m w \<Longrightarrow> time_Now rt w = (t, w') \<Longrightarrow> ledger_run rt repo m0 w0 m w'"

context lease_world
begin

lemma run_sound:
  "ledger_run rt repo m0 w0 m w \<Longrightarrow> ledger_sound clock ok holds token m0 w0 \<Longrightarrow> ledger_sound clock ok holds token m w"
  by (induction rule: ledger_run.induct) (auto intro: preempt_sound admit_sound ensure_sound now_sound)

lemma LockContext_sound:
  assumes "LockContext rt repo c m w = (e, m', w')" "ledger_sound clock ok holds token m w"
  shows "ledger_sound clock ok holds token m' w'"
proof -
  obtain m1 w1 where pre: "preempt rt repo m w = (m1, w1)"
    by (cases "preempt rt repo m w")
  then have "batch_Cause rt c m1 w1 = (e, m', w')"
    using assms(1) by (simp add: LockContext_def)
  then show ?thesis
    by (rule batch_Cause_sound) (rule preempt_sound [OF pre assms(2)])
qed

text \<open>When the work of a finalization runs, the store has the job under the token at least as long as the
  work has time and a margin longer, unless that time is over already.\<close>

lemma finalize_holds:
  assumes "finalize rt repo c jobID work m s w = (e, m', s', w')" "ledger_sound clock ok holds token m w" "ledger_ok m"
  shows "e \<noteq> None \<and> s' = s \<or>
    (\<exists>t w0 w2 until. time_Now rt w = (t, w0) \<and> kept_deadline t \<le> until \<and>
       work (WithDeadline (WithoutCancel c) (t + leaseFinalizationTimeout)) s w2 = (e, s', w') \<and>
       (clock w2 < truncate_ms until \<longrightarrow> holds w2 jobID until))"
proof -
  obtain t w0 where t: "time_Now rt w = (t, w0)"
    by (cases "time_Now rt w")
  let ?c = "WithDeadline (WithoutCancel c) (t + leaseFinalizationTimeout)" and ?req = "kept_deadline t"
  obtain e0 m0 w00 where lock: "LockContext rt repo ?c m w0 = (e0, m0, w00)"
    by (metis prod_cases3)
  obtain e1 m1 w1 where ens: "ensureLeasesLocked rt repo ?c ?req (?req + bm_reserveFor m0) m0 w00 = (e1, m1, w1)"
    by (metis prod_cases3)
  obtain e2 m2 w2 where cause: "batch_Cause rt ?c m1 w1 = (e2, m2, w2)"
    by (metis prod_cases3)
  note run = assms(1) [unfolded finalize_def Let_def t prod.case lock, folded kept_deadline_def, unfolded ens]
  show ?thesis
  proof (cases "e0 = None \<and> map_of (bm_outstanding m0) jobID \<noteq> None \<and> e1 = None \<and> e2 = None")
    case True
    then have work: "work ?c s w2 = (e, s', w')"
      using run cause by (auto split: prod.splits option.splits)
    have "map fst (bm_outstanding m1) = map fst (bm_outstanding m0)"
      using prolongs_ensure [OF ens] by (simp add: prolongs_def)
    then obtain until where until: "map_of (bm_outstanding m1) jobID = Some until"
      using True by (metis map_of_eq_None_iff not_None_eq set_map)
    have "ledger_ok m0"
      using prolongs_LockContext [OF lock] assms(3) by (rule prolongs_ok)
    then have "?req \<le> until"
      by (rule ensure_covers) (use ens True until in auto)
    moreover have "ledger_sound clock ok holds token m2 w2"
      by (rule batch_Cause_sound [OF cause], rule ensure_sound [OF ens], rule LockContext_sound [OF lock])
         (rule now_sound [OF t assms(2)])
    then have "clock w2 < truncate_ms until \<longrightarrow> holds w2 jobID until"
      using until batch_Cause_outstanding [OF cause] by (simp add: ledger_sound_def)
    ultimately show ?thesis
      using t work by blast
  next
    case False
    then show ?thesis
      using run cause by (auto split: option.splits if_splits)
  qed
qed

end

section \<open>A database shared with other workers\<close>

text \<open>What another worker, or a producer, does to the database between two steps of this one: any call of
  the two repositories that writes, at a time it read some nanoseconds ago. A batch of unique puts comes
  with the identifiers and times prepared for it.\<close>

datatype rival_call =
    RivalClaim time LeaseToken "JobCapability list" int
  | RivalBoundedClaim time LeaseToken JobCapability BatchClaimLimits
  | RivalExtend "JobID list" LeaseToken time
  | RivalRelease "JobID list" LeaseToken
  | RivalDelete JobID LeaseToken
  | RivalReschedule JobID LeaseToken time
  | RivalDefer JobID LeaseToken time
  | RivalOutcomes LeaseToken "BatchJobOutcome list"
  | RivalCreate uuid string SchemaVersion string time
  | RivalUniquePut uuid string string SchemaVersion string time
  | RivalUniqueBatch "preparedUniqueBatchPut list"
  | RivalPrune time int
  | RivalDeadLetter uuid JobID string SchemaVersion string string
  | RivalFailedCreate uuid JobFailed
  | RivalFailedDelete JobID

fun rival_token :: "rival_call \<Rightarrow> LeaseToken" where
  "rival_token (RivalClaim until token caps limit) = token"
| "rival_token (RivalBoundedClaim until token cap limits) = token"
| "rival_token (RivalExtend ids token until) = token"
| "rival_token (RivalRelease ids token) = token"
| "rival_token (RivalDelete i token) = token"
| "rival_token (RivalReschedule i token at) = token"
| "rival_token (RivalDefer i token at) = token"
| "rival_token (RivalOutcomes token outcomes) = token"
| "rival_token (RivalCreate u nm version payload at) = LeaseTokenNil"
| "rival_token (RivalUniquePut u key nm version payload at) = LeaseTokenNil"
| "rival_token (RivalUniqueBatch prepared) = LeaseTokenNil"
| "rival_token (RivalPrune before limit) = LeaseTokenNil"
| "rival_token (RivalDeadLetter u i nm version payload reason) = LeaseTokenNil"
| "rival_token (RivalFailedCreate u model) = LeaseTokenNil"
| "rival_token (RivalFailedDelete i) = LeaseTokenNil"

text \<open>The world: the database, the clock, and for every later step of this worker how far the clock
  moves and which calls of the others come in.\<close>

record shared = sqlite +
  sh_clock :: time
  sh_rivals :: "(nat \<times> (nat \<times> rival_call) list) list"

text \<open>The runtime a producer's call sees: its identifier and its time.\<close>

definition still_runtime :: "uuid \<Rightarrow> time \<Rightarrow> 'w runtime" where
  "still_runtime u now =
     \<lparr>time_Now = (\<lambda>w. (now, w)), context_Cause = (\<lambda>_ w. (None, w)), drain_closed = (\<lambda>w. (False, w)),
      uuid_New = (\<lambda>w. (u, w)), heartbeat_ticks = (\<lambda>w. (0, w)),
      timer_wait = (\<lambda>_ _ w. (WokeTimer, w)), err_Error = (\<lambda>_. [])\<rparr>"

fun rival_step :: "(uuid \<Rightarrow> string) \<Rightarrow> time \<Rightarrow> rival_call \<Rightarrow> 'a sqlite_scheme \<Rightarrow> 'a sqlite_scheme" where
  "rival_step str now (RivalClaim until token caps limit) w =
     snd (sqlite_FindAndReserveJobsForCapabilities str now until token caps limit w)"
| "rival_step str now (RivalBoundedClaim until token cap limits) w =
     snd (sqlite_FindAndReserveJobsForCapabilityBounded str now until token cap limits w)"
| "rival_step str now (RivalExtend ids token until) w = snd (sqlite_ExtendJobLeases ids token now until w)"
| "rival_step str now (RivalRelease ids token) w = snd (sqlite_ReleaseUnstartedJobsWithLease ids token now w)"
| "rival_step str now (RivalDelete i token) w = snd (sqlite_DeleteJobWithLease i token now w)"
| "rival_step str now (RivalReschedule i token at) w = snd (sqlite_RescheduleJobWithLease i token now at w)"
| "rival_step str now (RivalDefer i token at) w = snd (sqlite_DeferJobWithLease i token now at w)"
| "rival_step str now (RivalOutcomes token outcomes) w = snd (sqlite_ApplyBatchJobOutcomes token now outcomes w)"
| "rival_step str now (RivalCreate u nm version payload at) w =
     snd (sqlite_CreateJobVersioned (still_runtime u now) nm version payload at w)"
| "rival_step str now (RivalUniquePut u key nm version payload at) w =
     snd (sqlite_CreateJobVersionedUniqueResult (still_runtime u now) key nm version payload at w)"
| "rival_step str now (RivalUniqueBatch prepared) w = snd (sqlite_RunInTx_result (unique_batch_tx prepared) w)"
| "rival_step str now (RivalPrune before limit) w = snd (sqlite_PruneJobIdempotencyKeys before limit w)"
| "rival_step str now (RivalDeadLetter u i nm version payload reason) w =
     snd (sqlite_CreateFailedJobVersioned (still_runtime u now) i nm version payload reason w)"
| "rival_step str now (RivalFailedCreate u model) w = snd (sqlite_failed_Create (still_runtime u now) model w)"
| "rival_step str now (RivalFailedDelete i) w = snd (sqlite_failed_Delete i w)"

text \<open>Time passes and the others act; not while this worker's transaction has the database locked.\<close>

definition pass :: "(uuid \<Rightarrow> string) \<Rightarrow> shared \<Rightarrow> shared" where
  "pass str w =
     (case sh_rivals w of
        [] \<Rightarrow> w
      | (dt, calls) # later \<Rightarrow>
          (let w1 = w\<lparr>sh_clock := sh_clock w + int dt, sh_rivals := later\<rparr>
           in if db_in_tx w then w1
              else fold (\<lambda>(lag, call). rival_step str (sh_clock w1 - int lag) call) calls w1))"

text \<open>The runtime of this worker: every question it asks takes time. Cancellations, the drain signal and
  the ticks are arbitrary functions of the world.\<close>

definition shared_runtime ::
  "(uuid \<Rightarrow> string) \<Rightarrow> (ctx \<Rightarrow> shared \<Rightarrow> error option) \<Rightarrow> (shared \<Rightarrow> bool) \<Rightarrow> (shared \<Rightarrow> nat) \<Rightarrow> (shared \<Rightarrow> uuid) \<Rightarrow>
   shared runtime" where
  "shared_runtime str cause drained ticks uuids =
     \<lparr>time_Now = (\<lambda>w. (sh_clock w, pass str w)), context_Cause = (\<lambda>c w. (cause c w, pass str w)),
      drain_closed = (\<lambda>w. (drained w, pass str w)), uuid_New = (\<lambda>w. (uuids w, pass str w)),
      heartbeat_ticks = (\<lambda>w. (ticks w, pass str w)), timer_wait = (\<lambda>_ _ w. (WokeTimer, pass str w)),
      err_Error = (\<lambda>_. [])\<rparr>"

definition shared_ok :: "LeaseToken \<Rightarrow> shared \<Rightarrow> bool" where
  "shared_ok token w \<longleftrightarrow> lease_wf (db_jobs w) \<and>
     (\<forall>(dt, calls) \<in> set (sh_rivals w). \<forall>(lag, call) \<in> set calls. rival_token call \<noteq> token)"

definition leased_until :: "LeaseToken \<Rightarrow> 'a sqlite_scheme \<Rightarrow> JobID \<Rightarrow> time \<Rightarrow> bool" where
  "leased_until token w i u \<longleftrightarrow>
     (\<exists>r \<in> set (db_jobs w). r_id r = i \<and> r_lease_token r = token \<and>
        (\<exists>d. r_reserved_at r = Some d \<and> UnixMilli u \<le> d))"

section \<open>Others leave a running lease alone\<close>

text \<open>A step that only touches rows that are free at \<open>now\<close>, or leased to another token.\<close>

definition spares :: "LeaseToken \<Rightarrow> time \<Rightarrow> 'a sqlite_scheme \<Rightarrow> 'a sqlite_scheme \<Rightarrow> bool" where
  "spares token now w w' \<longleftrightarrow> (lease_wf (db_jobs w) \<longrightarrow> lease_wf (db_jobs w') \<and>
     (\<forall>r \<in> set (db_jobs w). leased token now r \<longrightarrow> r \<in> set (db_jobs w')))"

lemma spares_refl: "spares token now w w"
  by (simp add: spares_def)

lemma spares_same: "db_jobs w' = db_jobs w \<Longrightarrow> spares token now w w'"
  by (simp add: spares_def)

lemma fenced_spares: "world_fenced token' now I w w' \<Longrightarrow> token' \<noteq> token \<Longrightarrow> spares token now w w'"
  by (auto simp: world_fenced_def fenced_def spares_def leased_def)

lemma not_claimable: "leased token now r \<Longrightarrow> \<not> claimable now r"
  by (auto simp: leased_def claimable_def split: option.splits)

lemma lease_rows_spares:
  assumes "db_jobs w' = lease_rows ids until token' (db_jobs w)" "token' \<noteq> LeaseTokenNil"
    and "\<And>i. i \<in> set ids \<Longrightarrow> \<exists>r \<in> set (db_jobs w). r_id r = i \<and> claimable now r"
  shows "spares token now w w'"
  unfolding spares_def
proof (intro impI conjI ballI)
  assume wf: "lease_wf (db_jobs w)"
  then show "lease_wf (db_jobs w')"
    unfolding assms(1) using assms(2) by (rule lease_wf_lease_rows)
  fix r
  assume r: "r \<in> set (db_jobs w)" "leased token now r"
  have "r_id r \<notin> set ids"
  proof
    assume "r_id r \<in> set ids"
    then obtain r' where "r' \<in> set (db_jobs w)" "r_id r' = r_id r" "claimable now r'"
      using assms(3) by blast
    moreover from this have "r' = r"
      using r(1) lease_wf_distinct [OF wf] by (metis inj_onD distinct_map)
    ultimately show False
      using r(2) not_claimable by blast
  qed
  then show "r \<in> set (db_jobs w')"
    using r(1) by (auto simp: assms(1) lease_rows_def set_sql_update)
qed

text \<open>The part of the world a call on the database leaves alone.\<close>

definition framed :: "'a sqlite_scheme \<Rightarrow> 'a sqlite_scheme \<Rightarrow> bool" where
  "framed w w' \<longleftrightarrow> sqlite.more w' = sqlite.more w \<and> (\<not> db_in_tx w \<longrightarrow> \<not> db_in_tx w')"

lemma framed_simps [simp]:
  "framed w w" "framed w (w\<lparr>db_faults := F\<rparr>)" "framed w (w\<lparr>db_jobs := js\<rparr>)"
  "framed w (w\<lparr>db_faults := F, db_jobs := js\<rparr>)"
  by (simp_all add: framed_def)

lemma update_jobs_framed: "update_jobs p f w = (r, w') \<Longrightarrow> framed w w'"
  by (erule update_jobs_cases) simp_all

lemma delete_jobs_framed: "delete_jobs p w = (r, w') \<Longrightarrow> framed w w'"
  by (erule delete_jobs_cases) simp_all

lemma select_framed: "exec_stmt (\<lambda>w. (Inr (f w), w)) w = (r, w') \<Longrightarrow> framed w w' \<and> db_jobs w' = db_jobs w"
  by (erule exec_stmt_cases) auto

lemma framed_ended:
  assumes "\<not> db_in_tx w" "framed (w\<lparr>db_faults := F, db_in_tx := True\<rparr>) v"
  shows "framed w (with_tables w (v\<lparr>db_faults := G, db_lost_commits := L\<rparr>))"
    "framed w (v\<lparr>db_faults := G, db_lost_commits := L, db_in_tx := False\<rparr>)"
  using assms by (simp_all add: framed_def with_tables_def)

lemma withImmediate_framed:
  assumes "withImmediateTransaction work w = (r, w')"
    and "\<And>w r w'. work w = (r, w') \<Longrightarrow> framed w w'"
  shows "framed w w'"
proof (cases "db_in_tx w")
  case True
  then show ?thesis
    using assms by (simp add: withImmediateTransaction_def)
next
  case False
  from assms(1) show ?thesis
    by (rule withImmediateTransaction_world [OF _ False]) (auto simp: framed_ended [OF False] dest!: assms(2))
qed

lemma RunInTx_framed:
  assumes "sqlite_RunInTx fn w = (r, w')" "\<And>w r w'. fn w = (r, w') \<Longrightarrow> framed w w'"
  shows "framed w w'"
proof (cases "db_in_tx w")
  case True
  then show ?thesis
    using assms by (simp add: sqlite_RunInTx_def)
next
  case False
  from assms(1) show ?thesis
    by (rule sqlite_RunInTx_world [OF _ False]) (auto simp: framed_ended [OF False] dest!: assms(2))
qed

lemma claim_executor_framed:
  "findAndReserveBatchWithExecutor str now until token caps limit w = (r, w') \<Longrightarrow> framed w w'"
  by (auto simp: findAndReserveBatchWithExecutor_def Let_def framed_def split: prod.splits sum.splits if_splits
      dest!: select_framed update_jobs_framed)

lemma bounded_executor_framed:
  "findAndReserveBatchBoundedWithExecutor str now until token cap limits w = (r, w') \<Longrightarrow> framed w w'"
  by (auto simp: findAndReserveBatchBoundedWithExecutor_def Let_def framed_def
      split: prod.splits sum.splits if_splits dest!: select_framed update_jobs_framed)

lemma outcomes_tx_framed: "apply_outcomes_tx token now outcomes w = (r, w') \<Longrightarrow> framed w w'"
  by (auto simp: apply_outcomes_tx_def deleteBatchTerminalOutcomes_def updateBatchRetryOutcomes_def framed_def
      split: prod.splits sum.splits if_splits dest!: delete_jobs_framed update_jobs_framed)

lemma ended_spares:
  "spares token now w (with_tables w v)"
  "spares token now w v \<Longrightarrow> spares token now w (v\<lparr>db_faults := G, db_lost_commits := L, db_in_tx := t\<rparr>)"
  by (simp_all add: spares_def with_tables_def)

lemma withImmediate_spares:
  assumes "withImmediateTransaction work w = (r, w')" "\<not> db_in_tx w"
    and "\<And>F x w2. work (w\<lparr>db_faults := F, db_in_tx := True\<rparr>) = (Inr x, w2) \<Longrightarrow> spares token now w w2"
  shows "spares token now w w'"
  using assms(1)
  by (rule withImmediateTransaction_world [OF _ assms(2)])
     (auto simp: ended_spares spares_same dest!: assms(3))

lemma claim_rows_free:
  "i \<in> r_id ` set (claim_rows str now caps limit js) \<Longrightarrow> \<exists>r \<in> set js. r_id r = i \<and> claimable now r"
  by (auto simp: claim_rows_def dest!: sql_select_sat)

lemma claim_spares:
  assumes "sqlite_FindAndReserveJobsForCapabilities str now until token' caps limit w = (r, w')" "\<not> db_in_tx w"
  shows "spares token now w w' \<and> framed w w'"
proof (cases "\<exists>e. w' = w \<and> r = Inl e")
  case False
  then have tx: "token' \<noteq> LeaseTokenNil"
    "withImmediateTransaction (findAndReserveBatchWithExecutor str now until token' caps limit) w = (r, w')"
    using assms(1) by (auto simp: sqlite_FindAndReserveJobsForCapabilities_def findAndReserveBatch_def
        validateBatchClaim_def split: if_splits option.splits)
  have "spares token now w w'"
    using tx(2) assms(2)
  proof (rule withImmediate_spares)
    fix F jobs w2
    assume "findAndReserveBatchWithExecutor str now until token' caps limit (w\<lparr>db_faults := F, db_in_tx := True\<rparr>) = (Inr jobs, w2)"
    then show "spares token now w w2"
      by (rule claim_executor_ok)
         (auto intro!: lease_rows_spares [OF _ tx(1)] claim_rows_free simp: claimed_job_def scanJob_def)
  qed
  then show ?thesis
    using withImmediate_framed [OF tx(2)] claim_executor_framed by blast
qed (auto simp: spares_refl)

lemma bounded_claim_spares:
  assumes "sqlite_FindAndReserveJobsForCapabilityBounded str now until token' cap limits w = (r, w')" "\<not> db_in_tx w"
  shows "spares token now w w' \<and> framed w w'"
proof (cases "\<exists>e. w' = w \<and> r = Inl e")
  case False
  then have tx: "token' \<noteq> LeaseTokenNil"
    "withImmediateTransaction (findAndReserveBatchBoundedWithExecutor str now until token' cap limits) w = (r, w')"
    using assms(1) by (auto simp: sqlite_FindAndReserveJobsForCapabilityBounded_def
        validateBatchClaim_def split: if_splits option.splits)
  have "spares token now w w'"
    using tx(2) assms(2)
  proof (rule withImmediate_spares)
    fix F jobs w2
    assume ex: "findAndReserveBatchBoundedWithExecutor str now until token' cap limits (w\<lparr>db_faults := F, db_in_tx := True\<rparr>) = (Inr jobs, w2)"
    show "spares token now w w2"
    proof (cases "lease_wf (db_jobs w)")
      case True
      let ?w = "w\<lparr>db_faults := F, db_in_tx := True\<rparr>"
      have "distinct (map r_id (db_jobs ?w))"
        using lease_wf_distinct [OF True] by simp
      then obtain F' k where k: "jobs = map (\<lambda>r. scanJob (take_lease until token' r))
          (take k (claim_rows str now [cap] (bl_MaxMessages limits) (db_jobs ?w)))"
        "w2 = ?w\<lparr>db_faults := F', db_jobs := lease_rows (map job_ID jobs) until token' (db_jobs ?w)\<rparr>"
        by (rule bounded_executor_ok [OF ex refl])
      have ids: "map job_ID jobs = map r_id (take k (claim_rows str now [cap] (bl_MaxMessages limits) (db_jobs w)))"
        unfolding k(1) by (simp add: comp_def scanJob_def)
      show ?thesis
      proof (rule lease_rows_spares [OF _ tx(1)])
        show "db_jobs w2 = lease_rows (map job_ID jobs) until token' (db_jobs w)"
          by (simp add: k(2))
        show "\<exists>r \<in> set (db_jobs w). r_id r = i \<and> claimable now r" if "i \<in> set (map job_ID jobs)" for i
          using that unfolding ids by (auto intro!: claim_rows_free dest: in_set_takeD)
      qed
    qed (simp add: spares_def)
  qed
  then show ?thesis
    using withImmediate_framed [OF tx(2)] bounded_executor_framed by blast
qed (auto simp: spares_refl)

text \<open>A step that adds jobs nobody has claimed, or none, and touches no row that is there.\<close>

definition unclaimed :: "job_row \<Rightarrow> bool" where
  "unclaimed r \<longleftrightarrow> r_reserved_at r = None \<and> r_lease_token r = LeaseTokenNil \<and> r_attempts r = 0"

definition adds_jobs :: "'a sqlite_scheme \<Rightarrow> 'a sqlite_scheme \<Rightarrow> bool" where
  "adds_jobs w w' \<longleftrightarrow> framed w w' \<and>
     (\<exists>rows. db_jobs w' = db_jobs w @ rows \<and> list_all unclaimed rows \<and> (wf_jobs (db_jobs w) \<longrightarrow> wf_jobs (db_jobs w')))"

lemma adds_refl: "adds_jobs w w"
  by (simp add: adds_jobs_def)

lemma adds_none: "framed w w' \<Longrightarrow> db_jobs w' = db_jobs w \<Longrightarrow> adds_jobs w w'"
  by (simp add: adds_jobs_def)

lemma adds_trans: "adds_jobs w w1 \<Longrightarrow> adds_jobs w1 w2 \<Longrightarrow> adds_jobs w w2"
  by (auto simp: adds_jobs_def framed_def)

lemma adds_spares: "adds_jobs w w' \<Longrightarrow> spares token now w w' \<and> framed w w'"
  by (auto simp: adds_jobs_def spares_def lease_wf_alt list_all_iff unclaimed_def row_ok_def)

lemma statement_adds:
  "insert_keys rows w = (r1, w') \<Longrightarrow> adds_jobs w w'"
  "select_keys keys w = (r2, w') \<Longrightarrow> adds_jobs w w'"
  "delete_keys p w = (r3, w') \<Longrightarrow> adds_jobs w w'"
  "insert_failed row w = (r3, w') \<Longrightarrow> adds_jobs w w'"
  "sqlite_failed_Delete i w = (r3, w') \<Longrightarrow> adds_jobs w w'"
  by (auto simp: framed_def insert_failed_def sqlite_failed_Delete_def split: if_splits intro!: adds_none
      elim!: insert_keys_cases select_keys_cases delete_keys_cases exec_stmt_cases)

lemma insert_jobs_adds: "insert_jobs rows w = (r, w') \<Longrightarrow> list_all unclaimed rows \<Longrightarrow> adds_jobs w w'"
  by (erule insert_jobs_cases) (auto simp: adds_jobs_def framed_def)

lemma unclaimed_new [simp]: "unclaimed (new_row i nm version payload key at created)"
  by (simp add: unclaimed_def new_row_def)

lemma ended_adds:
  assumes "\<not> db_in_tx w" "adds_jobs (w\<lparr>db_faults := F, db_in_tx := True\<rparr>) v"
  shows "adds_jobs w (with_tables w (v\<lparr>db_faults := G, db_lost_commits := L\<rparr>))"
    "adds_jobs w (v\<lparr>db_faults := G, db_lost_commits := L, db_in_tx := False\<rparr>)"
proof -
  have f: "framed (w\<lparr>db_faults := F, db_in_tx := True\<rparr>) v"
    using assms(2) by (simp add: adds_jobs_def)
  show "adds_jobs w (with_tables w (v\<lparr>db_faults := G, db_lost_commits := L\<rparr>))"
    using framed_ended(1) [OF assms(1) f] by (rule adds_none) (simp add: with_tables_def)
  show "adds_jobs w (v\<lparr>db_faults := G, db_lost_commits := L, db_in_tx := False\<rparr>)"
    using assms(2) framed_ended(2) [OF assms(1) f] by (auto simp: adds_jobs_def)
qed

lemma withImmediate_adds:
  assumes "withImmediateTransaction work w = (r, w')" "\<not> db_in_tx w" "\<And>w r w'. work w = (r, w') \<Longrightarrow> adds_jobs w w'"
  shows "adds_jobs w w'"
  using assms(1)
  by (rule withImmediateTransaction_world [OF _ assms(2)]) (auto simp: ended_adds [OF assms(2)] adds_none dest!: assms(3))

lemma RunInTx_result_adds:
  assumes "sqlite_RunInTx_result fn w = (r, w')" "\<not> db_in_tx w" "\<And>w r w'. fn w = (r, w') \<Longrightarrow> adds_jobs w w'"
  shows "adds_jobs w w'"
  using assms(1)
  by (rule RunInTx_result_world [OF _ assms(2)]) (auto simp: ended_adds [OF assms(2)] adds_none dest!: assms(3))

lemma unique_work_adds:
  assumes "createJobVersionedUnique (still_runtime u created) key nm version payload at w = (r, w')"
  shows "adds_jobs w w'"
proof -
  let ?k = "\<lparr>k_deduplication_key = key, k_job_id = JobID u,
      k_fingerprint = jobFingerprint nm version payload at, k_created_at = UnixMilli created\<rparr>"
  obtain r1 w1 where 1: "insert_keys [?k] w = (r1, w1)"
    by fastforce
  obtain r2 w2 where 2: "select_keys [key] w1 = (r2, w2)"
    by fastforce
  have j: "adds_jobs w w1" "adds_jobs w w2"
    using statement_adds(1) [OF 1] statement_adds(2) [OF 2] adds_trans by blast+
  have "w' = w1 \<or> w' = w2 \<or> (\<exists>k r3. insert_jobs [new_row k nm version payload (Some key) at created] w2 = (r3, w'))"
    using assms 1 2 by (auto simp: createJobVersionedUnique_def still_runtime_def
        split: sum.splits list.splits if_splits prod.splits)
  then show ?thesis
    using j adds_trans [OF j(2) insert_jobs_adds] by fastforce
qed

lemma unique_batch_tx_adds:
  assumes "unique_batch_tx prepared w = (r, w')"
  shows "adds_jobs w w'"
proof -
  obtain r1 w1 where 1: "registerUniqueBatchKeys prepared w = (r1, w1)"
    by fastforce
  have j: "adds_jobs w w1"
    using 1 by (auto simp: registerUniqueBatchKeys_def split: prod.splits sum.splits
        dest!: statement_adds(1,2) intro: adds_trans)
  have "w' = w1 \<or> (\<exists>cs r3. insert_jobs (map unique_row cs) w1 = (r3, w'))"
    using assms 1 by (auto simp: unique_batch_tx_def insertUniqueBatchJobs_def
        split: sum.splits prod.splits option.splits if_splits)
  then show ?thesis
    using j adds_trans [OF j insert_jobs_adds] by (auto simp: unique_row_def list_all_iff)
qed

text \<open>The calls of producers and of those who look after failed jobs and keys.\<close>

definition adding :: "rival_call \<Rightarrow> bool" where
  "adding call = (case call of
      RivalCreate _ _ _ _ _ \<Rightarrow> True | RivalUniquePut _ _ _ _ _ _ \<Rightarrow> True | RivalUniqueBatch _ \<Rightarrow> True
    | RivalPrune _ _ \<Rightarrow> True | RivalDeadLetter _ _ _ _ _ _ \<Rightarrow> True | RivalFailedCreate _ _ \<Rightarrow> True
    | RivalFailedDelete _ \<Rightarrow> True | _ \<Rightarrow> False)"

lemma adding_call_adds:
  assumes "adding call" "\<not> db_in_tx w"
  shows "adds_jobs w (rival_step str now call w)"
proof (cases call)
  case (RivalCreate u nm version payload at)
  then show ?thesis
    by (auto simp: sqlite_CreateJobVersioned_def still_runtime_def adds_refl
        split: option.splits sum.splits prod.splits dest: insert_jobs_adds)
next
  case (RivalUniquePut u key nm version payload at)
  then show ?thesis
    using assms(2) by (auto simp: sqlite_CreateJobVersionedUniqueResult_def adds_refl split: option.splits
        intro: withImmediate_adds [OF prod.collapse [symmetric]] unique_work_adds)
next
  case (RivalUniqueBatch prepared)
  then show ?thesis
    using assms(2) by (auto intro: RunInTx_result_adds [OF prod.collapse [symmetric]] unique_batch_tx_adds)
next
  case (RivalPrune before limit)
  then show ?thesis
    by (auto simp: sqlite_PruneJobIdempotencyKeys_def adds_refl statement_adds(3) [OF prod.collapse [symmetric]])
next
  case (RivalDeadLetter u i nm version payload reason)
  then show ?thesis
    by (auto simp: sqlite_CreateFailedJobVersioned_def still_runtime_def adds_refl
        split: option.splits sum.splits prod.splits dest: statement_adds(4))
next
  case (RivalFailedCreate u model)
  then show ?thesis
    by (auto simp: sqlite_failed_Create_def still_runtime_def split: sum.splits prod.splits dest: statement_adds(4))
next
  case (RivalFailedDelete i)
  then show ?thesis
    by (simp add: statement_adds(5) [OF prod.collapse [symmetric]])
qed (use assms(1) in \<open>simp_all add: adding_def\<close>)

lemma extend_framed: "sqlite_ExtendJobLeases ids token now until w = (r, w') \<Longrightarrow> framed w w'"
  by (auto simp: sqlite_ExtendJobLeases_def split: option.splits dest: update_jobs_framed)

lemma release_framed: "sqlite_ReleaseUnstartedJobsWithLease ids token now w = (r, w') \<Longrightarrow> framed w w'"
  by (auto simp: sqlite_ReleaseUnstartedJobsWithLease_def split: option.splits dest: update_jobs_framed)

lemma delete_framed: "sqlite_DeleteJobWithLease i token now w = (r, w') \<Longrightarrow> framed w w'"
  by (auto simp: sqlite_DeleteJobWithLease_def split: option.splits if_splits dest: delete_jobs_framed)

lemma reschedule_framed: "sqlite_RescheduleJobWithLease i token now at w = (r, w') \<Longrightarrow> framed w w'"
  by (auto simp: sqlite_RescheduleJobWithLease_def split: option.splits if_splits dest: update_jobs_framed)

lemma outcomes_framed: "sqlite_ApplyBatchJobOutcomes token now outcomes w = (r, w') \<Longrightarrow> framed w w'"
  by (auto simp: sqlite_ApplyBatchJobOutcomes_def split: option.splits prod.splits
      dest!: RunInTx_framed [OF _ outcomes_tx_framed])

lemma defer_framed: "sqlite_DeferJobWithLease i token now at w = (r, w') \<Longrightarrow> framed w w'"
  by (simp add: sqlite_DeferJobWithLease_def outcomes_framed)

lemma rival_step_spares:
  assumes "\<not> db_in_tx w" "rival_token call \<noteq> token"
  shows "spares token now w (rival_step str now call w) \<and> framed w (rival_step str now call w)"
proof (cases call)
  case (RivalClaim until token' caps limit)
  then show ?thesis
    using assms(1) by (simp add: claim_spares [OF prod.collapse [symmetric]])
next
  case (RivalBoundedClaim until token' cap limits)
  then show ?thesis
    using assms(1) by (simp add: bounded_claim_spares [OF prod.collapse [symmetric]])
next
  case (RivalExtend ids token' until)
  then show ?thesis
    using assms(2) by (simp add: fenced_spares [OF extend_fenced [OF prod.collapse [symmetric]]]
        extend_framed [OF prod.collapse [symmetric]])
next
  case (RivalRelease ids token')
  then show ?thesis
    using assms(2) by (simp add: fenced_spares [OF release_fenced [OF prod.collapse [symmetric]]]
        release_framed [OF prod.collapse [symmetric]])
next
  case (RivalDelete i token')
  then show ?thesis
    using assms(2) by (simp add: fenced_spares [OF delete_fenced [OF prod.collapse [symmetric]]]
        delete_framed [OF prod.collapse [symmetric]])
next
  case (RivalReschedule i token' at)
  then show ?thesis
    using assms(2) by (simp add: fenced_spares [OF reschedule_fenced [OF prod.collapse [symmetric]]]
        reschedule_framed [OF prod.collapse [symmetric]])
next
  case (RivalOutcomes token' outcomes)
  then show ?thesis
    using assms(2) by (simp add: fenced_spares [OF outcomes_fenced [OF prod.collapse [symmetric]]]
        outcomes_framed [OF prod.collapse [symmetric]])
next
  case (RivalDefer i token' at)
  then show ?thesis
    using assms(2) by (simp add: fenced_spares [OF defer_fenced [OF prod.collapse [symmetric]]]
        defer_framed [OF prod.collapse [symmetric]])
qed (rule adds_spares [OF adding_call_adds [OF _ assms(1)]]; simp add: adding_def)+

lemma lease_running:
  "clock < truncate_ms u \<Longrightarrow> now \<le> clock \<Longrightarrow> UnixMilli now < UnixMilli u"
  using UnixMilli_mono [of now clock] aligned_compare [of "truncate_ms u" clock]
  by (simp flip: time_UnixMilli_UnixMilli)

lemma spares_leased:
  assumes "spares token now w w'" "lease_wf (db_jobs w)" "leased_until token w i u" "UnixMilli now < UnixMilli u"
  shows "leased_until token w' i u"
proof -
  obtain r d where r: "r \<in> set (db_jobs w)" "r_id r = i" "r_lease_token r = token" "r_reserved_at r = Some d" "UnixMilli u \<le> d"
    using assms(3) by (auto simp: leased_until_def)
  then have "leased token now r"
    using assms(4) by (simp add: leased_def)
  then have "r \<in> set (db_jobs w')"
    using assms(1,2) r(1) by (simp add: spares_def)
  then show ?thesis
    using r by (auto simp: leased_until_def)
qed

text \<open>A row of calls by others.\<close>

lemma rivals_spare:
  fixes w :: shared
  assumes "\<not> db_in_tx w" "\<forall>(lag, call) \<in> set calls. rival_token call \<noteq> token" "lease_wf (db_jobs w)"
  shows "let w' = fold (\<lambda>(lag, call). rival_step str (t - int lag) call) calls w
    in sqlite.more w' = sqlite.more w \<and> lease_wf (db_jobs w') \<and>
       (\<forall>i u. leased_until token w i u \<longrightarrow> t < truncate_ms u \<longrightarrow> leased_until token w' i u)"
  using assms
proof (induction calls arbitrary: w)
  case (Cons c calls)
  obtain lag call where c: "c = (lag, call)"
    by (cases c)
  let ?w = "rival_step str (t - int lag) call w"
  have step: "spares token (t - int lag) w ?w \<and> framed w ?w"
    by (rule rival_step_spares) (use Cons.prems c in auto)
  have "leased_until token ?w i u" if "leased_until token w i u" "t < truncate_ms u" for i u
    using step Cons.prems(3) that lease_running [of t u "t - int lag"] by (auto intro: spares_leased)
  then show ?case
    using step Cons.IH [of ?w] Cons.prems by (auto simp: c framed_def spares_def Let_def)
qed (simp add: Let_def)

lemma pass_keeps: "kept sh_clock (shared_ok token) (leased_until token) w (pass str w)"
proof (cases "sh_rivals w")
  case Nil
  then show ?thesis
    by (simp add: pass_def kept_refl)
next
  case (Cons x later)
  obtain dt calls where x: "x = (dt, calls)"
    by (cases x)
  let ?w = "w\<lparr>sh_clock := sh_clock w + int dt, sh_rivals := later\<rparr>"
  have same: "leased_until token ?w i u = leased_until token w i u" for i u
    by (simp add: leased_until_def)
  show ?thesis
  proof (cases "db_in_tx w")
    case True
    then show ?thesis
      by (auto simp: pass_def Cons x kept_def shared_ok_def same)
  next
    case False
    let ?w' = "fold (\<lambda>(lag, call). rival_step str (sh_clock w + int dt - int lag) call) calls ?w"
    have w': "pass str w = ?w'"
      using False by (simp add: pass_def Cons x)
    show ?thesis
      unfolding kept_def w'
    proof (intro impI)
      assume ok: "shared_ok token w"
      then have others: "\<forall>(lag, call) \<in> set calls. rival_token call \<noteq> token" "lease_wf (db_jobs ?w)"
        by (auto simp: shared_ok_def Cons x)
      have kept: "sqlite.more ?w' = sqlite.more ?w" "lease_wf (db_jobs ?w')"
        "\<And>i u. leased_until token w i u \<Longrightarrow> sh_clock w + int dt < truncate_ms u \<Longrightarrow> leased_until token ?w' i u"
        using rivals_spare [of ?w calls token str "sh_clock w + int dt"] False others same by (simp_all add: Let_def)
      then have ext: "sh_clock ?w' = sh_clock ?w" "sh_rivals ?w' = sh_rivals ?w"
        by (metis shared.ext_inject shared.surjective sqlite.select_convs(7))+
      then show "shared_ok token ?w' \<and> sh_clock w \<le> sh_clock ?w' \<and>
          (\<forall>i u. leased_until token w i u \<longrightarrow> sh_clock ?w' < truncate_ms u \<longrightarrow> leased_until token ?w' i u)"
        using ok kept by (auto simp: shared_ok_def Cons)
    qed
  qed
qed

section \<open>The SQLite repository provides the interface\<close>

text \<open>An extension by the token itself, seen on the rows.\<close>

lemma extend_rows:
  assumes "sqlite_ExtendJobLeases ids token now until w = (res, w')"
  obtains (failed) e where "res = Inl e" "db_jobs w' = db_jobs w"
  | (extended) "res = Inr (sql_count (\<lambda>r. r_id r \<in> set ids \<and> leased token now r) (db_jobs w))"
      "db_jobs w' = sql_update (\<lambda>r. r_id r \<in> set ids \<and> leased token now r)
         (\<lambda>r. r\<lparr>r_reserved_at := Some (UnixMilli until)\<rparr>) (db_jobs w)"
proof (cases "validateBatchLease ids token")
  case None
  with assms have "update_jobs (\<lambda>r. r_id r \<in> set ids \<and> leased token now r)
      (\<lambda>r. r\<lparr>r_reserved_at := Some (UnixMilli until)\<rparr>) w = (res, w')"
    by (simp add: sqlite_ExtendJobLeases_def)
  then show thesis
  proof (cases rule: update_jobs_cases)
    case (failed e F)
    then show thesis
      by (intro that(1)) simp_all
  next
    case (ran F)
    then show thesis
      by (intro that(2)) simp_all
  qed
next
  case (Some e)
  then show thesis
    using assms by (intro that(1) [of e]) (simp_all add: sqlite_ExtendJobLeases_def)
qed

lemma extend_keeps_leased:
  assumes "sqlite_ExtendJobLeases ids token now until w = (res, w')" "leased_until token w i u"
    and "i \<notin> set ids \<or> u \<le> until"
  shows "leased_until token w' i u"
  using assms(1)
proof (cases rule: extend_rows)
  case extended
  obtain r d where r: "r \<in> set (db_jobs w)" "r_id r = i" "r_lease_token r = token" "r_reserved_at r = Some d" "UnixMilli u \<le> d"
    using assms(2) by (auto simp: leased_until_def)
  show ?thesis
  proof (cases "i \<in> set ids \<and> leased token now r")
    case True
    then have "UnixMilli u \<le> UnixMilli until"
      using assms(3) by (intro UnixMilli_mono) simp
    then show ?thesis
      unfolding leased_until_def extended(2) set_sql_update using r True
      by (intro bexI [of _ "r\<lparr>r_reserved_at := Some (UnixMilli until)\<rparr>"]) auto
  next
    case False
    then show ?thesis
      unfolding leased_until_def extended(2) set_sql_update using r by (intro bexI [of _ r]) auto
  qed
qed (use assms(2) in \<open>simp add: leased_until_def\<close>)

lemma extend_grants_leased:
  assumes "sqlite_ExtendJobLeases ids token now until w = (Inr (int (length ids)), w')"
    and "lease_wf (db_jobs w)" "i \<in> set ids"
  shows "leased_until token w' i until"
  using assms(1)
proof (cases rule: extend_rows)
  case extended
  let ?hits = "{i \<in> set ids. \<exists>r \<in> set (db_jobs w). r_id r = i \<and> leased token now r}"
  have "int (length ids) = int (card ?hits)"
    using extended(1) sql_count_card [OF lease_wf_distinct [OF assms(2)], of "set ids" "leased token now"] by simp
  then have "card (set ids) \<le> card ?hits"
    using card_length [of ids] by linarith
  then have "?hits = set ids"
    by (intro card_seteq) auto
  then obtain r where "r \<in> set (db_jobs w)" "r_id r = i" "leased token now r"
    using assms(3) by auto
  then show ?thesis
    unfolding leased_until_def extended(2) set_sql_update using assms(3)
    by (intro bexI [of _ "r\<lparr>r_reserved_at := Some (UnixMilli until)\<rparr>"]) (auto simp: leased_def)
qed simp

lemma extend_shared_ok:
  fixes w :: shared
  assumes "sqlite_ExtendJobLeases ids token' now until w = (res, w')" "shared_ok token w"
  shows "shared_ok token w' \<and> sh_clock w \<le> sh_clock w'"
proof -
  have "sqlite.more w' = sqlite.more w"
    using extend_framed [OF assms(1)] by (simp add: framed_def)
  then have "sh_clock w' = sh_clock w" "sh_rivals w' = sh_rivals w"
    by (metis shared.ext_inject shared.surjective sqlite.select_convs(7))+
  moreover have "lease_wf (db_jobs w')"
    using extend_fenced [OF assms(1)] assms(2) by (simp add: world_fenced_def fenced_def shared_ok_def)
  ultimately show ?thesis
    using assms(2) by (simp add: shared_ok_def)
qed

abbreviation shared_repo ::
  "(uuid \<Rightarrow> string) \<Rightarrow> shared runtime \<Rightarrow> shared JobsRepository" where
  "shared_repo \<equiv> sqlite_repo"

interpretation shared_sqlite: lease_world "shared_runtime str cause drained ticks uuids" "shared_repo str rt" token
  sh_clock "shared_ok token" "leased_until token"
  for str cause drained ticks uuids rt token
proof unfold_locales
  fix w w' and t :: time
  assume "time_Now (shared_runtime str cause drained ticks uuids) w = (t, w')" "shared_ok token w"
  then show "t \<le> sh_clock w'"
    using pass_keeps [of token w str] by (auto simp: shared_runtime_def kept_def)
next
  fix w w' c ids now until and res :: "error + int"
  assume ext: "ExtendJobLeases (shared_repo str rt) c ids token now until w = (res, w')" and ok: "shared_ok token w"
  then show "shared_ok token w' \<and> sh_clock w \<le> sh_clock w'"
    by (auto simp: sqlite_repo_def dest: extend_shared_ok)
  fix i u
  assume "leased_until token w i u" "i \<notin> set ids \<or> u \<le> until"
  then show "leased_until token w' i u"
    using ext by (auto simp: sqlite_repo_def intro: extend_keeps_leased)
next
  fix w w' c ids now until i
  assume a: "ExtendJobLeases (shared_repo str rt) c ids token now until w = (Inr (int (length ids)), w')"
    "shared_ok token w" "i \<in> set ids"
  then have "sqlite_ExtendJobLeases ids token now until w = (Inr (int (length ids)), w')" "lease_wf (db_jobs w)"
    by (simp_all add: sqlite_repo_def shared_ok_def)
  then show "leased_until token w' i until"
    using a(3) by (rule extend_grants_leased)
qed (auto simp: shared_runtime_def pass_keeps)

section \<open>From the claim on\<close>

lemma outstanding_new:
  "bm_leaseToken (newBatchLeaseManager jobs token d) = token \<and>
   (map_of (bm_outstanding (newBatchLeaseManager jobs token d)) i = Some u \<longrightarrow>
    (\<exists>job \<in> set jobs. job_ID job = i \<and> ReservedAt_Time job = u))"
proof -
  have "bm_leaseToken (fold note_lease jobs m) = bm_leaseToken m \<and>
      (map_of (bm_outstanding (fold note_lease jobs m)) i = Some u \<longrightarrow>
       map_of (bm_outstanding m) i = Some u \<or> (\<exists>job \<in> set jobs. job_ID job = i \<and> ReservedAt_Time job = u))" for m
  proof (induction jobs arbitrary: m)
    case (Cons a jobs)
    show ?case
      using Cons.IH [of "note_lease a m"] by (auto simp: note_lease_def update_conv' split: if_splits)
  qed simp
  then show ?thesis
    by (fastforce simp: newBatchLeaseManager_def)
qed

lemma claim_sound:
  fixes w :: shared
  assumes "sqlite_FindAndReserveJobsForCapabilities str now until token caps limit w = (Inr jobs, w')"
    and "shared_ok token w"
  shows "ledger_sound sh_clock (shared_ok token) (leased_until token) token (newBatchLeaseManager jobs token d) w'"
proof -
  obtain F where c: "token \<noteq> LeaseTokenNil" "jobs = map (claimed_job until token) (claim_rows str now caps limit (db_jobs w))"
    "w' = w\<lparr>db_faults := F, db_jobs := lease_rows (map job_ID jobs) until token (db_jobs w)\<rparr>"
    using assms(1) by (rule claim_ok)
  have ok: "shared_ok token w'"
    using assms(2) lease_wf_lease_rows [OF _ c(1)] by (simp add: shared_ok_def c(3))
  have "leased_until token w' (job_ID job) u" if job: "job \<in> set jobs" and u: "ReservedAt_Time job = u" for job u
  proof -
    obtain r where r: "job = claimed_job until token r" "r \<in> set (claim_rows str now caps limit (db_jobs w))"
      using job c(2) by auto
    have "r_id r = job_ID job"
      by (simp add: r(1) claimed_job_def scanJob_def)
    then have row: "r \<in> set (db_jobs w)" "r_id r \<in> set (map job_ID jobs)"
      using job r(2) by (auto simp: claim_rows_def dest: sql_select_sat)
    have "take_lease until token r \<in> set (db_jobs w')"
      using row by (auto simp: c(3) lease_rows_def set_sql_update)
    then show ?thesis
      using r(1) u unfolding leased_until_def
      by (intro bexI [of _ "take_lease until token r"])
         (auto simp: take_lease_def claimed_job_def scanJob_def ReservedAt_Time_def)
  qed
  then have "leased_until token w' i u" if "map_of (bm_outstanding (newBatchLeaseManager jobs token d)) i = Some u" for i u
    using that outstanding_new [of jobs token d i u] by blast
  then show ?thesis
    using ok outstanding_new [of jobs token d] by (simp add: ledger_sound_def)
qed

text \<open>C2. The ledger of a worker against a SQLite database it shares with any number of others. From its
  claim on, through any sequence of heartbeats, admissions and extensions, while any writing calls of
  workers with other tokens and of producers come in between any two steps and time passes, every
  deadline in the ledger is backed by the database up to the millisecond: until the millisecond that
  contains the deadline begins, the job's row is under the worker's token and its stored deadline,
  which the column keeps in whole milliseconds, is at least the deadline of the ledger rounded down
  to the millisecond. (After a claim with a fraction of a millisecond it can be earlier than the
  ledger's by that fraction.)\<close>

theorem ledger_backed_by_shared_database:
  assumes "shared_ok token w"
    and "sqlite_FindAndReserveJobsForCapabilities str now until token caps limit w = (Inr jobs, w1)"
    and "ledger_run (shared_runtime str cause drained ticks uuids) (sqlite_repo str rt)
           (newBatchLeaseManager jobs token d) w1 m' w'"
    and "map_of (bm_outstanding m') i = Some u" "sh_clock w' < truncate_ms u"
  shows "\<exists>r \<in> set (db_jobs w'). r_id r = i \<and> r_lease_token r = token \<and>
    (\<exists>d. r_reserved_at r = Some d \<and> UnixMilli u \<le> d)"
proof -
  have "ledger_sound sh_clock (shared_ok token) (leased_until token) token m' w'"
    using shared_sqlite.run_sound [OF assms(3)] claim_sound [OF assms(2,1)] by blast
  then show ?thesis
    using assms(4,5) by (simp add: ledger_sound_def leased_until_def)
qed

text \<open>A database with one free job and one of another worker. While the worker with token 9 claims and
  admits the free job, the other worker extends its lease and both try to claim more.\<close>

definition sample_shared :: shared where
  "sample_shared =
     \<lparr>db_jobs = [sample_row 1 None LeaseTokenNil 10, sample_row 2 (Some 90) (LeaseToken 7) 10],
      db_keys = [], db_failed = [], db_in_tx = False, db_faults = [], db_lost_commits = [], sh_clock = 50 * millisecond,
      sh_rivals = [(2, [(0, RivalExtend [JobID 1, JobID 2] (LeaseToken 7) (120 * millisecond))]),
                   (3, [(0, RivalClaim (150 * millisecond) (LeaseToken 8) [sample_cap] 5)])]\<rparr>"

definition sample_shared_runtime :: "shared runtime" where
  "sample_shared_runtime = shared_runtime sample_str (\<lambda>_ _. None) (\<lambda>_. False) (\<lambda>_. 1) (\<lambda>_. 1)"

definition sample_shared_claim :: "(error + Job list) \<times> shared" where
  "sample_shared_claim = sqlite_FindAndReserveJobsForCapabilities sample_str (50 * millisecond) (90 * millisecond)
     (LeaseToken 9) [sample_cap] 1 sample_shared"

definition sample_shared_ledger :: manager where
  "sample_shared_ledger = newBatchLeaseManager (projr (fst sample_shared_claim)) (LeaseToken 9) (60 * millisecond)"

definition sample_shared_admit :: "error option \<times> manager \<times> shared" where
  "sample_shared_admit = admit sample_shared_runtime (sqlite_repo sample_str sample_shared_runtime) BatchCtx
     sample_shared_ledger (snd sample_shared_claim)"

lemma sample_shared_run:
  "shared_ok (LeaseToken 9) sample_shared"
  "sqlite_FindAndReserveJobsForCapabilities sample_str (50 * millisecond) (90 * millisecond)
     (LeaseToken 9) [sample_cap] 1 sample_shared = (Inr (projr (fst sample_shared_claim)), snd sample_shared_claim)"
  "ledger_run sample_shared_runtime (sqlite_repo sample_str sample_shared_runtime) sample_shared_ledger
     (snd sample_shared_claim) (fst (snd sample_shared_admit)) (snd (snd sample_shared_admit))"
proof -
  show "shared_ok (LeaseToken 9) sample_shared"
    by code_simp
  have "isl (fst sample_shared_claim) = False"
    by code_simp
  then show "sqlite_FindAndReserveJobsForCapabilities sample_str (50 * millisecond) (90 * millisecond)
     (LeaseToken 9) [sample_cap] 1 sample_shared = (Inr (projr (fst sample_shared_claim)), snd sample_shared_claim)"
    by (cases "fst sample_shared_claim") (auto simp: sample_shared_claim_def prod_eq_iff)
  show "ledger_run sample_shared_runtime (sqlite_repo sample_str sample_shared_runtime) sample_shared_ledger
     (snd sample_shared_claim) (fst (snd sample_shared_admit)) (snd (snd sample_shared_admit))"
    by (rule run_admit [OF run_start, of _ _ BatchCtx _ _ "fst sample_shared_admit"])
       (simp add: sample_shared_admit_def)
qed

theorem ledger_backed_by_shared_database_witness:
  "map_of (bm_outstanding (fst (snd sample_shared_admit))) (JobID 1) = Some (111 * millisecond) \<and>
   (\<exists>r \<in> set (db_jobs (snd (snd sample_shared_admit))). r_id r = JobID 1 \<and> r_lease_token r = LeaseToken 9 \<and>
      (\<exists>d. r_reserved_at r = Some d \<and> 111 \<le> d))"
proof -
  have o: "map_of (bm_outstanding (fst (snd sample_shared_admit))) (JobID 1) = Some (111 * millisecond)"
    by code_simp
  have "sh_clock (snd (snd sample_shared_admit)) < truncate_ms (111 * millisecond)"
    by code_simp
  then have "\<exists>r \<in> set (db_jobs (snd (snd sample_shared_admit))). r_id r = JobID 1 \<and> r_lease_token r = LeaseToken 9 \<and>
      (\<exists>d. r_reserved_at r = Some d \<and> UnixMilli (111 * millisecond) \<le> d)"
    by (rule ledger_backed_by_shared_database [OF sample_shared_run(1,2)
        sample_shared_run(3) [unfolded sample_shared_ledger_def, unfolded sample_shared_runtime_def] o])
  then show ?thesis
    using o by (simp add: UnixMilli_def millisecond_def)
qed

text \<open>C4. A finalization on a SQLite database shared with others. When its work runs, the job's row is
  still under the worker's token, until after the work's own deadline by the margin, unless so much
  time has passed already that this deadline is over; otherwise an error is reported and the work
  has not run.\<close>

theorem finalization_under_stored_lease:
  assumes "ledger_sound sh_clock (shared_ok token) (leased_until token) token m w" "ledger_ok m"
    and "finalize (shared_runtime str cause drained ticks uuids) (sqlite_repo str rt) c jobID work m s w = (e, m', s', w')"
  shows "e \<noteq> None \<and> s' = s \<or>
    (\<exists>w2 until. sh_clock w + leaseFinalizationTimeout + batchFinalizationMargin \<le> until \<and>
       work (WithDeadline (WithoutCancel c) (sh_clock w + leaseFinalizationTimeout)) s w2 = (e, s', w') \<and>
       (sh_clock w2 < truncate_ms until \<longrightarrow>
          (\<exists>r \<in> set (db_jobs w2). r_id r = jobID \<and> r_lease_token r = token \<and>
             (\<exists>d. r_reserved_at r = Some d \<and> UnixMilli until \<le> d))))"
  using shared_sqlite.finalize_holds [OF assms(3,1,2)]
  by (simp add: shared_runtime_def leased_until_def kept_deadline_def)

text \<open>Deleting the admitted job as the work of its finalization.\<close>

definition sample_work :: "ctx \<Rightarrow> int \<Rightarrow> shared \<Rightarrow> error option \<times> int \<times> shared" where
  "sample_work c s w =
     (case sqlite_DeleteJobWithLease (JobID 1) (LeaseToken 9) (sh_clock w) w of
        (Inl err, w) \<Rightarrow> (Some err, s, w)
      | (Inr n, w) \<Rightarrow> (None, s + n, w))"

definition sample_shared_final :: "error option \<times> manager \<times> int \<times> shared" where
  "sample_shared_final = finalize sample_shared_runtime (sqlite_repo sample_str sample_shared_runtime) BatchCtx (JobID 1)
     sample_work sample_shared_ledger 0 (snd sample_shared_claim)"

theorem finalization_under_stored_lease_witness:
  "fst (snd (snd sample_shared_final)) = 1 \<and>
   (\<exists>w2 until. 50 * millisecond + leaseFinalizationTimeout + batchFinalizationMargin \<le> until \<and>
      sample_work (WithDeadline (WithoutCancel BatchCtx) (50 * millisecond + leaseFinalizationTimeout)) 0 w2 =
        (None, 1, snd (snd (snd sample_shared_final))) \<and>
      (sh_clock w2 < truncate_ms until \<longrightarrow> (\<exists>r \<in> set (db_jobs w2). r_id r = JobID 1 \<and> r_lease_token r = LeaseToken 9 \<and>
         (\<exists>d. r_reserved_at r = Some d \<and> UnixMilli until \<le> d))))"
proof -
  have f: "fst (snd (snd sample_shared_final)) = 1" "fst sample_shared_final = None"
    by code_simp+
  have "sample_shared_final = (None, fst (snd sample_shared_final), 1, snd (snd (snd sample_shared_final)))"
    using f by (simp add: prod_eq_iff)
  then have run: "finalize (shared_runtime sample_str (\<lambda>_ _. None) (\<lambda>_. False) (\<lambda>_. 1) (\<lambda>_. 1))
      (sqlite_repo sample_str sample_shared_runtime) BatchCtx (JobID 1) sample_work sample_shared_ledger 0
      (snd sample_shared_claim) = (None, fst (snd sample_shared_final), 1, snd (snd (snd sample_shared_final)))"
    unfolding sample_shared_runtime_def [symmetric] sample_shared_final_def [symmetric] .
  have sound: "ledger_sound sh_clock (shared_ok (LeaseToken 9)) (leased_until (LeaseToken 9)) (LeaseToken 9)
      sample_shared_ledger (snd sample_shared_claim)"
    unfolding sample_shared_ledger_def by (rule claim_sound [OF sample_shared_run(2,1)])
  have ok: "ledger_ok sample_shared_ledger" "sh_clock (snd sample_shared_claim) = 50 * millisecond"
    by code_simp+
  show ?thesis
    using finalization_under_stored_lease [OF sound ok(1) run] f(1) unfolding ok(2) by simp
qed

end
