(* ===== verification/Sqlite_Termination.thy ===== *)
theory Sqlite_Termination
  imports Service_Termination Sqlite_Delivery Lease_Soundness
begin

text \<open>
  The host on the SQLite repositories has a clock that never goes back, so every turn of a worker on it
  ends, for every feed, every list of driver failures and every handler.
\<close>

section \<open>The clock\<close>

lemma accounted_bound:
  "accounted (\<lambda>_. {}) (\<lambda>_. UNIV) (\<lambda>_. UNIV) ok w w' \<longleftrightarrow> (ok w \<longrightarrow> ok w')"
  by (simp add: accounted_def)

lemma more_clock: "sqlite.more w' = sqlite.more w \<Longrightarrow> ho_clock w' = ho_clock (w :: host)"
  by (cases w; cases w') simp

lemmas database_clock =
  claims_stored [THEN stored_def [THEN iffD1], THEN conjunct2, THEN conjunct1, THEN more_clock]
  bounded_stored [THEN stored_def [THEN iffD1], THEN conjunct2, THEN conjunct1, THEN more_clock]
  leases_stored [THEN stored_def [THEN iffD1], THEN conjunct2, THEN conjunct1, THEN more_clock]
  defer_stored [THEN stored_def [THEN iffD1], THEN conjunct2, THEN conjunct1, THEN more_clock]
  delete_job_stored [THEN stored_but_def [THEN iffD1], THEN conjunct2, THEN conjunct1, THEN more_clock]
  outcomes_framed [THEN framed_def [THEN iffD1], THEN conjunct1, THEN more_clock]

lemma draw_clock: "draw w = (n, w') \<Longrightarrow> ho_clock w' = ho_clock w"
  by (auto simp: draw_def split: list.splits)

lemma runtime_clock:
  "time_Now (host_runtime txt) w = (t, w') \<Longrightarrow> ho_clock w \<le> t \<and> t = ho_clock w'"
  "context_Cause (host_runtime txt) c w = (e, w') \<Longrightarrow> ho_clock w' = ho_clock w"
  "drain_closed (host_runtime txt) w = (b, w') \<Longrightarrow> ho_clock w' = ho_clock w"
  "uuid_New (host_runtime txt) w = (u, w') \<Longrightarrow> ho_clock w' = ho_clock w"
  "heartbeat_ticks (host_runtime txt) w = (n, w') \<Longrightarrow> ho_clock w' = ho_clock w"
  "timer_wait (host_runtime txt) c d w = (k, w') \<Longrightarrow>
     ho_clock w \<le> ho_clock w' \<and> (k = WokeTimer \<longrightarrow> ho_clock w + d \<le> ho_clock w')"
  by (auto simp: host_runtime_def split: prod.splits if_splits dest!: draw_clock)

lemma handlers_clock:
  "recording f c payload w = (h, w') \<Longrightarrow> ho_clock w' = ho_clock w"
  "recording_batch g c items w = (h2, w') \<Longrightarrow> ho_clock w' = ho_clock w"
  by (auto simp: recording_def recording_batch_def record_success_def Let_def
      split: prod.splits if_splits call.splits option.splits dest!: draw_clock)

lemma failed_clock:
  "sqlite_CreateFailedJobVersioned (host_runtime txt) i nm version payload reason w = (x, w') \<Longrightarrow> ho_clock w \<le> ho_clock w'"
  by (auto simp: sqlite_CreateFailedJobVersioned_def insert_failed_def Let_def
      split: option.splits prod.splits sum.splits if_splits elim!: exec_stmt_cases dest!: runtime_clock(1,4))

lemma RunInTx_clock:
  assumes "sqlite_RunInTx f w = (e, w')" "t0 \<le> ho_clock w"
    and "\<And>v d v'. f v = (d, v') \<Longrightarrow> t0 \<le> ho_clock v \<Longrightarrow> t0 \<le> ho_clock v'"
  shows "t0 \<le> ho_clock w'"
proof (cases "db_in_tx w")
  case True
  then show ?thesis
    using assms by (simp add: sqlite_RunInTx_def)
next
  case False
  have "t0 \<le> ho_clock v" if "f (w\<lparr>db_faults := F, db_in_tx := True\<rparr>) = (x, v)" for F x v
    using that by (rule assms(3)) (simp add: assms(2))
  with assms(1) show ?thesis
    by (elim sqlite_RunInTx_world [OF _ False]) (use assms(2) in \<open>auto simp: with_tables_def\<close>)
qed

lemma host_keeps_clock:
  "delivery (host_runtime txt) (host_service txt str opts singles batches) (\<lambda>_. {}) (\<lambda>_. UNIV) (\<lambda>_. UNIV)
     (\<lambda>w. t0 \<le> ho_clock w) (\<lambda>w. t0 \<le> ho_clock w)"
proof (unfold_locales, unfold accounted_bound, goal_cases)
  case (14 c f w e w')
  then show ?case using RunInTx_clock [of f w e w' t0] by simp
next
  case 18 then show ?case using host_handlers(1) handlers_clock(1) by metis
next
  case 20 then show ?case using host_handlers(2) handlers_clock(2) by metis
qed (auto simp: sqlite_repo_def sqlite_batch_repo_def sqlite_FindAndReserveJobsForCapability_def
    dest!: runtime_clock database_clock failed_clock)

interpretation host_time: clocked "host_runtime txt" "host_service txt str opts singles batches" ho_clock
  by unfold_locales (use host_keeps_clock runtime_clock in \<open>auto simp: delivery_def\<close>)

section \<open>Properties\<close>

text \<open>C8. Every turn of a worker ends: collecting an execution batch stops after finitely many claims and
  waits, whatever the database answers, so that the worker comes back to look at the drain channel.\<close>

theorem worker_turn_returns:
  "\<exists>step s' w'. worker_turn (host_runtime txt) str (host_service txt str' opts singles batches) single batch sched s w =
     Some (step, s', w')"
  using host_time.worker_turn_ends by (metis prod_cases3)

end
