(* ===== verification/Sqlite_Idempotency.thy ===== *)
theory Sqlite_Idempotency
  imports Sqlite_Unique Sqlite_Delivery
begin

text \<open>
  Unique puts are idempotent: the text that is hashed determines the content of a put; a put registers
  its key with its content, and from then on every put under that key either repeats it, returning the
  same job, or is refused; a batch of puts is all or nothing.
\<close>

section \<open>The canonical text\<close>

lemma canonical_content_inj:
  assumes "canonical_content nm v p at = canonical_content nm' v' p' at'" "zero_time \<le> at" "zero_time \<le> at'"
  shows "nm = nm' \<and> v = v' \<and> p = p' \<and> at = at'"
proof -
  note e1 = netstring_split [OF assms(1) [unfolded canonical_content_def]]
  note e2 = netstring_split [OF e1 [THEN conjunct2]]
  note e3 = netstring_split [OF e2 [THEN conjunct2]]
  have "format_RFC3339Nano at = format_RFC3339Nano at'"
    using netstring_split [of "format_RFC3339Nano at" "[]" "format_RFC3339Nano at'" "[]"] e3 [THEN conjunct2] by simp
  then have "at = at'"
    by (rule format_RFC3339Nano_inj [OF assms(2,3)])
  moreover have "v = v'"
    using e2 [THEN conjunct1] by (rule iffD1 [OF Itoa_inj])
  ultimately show ?thesis
    using e1 [THEN conjunct1] e3 [THEN conjunct1] by blast
qed

section \<open>What a put finds and leaves\<close>

text \<open>The process draws identifiers and reads the clock without touching the database.\<close>

definition rt_quiet :: "'a sqlite_scheme runtime \<Rightarrow> bool" where
  "rt_quiet rt \<longleftrightarrow> (\<forall>w. \<forall>w' \<in> {snd (uuid_New rt w), snd (time_Now rt w)}.
     tables w' = tables w \<and> db_faults w' = db_faults w \<and> db_in_tx w' = db_in_tx w \<and>
     db_lost_commits w' = db_lost_commits w)"

lemma quiet_uuid: "rt_quiet rt \<Longrightarrow> uuid_New rt w = (u, w') \<Longrightarrow>
    tables w' = tables w \<and> db_faults w' = db_faults w \<and> db_in_tx w' = db_in_tx w \<and> db_lost_commits w' = db_lost_commits w"
  unfolding rt_quiet_def by (metis insertI1 snd_conv)

lemma quiet_now: "rt_quiet rt \<Longrightarrow> time_Now rt w = (t, w') \<Longrightarrow>
    tables w' = tables w \<and> db_faults w' = db_faults w \<and> db_in_tx w' = db_in_tx w \<and> db_lost_commits w' = db_lost_commits w"
  unfolding rt_quiet_def by (metis insertI1 insertI2 snd_conv)

text \<open>The row registered under a key.\<close>

definition key_of :: "key_row list \<Rightarrow> string \<Rightarrow> key_row option" where
  "key_of ks key = row_at k_deduplication_key ks key"

lemma filter_key:
  assumes "wf_keys ks"
  shows "filter (\<lambda>k. k_deduplication_key k = key) ks = (case key_of ks key of None \<Rightarrow> [] | Some k \<Rightarrow> [k])"
  using assms
proof (induction ks)
  case (Cons k ks)
  have "filter (\<lambda>x. k_deduplication_key x = k_deduplication_key k) ks = []"
    using Cons.prems by (auto simp: wf_keys_def filter_empty_conv image_iff) 
  then show ?case
    using Cons by (auto simp: key_of_def wf_keys_def split: option.splits)
qed (simp add: key_of_def)

lemma add_key:
  "add_keys [k] ks = (if key_of ks (k_deduplication_key k) = None then ks @ [k] else ks)"
  by (auto simp: key_of_def row_at_None_iff)

lemma key_of_append:
  "key_of (ks @ [k]) key = (case key_of ks key of None \<Rightarrow> if k_deduplication_key k = key then Some k else None | Some x \<Rightarrow> Some x)"
  by (induction ks) (auto simp: key_of_def)

section \<open>One put\<close>

abbreviation content_fingerprint :: "UniqueBatchPut \<Rightarrow> string" where
  "content_fingerprint q \<equiv> jobFingerprint (ub_Name q) (ub_SchemaVersion q) (ub_Payload q) (ub_AvailableAt q)"

abbreviation put_row :: "UniqueBatchPut \<Rightarrow> JobID \<Rightarrow> time \<Rightarrow> job_row" where
  "put_row q i created \<equiv> new_row i (ub_Name q) (ub_SchemaVersion q) (ub_Payload q) (Some (ub_DeduplicationKey q))
     (ub_AvailableAt q) created"

abbreviation put_one :: "'a sqlite_scheme runtime \<Rightarrow> UniqueBatchPut \<Rightarrow> 'a sqlite_scheme \<Rightarrow>
   (error + UniquePutResult) \<times> 'a sqlite_scheme" where
  "put_one rt q \<equiv> sqlite_CreateJobVersionedUniqueResult rt (ub_DeduplicationKey q) (ub_Name q)
     (ub_SchemaVersion q) (ub_Payload q) (ub_AvailableAt q)"

text \<open>What successful puts say and do: a registered key names its job, a new key is registered for one
  new job, in the order of the puts, and nothing else changes.\<close>

definition answered :: "key_row list \<Rightarrow> UniqueBatchPut \<Rightarrow> UniquePutResult \<Rightarrow> bool" where
  "answered ks q r \<longleftrightarrow>
     (case key_of ks (ub_DeduplicationKey q) of
        Some k \<Rightarrow> k_fingerprint k = content_fingerprint q \<and> r = \<lparr>up_JobID = k_job_id k, up_Created = False\<rparr>
      | None \<Rightarrow> up_Created r)"

definition put_key :: "UniqueBatchPut \<Rightarrow> UniquePutResult \<Rightarrow> time \<Rightarrow> key_row" where
  "put_key q r created =
     \<lparr>k_deduplication_key = ub_DeduplicationKey q, k_job_id = up_JobID r,
      k_fingerprint = content_fingerprint q, k_created_at = UnixMilli created\<rparr>"

definition put_effect ::
  "(UniqueBatchPut \<times> UniquePutResult) list \<Rightarrow> 'a sqlite_scheme \<Rightarrow> 'a sqlite_scheme \<Rightarrow> bool" where
  "put_effect ps w w' \<longleftrightarrow>
     (\<forall>(q, r) \<in> set ps. answered (db_keys w) q r) \<and> distinct (map (ub_DeduplicationKey \<circ> fst) ps) \<and>
     (\<exists>created. let new = filter (up_Created \<circ> snd) ps
       in db_jobs w' = db_jobs w @ map (\<lambda>(q, r). put_row q (up_JobID r) created) new \<and>
          db_keys w' = db_keys w @ map (\<lambda>(q, r). put_key q r created) new \<and> db_failed w' = db_failed w)"

lemma tables_control [simp]: "tables (w\<lparr>db_faults := F\<rparr>) = tables w" "tables (w\<lparr>db_in_tx := t\<rparr>) = tables w"
  by (simp_all add: tables_def)

lemma put_effect_tables:
  "tables v = tables w \<Longrightarrow> tables v' = tables w' \<Longrightarrow> put_effect ps v v' \<longleftrightarrow> put_effect ps w w'"
  by (simp add: put_effect_def tables_def)

lemma create_unique_effect:
  assumes "rt_quiet rt" "wf_keys (db_keys w)"
    and "createJobVersionedUnique rt (ub_DeduplicationKey q) (ub_Name q) (ub_SchemaVersion q) (ub_Payload q)
      (ub_AvailableAt q) w = (Inr r, w')"
  shows "put_effect [(q, r)] w w' \<and> wf_keys (db_keys w')"
proof -
  obtain u wa where u: "uuid_New rt w = (u, wa)"
    by fastforce
  obtain t wb where t: "time_Now rt wa = (t, wb)"
    by fastforce
  have b: "db_jobs wb = db_jobs w" "db_keys wb = db_keys w" "db_failed wb = db_failed w"
    using quiet_uuid [OF assms(1) u] quiet_now [OF assms(1) t] by (auto simp: tables_def)
  show ?thesis
    using assms(2,3) u t b
    by (cases "key_of (db_keys w) (ub_DeduplicationKey q)")
       (auto simp: createJobVersionedUnique_def Let_def put_effect_def answered_def put_key_def
          add_key key_of_append filter_key simp del: add_keys.simps
        split: prod.splits sum.splits list.splits if_splits
        elim!: insert_keys_cases select_keys_cases insert_jobs_cases)
qed

lemma put_one_effect:
  assumes "rt_quiet rt" "wf_keys (db_keys w)" "put_one rt q w = (Inr r, w')"
  shows "put_effect [(q, r)] w w' \<and> wf_keys (db_keys w')"
proof -
  obtain F w2 G where "createJobVersionedUnique rt (ub_DeduplicationKey q) (ub_Name q) (ub_SchemaVersion q)
      (ub_Payload q) (ub_AvailableAt q) (w\<lparr>db_faults := F, db_in_tx := True\<rparr>) = (Inr r, w2)"
    and w': "w' = w2\<lparr>db_faults := G, db_in_tx := db_in_tx w \<and> db_in_tx w2\<rparr>"
    using assms(3) unfolding sqlite_CreateJobVersionedUniqueResult_def
    by (auto split: if_splits option.splits elim!: withImmediateTransaction_ok)
  note e = create_unique_effect [OF assms(1) _ this(1)]
  have "put_effect [(q, r)] (w\<lparr>db_faults := F, db_in_tx := True\<rparr>) w2 \<longleftrightarrow> put_effect [(q, r)] w w'"
    by (rule put_effect_tables) (simp_all add: w')
  then show ?thesis
    using e assms(2) by (simp add: w')
qed

text \<open>A put answered by an error changed nothing, or it took effect and the answer was lost.\<close>

lemma put_one_error:
  assumes "rt_quiet rt" "wf_keys (db_keys w)" "\<not> db_in_tx w" "put_one rt q w = (Inl e, w')"
  shows "tables w' = tables w \<or> (\<exists>r. put_effect [(q, r)] w w' \<and> wf_keys (db_keys w'))"
proof -
  let ?work = "createJobVersionedUnique rt (ub_DeduplicationKey q) (ub_Name q) (ub_SchemaVersion q)
      (ub_Payload q) (ub_AvailableAt q)"
  have "tables w' = tables w \<or> withImmediateTransaction ?work w = (Inl e, w')"
    using assms(4) unfolding sqlite_CreateJobVersionedUniqueResult_def by (auto split: if_splits option.splits)
  then show ?thesis
  proof
    assume "withImmediateTransaction ?work w = (Inl e, w')"
    then show ?thesis
    proof (cases rule: withImmediateTransaction_error [OF _ assms(3), consumes 1, case_names undone landed])
      case (landed F r w2)
      have "put_effect [(q, r)] (w\<lparr>db_faults := F, db_in_tx := True\<rparr>) w2 \<longleftrightarrow> put_effect [(q, r)] w w'"
        by (rule put_effect_tables) (simp_all add: landed(3))
      then show ?thesis
        using create_unique_effect [OF assms(1) _ landed(1)] assms(2) landed(3) by (auto simp: tables_def)
    qed simp
  qed simp
qed

section \<open>A batch of puts\<close>

lemma add_keys_append:
  "distinct (map k_deduplication_key rows) \<Longrightarrow>
   add_keys rows ks = ks @ filter (\<lambda>k. key_of ks (k_deduplication_key k) = None) rows"
proof (induction rows arbitrary: ks)
  case (Cons k rows)
  have "filter (\<lambda>x. key_of (ks @ [k]) (k_deduplication_key x) = None) rows =
      filter (\<lambda>x. key_of ks (k_deduplication_key x) = None) rows"
    using Cons.prems by (intro filter_cong) (auto simp: key_of_append image_iff split: option.splits)
  then show ?case
    using Cons by (auto simp: key_of_def row_at_None_iff)
qed simp

lemma key_of_filter:
  "key \<in> set keys \<Longrightarrow> row_at k_deduplication_key (filter (\<lambda>k. k_deduplication_key k \<in> set keys) ks) key = key_of ks key"
  by (induction ks) (auto simp: key_of_def)

lemma match_stored_Inr:
  "match_stored ks ps = Inr (rs, cs) \<Longrightarrow>
   list_all2 (\<lambda>p r. \<exists>k. row_at k_deduplication_key ks (ub_DeduplicationKey (pp_put p)) = Some k \<and>
       k_fingerprint k = pp_fingerprint p \<and> r = \<lparr>up_JobID = k_job_id k, up_Created = (k_job_id k = pp_jobID p)\<rparr>) ps rs \<and>
   cs = map fst (filter (up_Created \<circ> snd) (zip ps rs))"
  by (induction ks ps arbitrary: rs cs rule: match_stored.induct)
     (auto simp: Let_def split: option.splits if_splits sum.splits prod.splits)

text \<open>The key row a prepared put asks for.\<close>

abbreviation asked_key :: "preparedUniqueBatchPut \<Rightarrow> key_row" where
  "asked_key p \<equiv> \<lparr>k_deduplication_key = ub_DeduplicationKey (pp_put p), k_job_id = pp_jobID p,
     k_fingerprint = pp_fingerprint p, k_created_at = UnixMilli (pp_createdAt p)\<rparr>"

lemma asked_key_of:
  assumes "p \<in> set ps" "distinct (map (ub_DeduplicationKey \<circ> pp_put) ps)"
  shows "key_of (ks @ filter (\<lambda>k. key_of ks (k_deduplication_key k) = None) (map asked_key ps))
      (ub_DeduplicationKey (pp_put p)) =
    Some (case key_of ks (ub_DeduplicationKey (pp_put p)) of None \<Rightarrow> asked_key p | Some k \<Rightarrow> k)"
proof -
  have app: "key_of (xs @ ys) key = (case key_of xs key of None \<Rightarrow> key_of ys key | Some k \<Rightarrow> Some k)" for xs ys key
    by (induction xs) (auto simp: key_of_def)
  have "key_of (filter (\<lambda>k. key_of ks (k_deduplication_key k) = None) (map asked_key ps)) (ub_DeduplicationKey (pp_put p)) =
      Some (asked_key p)" if "key_of ks (ub_DeduplicationKey (pp_put p)) = None"
    using assms that by (induction ps) (auto simp: key_of_def image_iff)
  then show ?thesis
    by (auto simp: app split: option.splits)
qed

lemma prepared_facts:
  "prepareUniqueBatchPuts rt items created w = (ps, w') \<Longrightarrow> rt_quiet rt \<Longrightarrow>
   map pp_put ps = items \<and> tables w' = tables w \<and> db_in_tx w' = db_in_tx w \<and> db_faults w' = db_faults w \<and>
   db_lost_commits w' = db_lost_commits w \<and>
   (\<forall>p \<in> set ps. pp_createdAt p = created \<and> pp_fingerprint p = content_fingerprint (pp_put p))"
  by (induction items arbitrary: ps w) (fastforce split: prod.splits dest: quiet_uuid)+

lemma validate_batch_distinct:
  "validate_unique_batch seen items = None \<Longrightarrow>
   distinct (map ub_DeduplicationKey items) \<and> seen \<inter> ub_DeduplicationKey ` set items = {}"
  by (induction seen items rule: validate_unique_batch.induct) (auto split: if_splits option.splits)

text \<open>The answer to a prepared put.\<close>

abbreviation answer :: "key_row list \<Rightarrow> preparedUniqueBatchPut \<Rightarrow> UniquePutResult \<Rightarrow> bool" where
  "answer ks p r \<equiv> (case key_of ks (ub_DeduplicationKey (pp_put p)) of
     Some k \<Rightarrow> k_fingerprint k = pp_fingerprint p \<and> r = \<lparr>up_JobID = k_job_id k, up_Created = False\<rparr>
   | None \<Rightarrow> r = \<lparr>up_JobID = pp_jobID p, up_Created = True\<rparr>)"

lemma batch_answers:
  assumes "list_all2 (answer ks) ps rs"
    and "\<forall>p \<in> set ps. pp_createdAt p = created \<and> pp_fingerprint p = content_fingerprint (pp_put p)"
  shows "(\<forall>(q, r) \<in> set (zip (map pp_put ps) rs). answered ks q r) \<and>
    filter (\<lambda>k. key_of ks (k_deduplication_key k) = None) (map asked_key ps) =
      map (\<lambda>(q, r). put_key q r created) (filter (up_Created \<circ> snd) (zip (map pp_put ps) rs)) \<and>
    map unique_row (map fst (filter (up_Created \<circ> snd) (zip ps rs))) =
      map (\<lambda>(q, r). put_row q (up_JobID r) created) (filter (up_Created \<circ> snd) (zip (map pp_put ps) rs))"
  using assms
  by (induction rule: list_all2_induct)
     (auto simp: answered_def put_key_def unique_row_def split: option.splits)

lemma stored_answers:
  assumes "distinct (map (ub_DeduplicationKey \<circ> pp_put) ps)" "\<forall>p \<in> set ps. pp_jobID p \<notin> k_job_id ` set ks"
    and "match_stored (filter (\<lambda>k. k_deduplication_key k \<in> set (map (ub_DeduplicationKey \<circ> pp_put) ps))
      (add_keys (map asked_key ps) ks)) ps = Inr (rs, cs)"
  shows "list_all2 (answer ks) ps rs"
proof -
  have add: "add_keys (map asked_key ps) ks =
      ks @ filter (\<lambda>k. key_of ks (k_deduplication_key k) = None) (map asked_key ps)"
    using assms(1) by (intro add_keys_append) (simp add: comp_def)
  show ?thesis
    using match_stored_Inr [OF assms(3), THEN conjunct1]
  proof (rule list.rel_mono_strong)
    fix p r
    assume p: "p \<in> set ps" and "r \<in> set rs"
    assume "\<exists>k. row_at k_deduplication_key (filter (\<lambda>k. k_deduplication_key k \<in> set (map (ub_DeduplicationKey \<circ> pp_put) ps))
        (add_keys (map asked_key ps) ks)) (ub_DeduplicationKey (pp_put p)) = Some k \<and>
      k_fingerprint k = pp_fingerprint p \<and> r = \<lparr>up_JobID = k_job_id k, up_Created = (k_job_id k = pp_jobID p)\<rparr>"
    moreover have "ub_DeduplicationKey (pp_put p) \<in> set (map (ub_DeduplicationKey \<circ> pp_put) ps)"
      using p by simp
    ultimately obtain k where k: "key_of (ks @ filter (\<lambda>k. key_of ks (k_deduplication_key k) = None) (map asked_key ps))
        (ub_DeduplicationKey (pp_put p)) = Some k"
      "k_fingerprint k = pp_fingerprint p" "r = \<lparr>up_JobID = k_job_id k, up_Created = (k_job_id k = pp_jobID p)\<rparr>"
      by (auto simp only: add key_of_filter)
    then show "answer ks p r"
      using bspec [OF assms(2) p] unfolding asked_key_of [OF p assms(1)]
      by (auto simp: key_of_def image_iff split: option.splits dest!: row_at_SomeD)
  qed
qed

lemma unique_batch_effect:
  assumes "distinct (map (ub_DeduplicationKey \<circ> pp_put) ps)" "\<forall>p \<in> set ps. pp_jobID p \<notin> k_job_id ` set (db_keys w)"
    and "\<forall>p \<in> set ps. pp_createdAt p = created \<and> pp_fingerprint p = content_fingerprint (pp_put p)"
    and "unique_batch_tx ps w = (Inr rs, w')"
  shows "length rs = length ps \<and> put_effect (zip (map pp_put ps) rs) w w' \<and> wf_keys (db_keys w') \<and>
    db_lost_commits w' = db_lost_commits w"
proof -
  let ?ks = "add_keys (map asked_key ps) (db_keys w)"
  obtain cs where m: "match_stored (filter (\<lambda>k. k_deduplication_key k \<in> set (map (ub_DeduplicationKey \<circ> pp_put) ps)) ?ks) ps
      = Inr (rs, cs)" and wf: "wf_keys ?ks"
    and w': "db_keys w' = ?ks" "db_jobs w' = db_jobs w @ map unique_row cs" "db_failed w' = db_failed w"
      "db_lost_commits w' = db_lost_commits w"
    using assms(4)
    by (auto simp: unique_batch_tx_def registerUniqueBatchKeys_def insertUniqueBatchJobs_def
        split: prod.splits sum.splits option.splits if_splits
        elim!: insert_keys_cases select_keys_cases insert_jobs_cases)
  have l: "list_all2 (answer (db_keys w)) ps rs"
    by (rule stored_answers [OF assms(1,2) m])
  have "distinct (map (ub_DeduplicationKey \<circ> fst) (zip (map pp_put ps) rs))"
    using assms(1) list_all2_lengthD [OF l] by (simp flip: map_map add: map_fst_zip)
  moreover have "?ks = db_keys w @ filter (\<lambda>k. key_of (db_keys w) (k_deduplication_key k) = None) (map asked_key ps)"
    using assms(1) by (intro add_keys_append) (simp add: comp_def)
  ultimately show ?thesis
    using batch_answers [OF l assms(3)] list_all2_lengthD [OF l] wf match_stored_Inr [OF m, THEN conjunct2] w'
    unfolding put_effect_def Let_def by (intro conjI exI [of _ created]) simp_all
qed

text \<open>The identifiers drawn for a batch name no registered job.\<close>

definition fresh_ids :: "'a sqlite_scheme runtime \<Rightarrow> UniqueBatchPut list \<Rightarrow> 'a sqlite_scheme \<Rightarrow> bool" where
  "fresh_ids rt items w \<longleftrightarrow>
     (case time_Now rt w of (now, v) \<Rightarrow> case prepareUniqueBatchPuts rt items now v of (ps, _) \<Rightarrow>
        list_all (\<lambda>p. pp_jobID p \<notin> k_job_id ` set (db_keys w)) ps)"

text \<open>The transaction of a batch, from the prepared puts on.\<close>

lemma batch_tx_effect:
  assumes "rt_quiet rt" "fresh_ids rt items w" "validate_unique_batch {} items = None"
    and now: "time_Now rt w = (now, wa)" and ps: "prepareUniqueBatchPuts rt items now wa = (ps, wb)"
    and tx: "unique_batch_tx ps (wb\<lparr>db_faults := F, db_in_tx := True\<rparr>) = (Inr rs, w2)" "tables w' = tables w2"
  shows "length rs = length items \<and> put_effect (zip items rs) w w' \<and> wf_keys (db_keys w') \<and>
    db_lost_commits w2 = db_lost_commits w"
proof -
  note p = prepared_facts [OF ps assms(1)]
  have same: "tables wb = tables w" "db_lost_commits wb = db_lost_commits w"
    using p quiet_now [OF assms(1) now] by simp_all
  have items: "map pp_put ps = items"
    using p by simp
  have "length rs = length ps \<and> put_effect (zip (map pp_put ps) rs) (wb\<lparr>db_faults := F, db_in_tx := True\<rparr>) w2 \<and>
      wf_keys (db_keys w2) \<and> db_lost_commits w2 = db_lost_commits (wb\<lparr>db_faults := F, db_in_tx := True\<rparr>)"
  proof (rule unique_batch_effect [OF _ _ _ tx(1)])
    show "distinct (map (ub_DeduplicationKey \<circ> pp_put) ps)"
      using validate_batch_distinct [OF assms(3)] items by (metis map_map)
    show "\<forall>p \<in> set ps. pp_jobID p \<notin> k_job_id ` set (db_keys (wb\<lparr>db_faults := F, db_in_tx := True\<rparr>))"
      using assms(2) same by (simp add: fresh_ids_def now ps list_all_iff tables_def)
    show "\<forall>p \<in> set ps. pp_createdAt p = now \<and> pp_fingerprint p = content_fingerprint (pp_put p)"
      using p by simp
  qed
  moreover have "put_effect (zip items rs) (wb\<lparr>db_faults := F, db_in_tx := True\<rparr>) w2 \<longleftrightarrow> put_effect (zip items rs) w w'"
    by (rule put_effect_tables) (simp_all add: tx(2) same)
  ultimately show ?thesis
    using items same(2) tx(2) by (auto simp: tables_def)
qed

lemma put_batch_effect:
  assumes "rt_quiet rt" "fresh_ids rt items w"
    and "sqlite_CreateJobVersionedUniqueBatch rt items w = (Inr rs, w')"
  shows "length rs = length items \<and> put_effect (zip items rs) w w' \<and> wf_keys (db_keys w')"
proof -
  obtain now wa where now: "time_Now rt w = (now, wa)"
    by fastforce
  obtain ps wb where ps: "prepareUniqueBatchPuts rt items now wa = (ps, wb)"
    by fastforce
  have v: "validate_unique_batch {} items = None"
    and run: "sqlite_RunInTx_result (unique_batch_tx ps) wb = (Inr rs, w')"
    using assms(3) now ps unfolding sqlite_CreateJobVersionedUniqueBatch_def
    by (auto split: if_splits option.splits prod.splits sum.splits)
  obtain F w2 G where tx: "unique_batch_tx ps (wb\<lparr>db_faults := F, db_in_tx := True\<rparr>) = (Inr rs, w2)"
    and w': "w' = w2\<lparr>db_faults := G, db_in_tx := db_in_tx wb \<and> db_in_tx w2\<rparr>"
    using run by (rule RunInTx_result_ok)
  show ?thesis
    using batch_tx_effect [OF assms(1,2) v now ps tx, of w'] by (simp add: w')
qed

lemma put_batch_error:
  assumes "rt_quiet rt" "fresh_ids rt items w" "\<not> db_in_tx w"
    and "sqlite_CreateJobVersionedUniqueBatch rt items w = (Inl e, w')"
  shows "tables w' = tables w \<or> True \<in> set (db_lost_commits w) \<and>
    (\<exists>rs. length rs = length items \<and> put_effect (zip items rs) w w' \<and> wf_keys (db_keys w'))"
proof -
  obtain now wa where now: "time_Now rt w = (now, wa)"
    by fastforce
  obtain ps wb where ps: "prepareUniqueBatchPuts rt items now wa = (ps, wb)"
    by fastforce
  have same: "tables wb = tables w" "\<not> db_in_tx wb"
    using prepared_facts [OF ps assms(1)] quiet_now [OF assms(1) now] assms(3) by simp_all
  consider "tables w' = tables w"
    | e' where "validate_unique_batch {} items = None" "sqlite_RunInTx_result (unique_batch_tx ps) wb = (Inl e', w')"
    using assms(4) now ps unfolding sqlite_CreateJobVersionedUniqueBatch_def
    by (auto split: if_splits option.splits prod.splits sum.splits)
  then show ?thesis
  proof cases
    case 2
    from 2(2) show ?thesis
    proof (cases rule: RunInTx_result_error [OF _ same(2), consumes 1, case_names undone landed])
      case (landed F rs w2)
      then show ?thesis
        using batch_tx_effect [OF assms(1,2) 2(1) now ps landed(1,3)] by auto
    qed (simp add: same)
  qed simp
qed

section \<open>Histories of puts\<close>

text \<open>One step of a history of the key \<open>key\<close>: a put of one job or of a batch, of this and of other keys, which may
  fail, also after it took effect; or anything else that leaves the registration of \<open>key\<close> as it is, such as a
  worker's calls or the pruning of other keys. The answered puts are the step's label.\<close>

inductive put_step ::
  "'a sqlite_scheme runtime \<Rightarrow> string \<Rightarrow> 'a sqlite_scheme \<Rightarrow> (UniqueBatchPut \<times> UniquePutResult) list \<Rightarrow> 'a sqlite_scheme \<Rightarrow> bool"
  for rt key where
  one: "\<not> db_in_tx w \<Longrightarrow> put_one rt q w = (Inr r, w') \<Longrightarrow> put_step rt key w [(q, r)] w'"
| one_failed: "\<not> db_in_tx w \<Longrightarrow> put_one rt q w = (Inl e, w') \<Longrightarrow> put_step rt key w [] w'"
| batch: "\<not> db_in_tx w \<Longrightarrow> fresh_ids rt items w \<Longrightarrow>
    sqlite_CreateJobVersionedUniqueBatch rt items w = (Inr rs, w') \<Longrightarrow> put_step rt key w (zip items rs) w'"
| batch_failed: "\<not> db_in_tx w \<Longrightarrow> fresh_ids rt items w \<Longrightarrow>
    sqlite_CreateJobVersionedUniqueBatch rt items w = (Inl e, w') \<Longrightarrow> put_step rt key w [] w'"
| other: "row_at k_deduplication_key (db_keys w') key = row_at k_deduplication_key (db_keys w) key \<Longrightarrow>
    wf_keys (db_keys w') \<Longrightarrow> put_step rt key w [] w'"

inductive put_history ::
  "'a sqlite_scheme runtime \<Rightarrow> string \<Rightarrow> 'a sqlite_scheme \<Rightarrow> (UniqueBatchPut \<times> UniquePutResult) list \<Rightarrow> 'a sqlite_scheme \<Rightarrow> bool"
  for rt key where
  start: "put_history rt key w [] w"
| step: "put_history rt key w ps w1 \<Longrightarrow> put_step rt key w1 qs w2 \<Longrightarrow> put_history rt key w (ps @ qs) w2"

lemma put_step_effect:
  assumes "put_step rt key w ps w'" "rt_quiet rt" "wf_keys (db_keys w)"
  shows "wf_keys (db_keys w') \<and>
    (ps = [] \<and> key_of (db_keys w') key = key_of (db_keys w) key \<or> (\<exists>ps'. put_effect ps' w w' \<and> (ps = [] \<or> ps = ps')))"
  using assms
proof (induction rule: put_step.induct)
  case (one w q r w')
  then show ?case
    using put_one_effect by blast
next
  case (one_failed w q e w')
  then show ?case
    using put_one_error [OF one_failed.prems one_failed.hyps] by (auto simp: tables_def)
next
  case (batch w items rs w')
  then show ?case
    using put_batch_effect by blast
next
  case (batch_failed w items e w')
  then show ?case
    using put_batch_error [OF batch_failed.prems(1) batch_failed.hyps(2,1,3)] by (auto simp: tables_def)
next
  case (other w' w)
  then show ?case
    by (simp add: key_of_def)
qed

text \<open>Pruning that spares the key is such a step.\<close>

lemma prune_put_step:
  assumes "sqlite_PruneJobIdempotencyKeys before limit w = (res, w')" "wf_keys (db_keys w)"
    and "k \<in> set (db_keys w')" "k_deduplication_key k = key"
  shows "put_step rt key w [] w'"
proof (rule put_step.other)
  have sub: "\<exists>p. db_keys w' = filter p (db_keys w)"
    using assms(1) by (auto simp: sqlite_PruneJobIdempotencyKeys_def delete_keys_def sql_delete_def
        split: if_splits elim!: exec_stmt_cases intro: exI [of _ "\<lambda>_. True"])
  then show wf: "wf_keys (db_keys w')"
    using assms(2) by (auto simp: wf_keys_def distinct_map_filter)
  have "k \<in> set (db_keys w)"
    using sub assms(3) by auto
  then have "row_at k_deduplication_key (db_keys w) key = Some k"
    "row_at k_deduplication_key (db_keys w') key = Some k"
    using wf assms(2-4) by (simp_all add: row_at_iff wf_keys_def)
  then show "row_at k_deduplication_key (db_keys w') key = row_at k_deduplication_key (db_keys w) key"
    by simp
qed

text \<open>What the registry knows of an answered put, and how a later answer for the same key agrees with it.\<close>

definition on_record :: "key_row list \<Rightarrow> UniqueBatchPut \<times> UniquePutResult \<Rightarrow> bool" where
  "on_record ks = (\<lambda>(q, r). \<exists>k \<in> set ks. k_deduplication_key k = ub_DeduplicationKey q \<and>
     k_job_id k = up_JobID r \<and> k_fingerprint k = content_fingerprint q)"

definition agrees :: "UniqueBatchPut \<times> UniquePutResult \<Rightarrow> UniqueBatchPut \<times> UniquePutResult \<Rightarrow> bool" where
  "agrees = (\<lambda>(q, r) (q', r'). ub_DeduplicationKey q' = ub_DeduplicationKey q \<longrightarrow>
     up_JobID r' = up_JobID r \<and> \<not> up_Created r' \<and> content_fingerprint q' = content_fingerprint q)"

lemma put_effect_on_record:
  assumes "put_effect ps w w'"
  shows "(\<forall>p \<in> set ps. on_record (db_keys w') p) \<and> set (db_keys w) \<subseteq> set (db_keys w')"
proof -
  obtain created where k: "db_keys w' = db_keys w @ map (\<lambda>(q, r). put_key q r created) (filter (up_Created \<circ> snd) ps)"
    and a: "\<forall>(q, r) \<in> set ps. answered (db_keys w) q r"
    using assms by (auto simp: put_effect_def Let_def)
  have "on_record (db_keys w') (q, r)" if "(q, r) \<in> set ps" for q r
  proof (cases "key_of (db_keys w) (ub_DeduplicationKey q)")
    case None
    then have "put_key q r created \<in> set (db_keys w')"
      using a that by (force simp: k answered_def image_iff)
    then show ?thesis
      by (auto simp: on_record_def put_key_def intro: bexI [rotated])
  next
    case (Some x)
    then have "x \<in> set (db_keys w) \<and> k_deduplication_key x = ub_DeduplicationKey q"
      unfolding key_of_def by (rule row_at_SomeD)
    then show ?thesis
      using bspec [OF a that] Some by (auto simp: on_record_def answered_def k)
  qed
  then show ?thesis
    by (auto simp: k)
qed

lemma on_record_mono: "on_record ks p \<Longrightarrow> set ks \<subseteq> set ks' \<Longrightarrow> on_record ks' p"
  by (auto simp: on_record_def)

lemma on_record_key_of:
  "wf_keys ks \<Longrightarrow> on_record ks (q, r) \<Longrightarrow> \<exists>k. key_of ks (ub_DeduplicationKey q) = Some k \<and>
     k_job_id k = up_JobID r \<and> k_fingerprint k = content_fingerprint q"
  by (auto simp: on_record_def key_of_def wf_keys_def row_at_iff)

lemma answered_agrees:
  "wf_keys ks \<Longrightarrow> on_record ks p \<Longrightarrow> answered ks q r \<Longrightarrow> agrees p (q, r)"
  by (cases p) (auto simp: answered_def agrees_def dest!: on_record_key_of)

lemma distinct_agrees:
  "distinct (map (ub_DeduplicationKey \<circ> fst) ps) \<Longrightarrow> sorted_wrt agrees ps"
  by (induction ps) (auto simp: agrees_def image_iff split: prod.splits)

text \<open>The answered puts of the key are on record, and each agrees with the earlier ones.\<close>

abbreviation of_key :: "string \<Rightarrow> UniqueBatchPut \<times> UniquePutResult \<Rightarrow> bool" where
  "of_key key p \<equiv> ub_DeduplicationKey (fst p) = key"

lemma on_record_kept:
  "wf_keys ks \<Longrightarrow> wf_keys ks' \<Longrightarrow> key_of ks' key = key_of ks key \<Longrightarrow> of_key key p \<Longrightarrow> on_record ks p \<Longrightarrow> on_record ks' p"
proof -
  assume a: "wf_keys ks" "wf_keys ks'" "key_of ks' key = key_of ks key" "of_key key p" "on_record ks p"
  obtain q r where p: "p = (q, r)"
    by fastforce
  obtain k where k: "key_of ks key = Some k" "k_job_id k = up_JobID r" "k_fingerprint k = content_fingerprint q"
    using on_record_key_of [OF a(1) a(5) [unfolded p]] a(4) by (auto simp: p)
  then have "k \<in> set ks' \<and> k_deduplication_key k = key"
    using a(3) unfolding key_of_def by (intro row_at_SomeD) simp
  then show "on_record ks' p"
    using k(2,3) a(4) by (auto simp: on_record_def p)
qed

lemma put_history_agrees:
  assumes "put_history rt key w ps w'" "rt_quiet rt" "wf_keys (db_keys w)"
  shows "wf_keys (db_keys w') \<and> (\<forall>p \<in> set (filter (of_key key) ps). on_record (db_keys w') p) \<and>
    sorted_wrt agrees (filter (of_key key) ps)"
  using assms
proof (induction rule: put_history.induct)
  case (step w ps w1 qs w2)
  let ?f = "filter (of_key key)"
  have ih: "wf_keys (db_keys w1)" "\<forall>p \<in> set (?f ps). on_record (db_keys w1) p" "sorted_wrt agrees (?f ps)"
    using step by simp_all
  consider "qs = []" "key_of (db_keys w2) key = key_of (db_keys w1) key" "wf_keys (db_keys w2)"
    | qs' where "put_effect qs' w1 w2" "wf_keys (db_keys w2)" "qs = [] \<or> qs = qs'"
    using put_step_effect [OF step.hyps(2) step.prems(1) ih(1)] by blast
  then show ?case
  proof cases
    case 1
    then show ?thesis
      using ih on_record_kept [OF ih(1) 1(3,2)] by auto
  next
    case 2
    note rec = put_effect_on_record [OF 2(1)]
    have "sorted_wrt agrees (?f qs')"
      using 2(1) by (auto simp: put_effect_def distinct_map_filter intro: distinct_agrees)
    moreover have "\<forall>p \<in> set (?f ps). \<forall>q \<in> set (?f qs'). agrees p q"
      using 2(1) ih(1,2) by (auto simp: put_effect_def intro: answered_agrees)
    moreover have "on_record (db_keys w2) p" if "p \<in> set (?f ps)" for p
      using that ih(2) on_record_mono [OF _ conjunct2 [OF rec]] by blast
    ultimately show ?thesis
      using 2(2,3) ih(3) conjunct1 [OF rec] by (auto simp: sorted_wrt_append)
  qed
qed simp

section \<open>Pruned registrations\<close>




section \<open>Properties\<close>

lemma quiet_host: "rt_quiet (host_runtime txt)"
  by (auto simp: rt_quiet_def host_runtime_def draw_def tables_def split: list.splits)

text \<open>C35. Two puts have the same fingerprint exactly when they have the same name, version, payload and
  availability, or their canonical texts are a collision of SHA-256: the canonical text and the
  hexadecimal digest lose nothing.\<close>

theorem fingerprint_identifies_content:
  assumes "zero_time \<le> at" "zero_time \<le> at'"
  shows "jobFingerprint nm v p at = jobFingerprint nm' v' p' at' \<longleftrightarrow>
    nm = nm' \<and> v = v' \<and> p = p' \<and> at = at' \<or>
    canonical_content nm v p at \<noteq> canonical_content nm' v' p' at' \<and>
    Sum256 (canonical_content nm v p at) = Sum256 (canonical_content nm' v' p' at')"
proof -
  have "canonical_content nm v p at = canonical_content nm' v' p' at' \<longleftrightarrow> nm = nm' \<and> v = v' \<and> p = p' \<and> at = at'"
    using canonical_content_inj [OF _ assms, of nm v p nm' v' p'] by blast
  moreover have "EncodeToString xs = EncodeToString ys \<longleftrightarrow> xs = ys" for xs ys
    using EncodeToString_inj by blast
  ultimately show ?thesis
    unfolding jobFingerprint_def by metis
qed

theorem fingerprint_identifies_content_witness:
  "zero_time \<le> second \<and>
   (jobFingerprint ''ab'' 1 ''c'' second = jobFingerprint ''a'' 1 ''bc'' second) =
     (Sum256 (canonical_content ''ab'' 1 ''c'' second) = Sum256 (canonical_content ''a'' 1 ''bc'' second))"
proof -
  have z: "zero_time \<le> second"
    by (simp add: zero_time_def second_def)
  have "canonical_content ''ab'' 1 ''c'' second \<noteq> canonical_content ''a'' 1 ''bc'' second"
    using canonical_content_inj [OF _ z z, of "''ab''" 1 "''c''" "''a''" 1 "''bc''"] by auto
  then show ?thesis
    using z fingerprint_identifies_content [OF z z, of "''ab''" 1 "''c''" "''a''" 1 "''bc''"] by simp
qed

lemma sorted_wrt_filter_nth:
  "sorted_wrt P (filter Q xs) \<Longrightarrow> i < j \<Longrightarrow> j < length xs \<Longrightarrow> Q (xs ! i) \<Longrightarrow> Q (xs ! j) \<Longrightarrow> P (xs ! i) (xs ! j)"
proof (induction xs arbitrary: i j)
  case (Cons x xs)
  then obtain j' where j: "j = Suc j'"
    by (cases j) auto
  have rest: "sorted_wrt P (filter Q xs)"
    using Cons.prems(1) by (auto split: if_splits)
  show ?case
  proof (cases i)
    case 0
    then show ?thesis
      using Cons.prems by (auto simp: j split: if_splits)
  next
    case (Suc i')
    then show ?thesis
      using Cons.IH [OF rest, of i' j'] Cons.prems by (simp add: j)
  qed
qed simp

text \<open>C6. However often a deduplication key is put, alone or in batches, by whichever processes, with puts
  that fail before or after taking effect and with anything else in between that keeps the key's own
  registration, the pruning of other keys included: every answered put of the key names the same job,
  only the first one may have created it, and all were made with the same fingerprint.\<close>

theorem unique_puts_agree:
  assumes "rt_quiet rt" "wf_keys (db_keys w)" "put_history rt key w ps w'"
    and "i < j" "j < length ps" "ps ! i = (q, r)" "ps ! j = (q', r')"
    and "ub_DeduplicationKey q = key" "ub_DeduplicationKey q' = key"
  shows "up_JobID r' = up_JobID r \<and> \<not> up_Created r' \<and>
    jobFingerprint (ub_Name q') (ub_SchemaVersion q') (ub_Payload q') (ub_AvailableAt q') =
    jobFingerprint (ub_Name q) (ub_SchemaVersion q) (ub_Payload q) (ub_AvailableAt q)"
proof -
  have "sorted_wrt agrees (filter (of_key key) ps)"
    using put_history_agrees [OF assms(3,1,2)] by simp
  then have "agrees (ps ! i) (ps ! j)"
    by (rule sorted_wrt_filter_nth) (use assms(4-9) in simp_all)
  then show ?thesis
    using assms(6-9) by (simp add: agrees_def)
qed

definition sample_put :: UniqueBatchPut where
  "sample_put = \<lparr>ub_DeduplicationKey = ''k'', ub_Name = ''mail'', ub_SchemaVersion = 1, ub_Payload = ''x'',
     ub_AvailableAt = second\<rparr>"


lemmas put_evaluation = createJobVersionedUnique_def sqlite_CreateJobVersionedUniqueResult_def sample_put_def
  withImmediateTransaction_def runImmediateTransaction_def insert_keys_def select_keys_def insert_jobs_def
  exec_stmt_def host_runtime_def draw_def sample_host_def JobCapability_Validate_def wf_keys_def wf_jobs_def
  List.map_filter_simps new_row_def

text \<open>A put, the pruning of an old registration of another key, and the put again.\<close>

definition sample_old_key :: host where
  "sample_old_key = (sample_host [9, 0, 8, 0])\<lparr>db_keys := [\<lparr>k_deduplication_key = ''l'', k_job_id = JobID 5,
     k_fingerprint = [], k_created_at = 0\<rparr>]\<rparr>"

lemma sample_first_put:
  "\<exists>w w1 w2. put_one (host_runtime (\<lambda>_. ''boom'')) sample_put sample_old_key =
     (Inr \<lparr>up_JobID = JobID 9, up_Created = True\<rparr>, w) \<and> \<not> db_in_tx w \<and> wf_keys (db_keys w) \<and>
   sqlite_PruneJobIdempotencyKeys (2 * second) 10 w = (Inr 1, w1) \<and>
     map k_deduplication_key (db_keys w1) = [''k''] \<and> \<not> db_in_tx w1 \<and>
   put_one (host_runtime (\<lambda>_. ''boom'')) sample_put w1 = (Inr \<lparr>up_JobID = JobID 9, up_Created = False\<rparr>, w2)"
  by (simp add: put_evaluation sample_old_key_def sqlite_PruneJobIdempotencyKeys_def delete_keys_def prunable_def
      sql_select_def sql_delete_def UnixMilli_def second_def millisecond_def)

theorem unique_puts_agree_witness:
  "\<exists>w'. put_history (host_runtime (\<lambda>_. ''boom'')) ''k'' sample_old_key
      [(sample_put, \<lparr>up_JobID = JobID 9, up_Created = True\<rparr>), (sample_put, \<lparr>up_JobID = JobID 9, up_Created = False\<rparr>)] w' \<and>
    up_JobID \<lparr>up_JobID = JobID 9, up_Created = False\<rparr> = JobID 9"
proof -
  obtain w w1 w2 where w: "put_one (host_runtime (\<lambda>_. ''boom'')) sample_put sample_old_key =
      (Inr \<lparr>up_JobID = JobID 9, up_Created = True\<rparr>, w)" "\<not> db_in_tx w" "wf_keys (db_keys w)"
    "sqlite_PruneJobIdempotencyKeys (2 * second) 10 w = (Inr 1, w1)" "map k_deduplication_key (db_keys w1) = [''k'']"
    "\<not> db_in_tx w1"
    "put_one (host_runtime (\<lambda>_. ''boom'')) sample_put w1 = (Inr \<lparr>up_JobID = JobID 9, up_Created = False\<rparr>, w2)"
    using sample_first_put by (elim exE conjE) (rule that)
  have tx: "\<not> db_in_tx sample_old_key"
    by (simp add: sample_old_key_def sample_host_def)
  obtain k where k: "k \<in> set (db_keys w1)" "k_deduplication_key k = ''k''"
    using w(5) by auto
  from put_history.step [OF put_history.step [OF put_history.step [OF put_history.start
      put_step.one [OF tx w(1)]] prune_put_step [OF w(4,3) k]] put_step.one [OF w(6,7)]]
  have h: "put_history (host_runtime (\<lambda>_. ''boom'')) ''k'' sample_old_key
      [(sample_put, \<lparr>up_JobID = JobID 9, up_Created = True\<rparr>), (sample_put, \<lparr>up_JobID = JobID 9, up_Created = False\<rparr>)] w2"
    by simp
  have "wf_keys (db_keys sample_old_key)"
    by (simp add: sample_old_key_def wf_keys_def)
  from unique_puts_agree [OF quiet_host this h, of 0 1] h show ?thesis
    by (auto simp: sample_put_def)
qed




text \<open>C33. On a database that answers, a put of a registered key changes no table: it is answered with
  the registered job when the content has the registered fingerprint, and refused with
  ErrIdempotencyConflict otherwise.\<close>

theorem unique_put_replay:
  assumes "rt_quiet rt" "db_faults w = []" "wf_keys (db_keys w)" "row_at k_deduplication_key (db_keys w) key = Some k"
    and "key \<noteq> []" "JobCapability_Validate \<lparr>cap_Name = nm, cap_SchemaVersion = v\<rparr> = None"
  shows "\<exists>w'. tables w' = tables w \<and> sqlite_CreateJobVersionedUniqueResult rt key nm v p at w =
    (if k_fingerprint k = jobFingerprint nm v p at then Inr \<lparr>up_JobID = k_job_id k, up_Created = False\<rparr>
     else Inl (Sentinel ErrIdempotencyConflict), w')"
proof -
  obtain u wa where u: "uuid_New rt (w\<lparr>db_in_tx := True\<rparr>) = (u, wa)"
    by fastforce
  obtain t wb where t: "time_Now rt wa = (t, wb)"
    by fastforce
  have b: "tables wb = tables w" "db_faults wb = []" "db_in_tx wb"
    using quiet_uuid [OF assms(1) u] quiet_now [OF assms(1) t] assms(2) by simp_all
  have k: "key_of (db_keys wb) key = Some k" "wf_keys (db_keys wb)"
    using assms(3,4) b(1) by (simp_all add: tables_def key_of_def)
  have "wb\<lparr>db_keys := db_keys wb\<rparr> = wb"
    by simp
  then have create: "createJobVersionedUnique rt key nm v p at (w\<lparr>db_in_tx := True\<rparr>) =
    (if k_fingerprint k = jobFingerprint nm v p at then Inr \<lparr>up_JobID = k_job_id k, up_Created = False\<rparr>
     else Inl (Sentinel ErrIdempotencyConflict), wb)"
    using k b(2) by (simp add: createJobVersionedUnique_def u t insert_keys_def select_keys_def exec_stmt_def
        add_key filter_key Let_def del: add_keys.simps)
  have "sqlite_CreateJobVersionedUniqueResult rt key nm v p at w =
      withImmediateTransaction (createJobVersionedUnique rt key nm v p at) w"
    unfolding sqlite_CreateJobVersionedUniqueResult_def using assms(5,6) by (simp only: if_False option.case)
  moreover have "\<exists>w'. tables w' = tables w \<and> withImmediateTransaction (createJobVersionedUnique rt key nm v p at) w =
    (if k_fingerprint k = jobFingerprint nm v p at then Inr \<lparr>up_JobID = k_job_id k, up_Created = False\<rparr>
     else Inl (Sentinel ErrIdempotencyConflict), w')"
    using create b assms(2) by (cases "db_in_tx w") (auto simp: withImmediateTransaction_def in_tx_self
        runImmediateTransaction_def rollback_immediate_def exec_stmt_def)
  ultimately show ?thesis
    by simp
qed

definition sample_registered :: "string \<Rightarrow> host" where
  "sample_registered fp = (sample_host [])\<lparr>db_keys := [\<lparr>k_deduplication_key = ''k'', k_job_id = JobID 7,
     k_fingerprint = fp, k_created_at = 0\<rparr>]\<rparr>"

theorem unique_put_replay_witness:
  "fst (sqlite_CreateJobVersionedUniqueResult (host_runtime (\<lambda>_. ''boom'')) ''k'' ''mail'' 1 ''x'' second
     (sample_registered (jobFingerprint ''mail'' 1 ''x'' second))) = Inr \<lparr>up_JobID = JobID 7, up_Created = False\<rparr>"
proof -
  let ?fp = "jobFingerprint ''mail'' 1 ''x'' second"
  let ?k = "\<lparr>k_deduplication_key = ''k'', k_job_id = JobID 7, k_fingerprint = ?fp, k_created_at = 0\<rparr>"
  have "\<exists>w'. tables w' = tables (sample_registered ?fp) \<and>
      sqlite_CreateJobVersionedUniqueResult (host_runtime (\<lambda>_. ''boom'')) ''k'' ''mail'' 1 ''x'' second (sample_registered ?fp) =
      (if k_fingerprint ?k = ?fp then Inr \<lparr>up_JobID = k_job_id ?k, up_Created = False\<rparr>
       else Inl (Sentinel ErrIdempotencyConflict), w')"
    by (rule unique_put_replay [OF quiet_host])
       (simp_all add: sample_registered_def sample_host_def wf_keys_def JobCapability_Validate_def)
  then show ?thesis
    by auto
qed





end
