(* ===== verification/Sqlite_Reports.thy ===== *)
theory Sqlite_Reports
  imports Sqlite_Queries Sqlite_Jobs
begin

text \<open>
  What the read side of the SQLite repositories promises: walking the pages of \<open>ListPage\<close> visits every
  job once and in order, and the queue statistics count every job, with \<open>available\<close> meaning what a
  claim at the same time may take.
\<close>

section \<open>Pages\<close>

lemma uuid_of_JobID_inject: "uuid_of_JobID i = uuid_of_JobID j \<Longrightarrow> i = j"
  by (cases i; cases j) simp

text \<open>A client that asks for page after page, each time from the last job it was given.\<close>

fun page_walk ::
  "(uuid \<Rightarrow> string) \<Rightarrow> int \<Rightarrow> PageCursor option \<Rightarrow> nat \<Rightarrow> 'a sqlite_scheme \<Rightarrow> error + Job list" where
  "page_walk str limit before 0 w = Inr []"
| "page_walk str limit before (Suc pages) w =
     (case sqlite_ListPage str limit before w of
        (Inl err, w) \<Rightarrow> Inl err
      | (Inr jobs, w) \<Rightarrow>
          if jobs = [] then Inr []
          else map_sum id ((@) jobs)
            (page_walk str limit (Some \<lparr>pc_CreatedAt = job_CreatedAt (last jobs), pc_ID = job_ID (last jobs)\<rparr>) pages w))"

lemma page_filter:
  "page k n before t = take n (filter (\<lambda>r. case before of None \<Rightarrow> True | Some c \<Rightarrow> k r < c) (rev (sort_key k t)))"
proof (cases before)
  case (Some c)
  have "fst (k r) < fst c \<or> fst (k r) = fst c \<and> snd (k r) < snd c \<longleftrightarrow> k r < c" for r
    by (cases "k r"; cases c) auto
  then show ?thesis
    by (simp add: page_def Some case_prod_unfold flip: filter_sort rev_filter)
qed (simp add: page_def)

lemma descending_rest:
  fixes k :: "'r \<Rightarrow> 'k::linorder"
  assumes "sorted_wrt (\<lambda>x y. k y < k x) (xs @ ys)" "xs \<noteq> []"
  shows "filter (\<lambda>r. k r < k (last xs)) (xs @ ys) = ys"
proof -
  have "\<not> k x < k (last xs)" if "x \<in> set xs" for x
    using assms that by (cases xs rule: rev_cases) (auto simp: sorted_wrt_append)
  moreover have "k y < k (last xs)" if "y \<in> set ys" for y
    using assms that by (auto simp: sorted_wrt_append)
  ultimately show ?thesis
    by (simp add: filter_empty_conv filter_id_conv)
qed

lemma newest_first_descending:
  fixes k :: "'r \<Rightarrow> 'k::linorder"
  assumes "distinct (map k t)"
  shows "sorted_wrt (\<lambda>x y. k y < k x) (rev (sort_key k t))"
proof -
  have "sorted (map k (sort_key k t))" "distinct (map k (sort_key k t))"
    using assms by (simp_all add: distinct_map)
  then have "sorted_wrt (<) (map k (sort_key k t))"
    by (simp add: strict_sorted_iff)
  then show ?thesis
    by (simp add: sorted_wrt_map sorted_wrt_rev)
qed

lemma cursor_of_row:
  "cursor_key str \<lparr>pc_CreatedAt = job_CreatedAt (scanJob r), pc_ID = job_ID (scanJob r)\<rparr> = job_page_key str r"
  by (simp add: cursor_key_def job_page_key_def scanJob_def)

lemma walk_from:
  assumes "db_faults w = []" "page_limit limit = Inr n" "0 < n"
    and "sorted_wrt (\<lambda>x y. job_page_key str y < job_page_key str x) (xs @ ys)"
    and "rev (sort_key (job_page_key str) (db_jobs w)) = xs @ ys"
    and "before = (if xs = [] then None else Some \<lparr>pc_CreatedAt = job_CreatedAt (scanJob (last xs)), pc_ID = job_ID (scanJob (last xs))\<rparr>)"
    and "length ys < pages"
  shows "page_walk str limit before pages w = Inr (map scanJob ys)"
  using assms(4-7)
proof (induction pages arbitrary: xs ys before)
  case (Suc pages)
  have rows: "page (job_page_key str) n (map_option (cursor_key str) before) (db_jobs w) = take n ys"
    using Suc.prems(2,3) descending_rest [OF Suc.prems(1)]
    by (cases "xs = []") (simp_all add: page_filter cursor_of_row del: filter_append)
  then have list: "sqlite_ListPage str limit before w = (Inr (map scanJob (take n ys)), w)"
    using assms(1,2) by (simp add: sqlite_ListPage_def select_rows_def exec_stmt_def)
  show ?case
  proof (cases "ys = []")
    case False
    then have last: "last (map scanJob (take n ys)) = scanJob (last (take n ys))"
      using assms(3) by (simp add: last_map)
    have p: "length ys - n < pages"
      using False Suc.prems(4) assms(3) by (cases ys) auto
    have "page_walk str limit (Some \<lparr>pc_CreatedAt = job_CreatedAt (scanJob (last (take n ys))),
        pc_ID = job_ID (scanJob (last (take n ys)))\<rparr>) pages w = Inr (map scanJob (drop n ys))"
      by (rule Suc.IH [of "xs @ take n ys"])
         (use p Suc.prems(1,2) assms(3) False in \<open>auto simp: last_append\<close>)
    then show ?thesis
      using False assms(3) by (simp add: list last flip: map_append)
  qed (simp add: list)
qed simp

text \<open>C37. Asking for page after page, each from the last job of the page before, gives every stored job
  exactly once, newest first, and then ends, whatever the page size; jobs created in the same
  millisecond are neither skipped nor repeated.\<close>

theorem page_walk_complete:
  assumes "db_faults w = []" "wf_db w" "inj str" "limit \<le> MaxPageSize" "length (db_jobs w) < pages"
  shows "page_walk str limit None pages w = Inr (map scanJob (rev (sort_key (job_page_key str) (db_jobs w))))"
proof -
  have ids: "distinct (map r_id (db_jobs w))"
    using assms(2) by (simp add: wf_db_def wf_jobs_def)
  have "inj_on (job_page_key str) (set (db_jobs w))"
    by (auto simp: job_page_key_def JobID_String_def inj_eq [OF assms(3)] intro!: inj_onI
        intro: distinct_map_same [OF ids] dest!: uuid_of_JobID_inject)
  then have d: "distinct (map (job_page_key str) (db_jobs w))"
    using ids by (simp add: distinct_map)
  obtain n where "page_limit limit = Inr n" "0 < n"
    using assms(4) by (cases "limit \<le> 0") (auto simp: page_limit_def DefaultPageSize_def MaxPageSize_def)
  from walk_from [OF assms(1) this, of str "[]" _ None pages] newest_first_descending [OF d] assms(5) show ?thesis
    by simp
qed

definition sample_listing :: sqlite where
  "sample_listing =
     \<lparr>db_jobs = map (\<lambda>(i, created). new_row (JobID i) ''mail'' 1 ''x'' None 0 created)
        [(1, 5 * millisecond), (2, 7 * millisecond), (3, 5 * millisecond)],
      db_keys = [], db_failed = [], db_in_tx = False, db_faults = [], db_lost_commits = []\<rparr>"

text \<open>A spelling of identifiers that keeps them apart, for the example.\<close>

definition unary :: "uuid \<Rightarrow> string" where
  "unary u = replicate (unat u) CHR ''a''"

theorem page_walk_complete_witness:
  "map_sum id (map job_ID) (page_walk unary 1 None 4 sample_listing) = Inr [JobID 2, JobID 3, JobID 1]"
proof -
  have "inj unary"
    by (auto simp: unary_def intro!: injI dest!: arg_cong [of _ _ length] simp flip: word_unat_eq_iff)
  moreover have "wf_db sample_listing"
    by (simp add: sample_listing_def wf_db_def wf_jobs_def wf_keys_def wf_failed_def new_row_def List.map_filter_simps)
  ultimately have "page_walk unary 1 None 4 sample_listing =
      Inr (map scanJob (rev (sort_key (job_page_key unary) (db_jobs sample_listing))))"
    by (intro page_walk_complete) (simp_all add: sample_listing_def MaxPageSize_def)
  moreover have "unary 1 = ''a''" "unary 2 = ''aa''" "unary 3 = ''aaa''"
    by (simp_all add: unary_def, simp_all add: eval_nat_numeral)
  moreover have "UnixMilli (5 * millisecond) = 5" "UnixMilli (7 * millisecond) = 7"
    by (simp_all add: UnixMilli_def millisecond_def)
  ultimately show ?thesis
    by (simp add: sample_listing_def new_row_def scanJob_def job_page_key_def JobID_String_def)
qed

section \<open>Queue statistics\<close>

lemma sum_groups:
  assumes "finite K" "g ` set t \<subseteq> K"
  shows "(\<Sum>key \<in> K. sql_count p (filter (\<lambda>r. g r = key) t)) = sql_count p t"
  using assms(2)
proof (induction t)
  case (Cons r t)
  have "sql_count p (filter (\<lambda>r. g r = key) (r # t)) =
      (if key = g r then (if p r then 1 else 0) else 0) + sql_count p (filter (\<lambda>r. g r = key) t)" for key
    by simp
  then show ?case
    using Cons assms(1) by (simp add: sum.distrib sum.delta)
qed simp

lemma stat_keys_facts:
  "distinct (stat_keys js)" "sorted (stat_keys js)"
  "set (stat_keys js) = (\<lambda>r. (r_name r, r_schema_version r)) ` set js"
  by (simp_all add: stat_keys_def)

lemma sum_stat_keys:
  "sum_list (map (\<lambda>key. sql_count p (filter (\<lambda>r. (r_name r, r_schema_version r) = key) js)) (stat_keys js)) = sql_count p js"
  using sum_groups [of "set (stat_keys js)" "\<lambda>r. (r_name r, r_schema_version r)" js p]
  by (simp add: stat_keys_facts sum_list_distinct_conv_sum_set [OF stat_keys_facts(1)])

lemma stat_available_claimable: "stat_available (UnixMilli now) = claimable now"
  by (auto simp: stat_available_def claimable_def fun_eq_iff)

lemma sql_count_disjoint:
  "(\<And>r. \<not> (p r \<and> q r)) \<Longrightarrow> sql_count p t + sql_count q t \<le> int (length t)"
  by (induction t) auto

text \<open>A group counts its capability's jobs, and names the time since which the longest waiting of them is
  available.\<close>

definition group_exact :: "time \<Rightarrow> job_row list \<Rightarrow> CapabilityQueueStats \<Rightarrow> bool" where
  "group_exact now js g \<longleftrightarrow>
     (let rows = filter (\<lambda>r. r_name r = cs_Name g \<and> r_schema_version r = cs_SchemaVersion g) js;
           waiting = filter (claimable now) rows
       in cs_Total g = int (length rows) \<and> cs_Available g = int (length waiting) \<and>
          (waiting \<noteq> [] \<longrightarrow>
             (\<exists>r \<in> set waiting. cs_OldestAvailableAt g = time_UnixMilli (r_available_at r) \<and>
               (\<forall>r' \<in> set waiting. r_available_at r \<le> r_available_at r'))))"

lemma Min_attained:
  fixes f :: "'a \<Rightarrow> int"
  assumes "xs \<noteq> []"
  shows "\<exists>x \<in> set xs. Min (f ` set xs) = f x \<and> (\<forall>y \<in> set xs. f x \<le> f y)"
proof -
  have "Min (f ` set xs) \<in> f ` set xs"
    using assms by (intro Min_in) simp_all
  then obtain x where x: "x \<in> set xs" "Min (f ` set xs) = f x"
    by (rule imageE)
  have "f x \<le> f y" if "y \<in> set xs" for y
    unfolding x(2) [symmetric] using that by simp
  with x show ?thesis
    by blast
qed

lemma stat_group_facts:
  assumes "g = stat_group (UnixMilli now) js key"
  shows "group_exact now js g"
proof -
  let ?rows = "filter (\<lambda>r. (r_name r, r_schema_version r) = key) js"
  have g: "cs_Name g = fst key" "cs_SchemaVersion g = snd key" "cs_Total g = int (length ?rows)"
    "cs_Available g = int (length (filter (claimable now) ?rows))"
    "cs_OldestAvailableAt g = (if filter (claimable now) ?rows = [] then zero_time
       else time_UnixMilli (Min (r_available_at ` set (filter (claimable now) ?rows))))"
    by (simp_all only: assms stat_group_def Let_def CapabilityQueueStats.simps stat_available_claimable)
  have rows: "filter (\<lambda>r. r_name r = fst key \<and> r_schema_version r = snd key) js = ?rows"
    by (intro filter_cong) auto
  define waiting where "waiting = filter (claimable now) ?rows"
  show ?thesis
    unfolding group_exact_def g(1,2) rows Let_def using g(3-5) Min_attained [of waiting r_available_at]
    unfolding waiting_def [symmetric] by (cases "waiting = []") auto
qed

text \<open>C38. The queue statistics are a partition of the queue: there is one group per stored capability, in
  order; the totals are the numbers of all jobs, of the jobs a claim at the observed time may take, and
  of the jobs under a running lease; no job is counted as both; and each group counts its capability's
  jobs with the time the longest waiting of them became available.\<close>

theorem queue_stats_partition:
  assumes "db_faults w = []"
  shows "\<exists>st. sqlite_GetQueueStats now w = (Inr st, w) \<and> qs_ObservedAt st = now \<and>
    qs_Total st = int (length (db_jobs w)) \<and>
    qs_Available st = sql_count (claimable now) (db_jobs w) \<and>
    qs_Processing st = sql_count (stat_processing (UnixMilli now)) (db_jobs w) \<and>
    qs_Available st + qs_Processing st \<le> qs_Total st \<and>
    map (\<lambda>g. (cs_Name g, cs_SchemaVersion g)) (qs_ByCapability st) = stat_keys (db_jobs w) \<and>
    (\<forall>g \<in> set (qs_ByCapability st). group_exact now (db_jobs w) g)"
proof -
  let ?js = "db_jobs w" and ?ms = "UnixMilli now"
  let ?groups = "map (stat_group ?ms ?js) (stat_keys ?js)"
  let ?st = "\<lparr>qs_ObservedAt = now, qs_Total = sum_list (map cs_Total ?groups),
      qs_Available = sum_list (map cs_Available ?groups), qs_Processing = sum_list (map cs_Processing ?groups),
      qs_ByCapability = ?groups\<rparr>"
  have total: "sum_list (map cs_Total ?groups) = int (length ?js)"
    using sum_stat_keys [of "\<lambda>_. True" ?js] by (simp add: stat_group_def Let_def comp_def sql_count_def)
  have avail: "sum_list (map cs_Available ?groups) = sql_count (claimable now) ?js"
    using sum_stat_keys [of "claimable now" ?js]
    by (simp add: stat_group_def Let_def comp_def sql_count_def stat_available_claimable)
  have proc: "sum_list (map cs_Processing ?groups) = sql_count (stat_processing ?ms) ?js"
    using sum_stat_keys [of "stat_processing ?ms" ?js] by (simp add: stat_group_def Let_def comp_def)
  have "sql_count (claimable now) ?js + sql_count (stat_processing ?ms) ?js \<le> int (length ?js)"
    by (rule sql_count_disjoint) (auto simp: claimable_def stat_processing_def split: option.splits)
  moreover have "sqlite_GetQueueStats now w = (Inr ?st, w)"
    using assms by (simp add: sqlite_GetQueueStats_def select_rows_def exec_stmt_def)
  moreover have "map (\<lambda>g. (cs_Name g, cs_SchemaVersion g)) ?groups = stat_keys ?js"
    by (simp add: stat_group_def Let_def comp_def)
  moreover have "\<forall>g \<in> set ?groups. group_exact now ?js g"
  proof
    fix g
    assume "g \<in> set ?groups"
    then obtain key where "g = stat_group ?ms ?js key"
      unfolding set_map by (rule imageE)
    then show "group_exact now ?js g"
      by (rule stat_group_facts)
  qed
  moreover note total avail proc
  ultimately show ?thesis
    by (intro exI [of _ ?st]) (simp only: QueueStats.simps simp_thms)
qed

theorem queue_stats_partition_witness:
  "\<exists>st. sqlite_GetQueueStats second sample_listing = (Inr st, sample_listing) \<and> qs_Total st = 3 \<and>
     map (\<lambda>g. (cs_Name g, cs_SchemaVersion g)) (qs_ByCapability st) = [(''mail'', 1)]"
proof -
  have "db_faults sample_listing = []" "length (db_jobs sample_listing) = 3"
    "stat_keys (db_jobs sample_listing) = [(''mail'', 1)]"
    by (simp_all add: sample_listing_def stat_keys_def new_row_def)
  with queue_stats_partition [of sample_listing second] show ?thesis
    by auto
qed

end
