(* ===== verification/Service_Fairness.thy ===== *)
theory Service_Fairness
  imports Service_Worker Sqlite_Delivery
begin

text \<open>
  The rotation of \<open>processOneAvailableBatch\<close> is fair: among the batch capabilities of a worker none is
  starved by the others. The argument is the usual one for a round robin: every batch that is processed
  moves the cursor towards a waiting capability, and cannot move it past.
\<close>

section \<open>One call\<close>

text \<open>The capabilities a call looks at and passes over, because they are paused or have no work.\<close>

fun passed_over ::
  "'w runtime \<Rightarrow> (uuid \<Rightarrow> string) \<Rightarrow> 'w Service \<Rightarrow> JobCapability list \<Rightarrow> nat \<Rightarrow> nat list \<Rightarrow> svc_state \<Rightarrow> 'w \<Rightarrow> nat list" where
  "passed_over rt str sv capabilities start [] s w = []"
| "passed_over rt str sv capabilities start (offset # offsets) s w =
     (let index = (start + offset) mod length capabilities;
          (now, w) = time_Now rt w;
          (paused, s) = batchCapabilityPaused (capabilities ! index) now s
      in if paused then index # passed_over rt str sv capabilities start offsets s w
         else case findAndProcessExecutionBatch rt str sv (capabilities ! index) s w of
                None \<Rightarrow> []
              | Some ((processed, err), s, w) \<Rightarrow>
                  if err \<noteq> None \<or> processed then []
                  else index # passed_over rt str sv capabilities start offsets s w)"

lemma try_batches_served:
  assumes "try_batches rt str sv caps start [k0..<length caps] cursor s w = Some ((True, err), cursor', s', w')"
  shows "\<exists>k. k0 \<le> k \<and> k < length caps \<and> cursor' = ((start + k) mod length caps + 1) mod length caps \<and>
    (\<forall>k'. k0 \<le> k' \<and> k' < k \<longrightarrow>
       (start + k') mod length caps \<in> set (passed_over rt str sv caps start [k0..<length caps] s w))"
  using assms
proof (induction "length caps - k0" arbitrary: k0 s w)
  case 0
  then show ?case
    by simp
next
  case (Suc d)
  let ?n = "length caps"
  have k0: "k0 < ?n" "[k0..<?n] = k0 # [Suc k0..<?n]" "d = ?n - Suc k0"
    using Suc.hyps(2) by (simp_all add: upt_conv_Cons)
  obtain now w1 where now: "time_Now rt w = (now, w1)"
    by fastforce
  obtain paused s1 where p: "batchCapabilityPaused (caps ! ((start + k0) mod ?n)) now s = (paused, s1)"
    by fastforce
  have skip: ?case if "try_batches rt str sv caps start [Suc k0..<?n] cursor s2 w2 = Some ((True, err), cursor', s', w')"
    "passed_over rt str sv caps start [k0..<?n] s w =
       (start + k0) mod ?n # passed_over rt str sv caps start [Suc k0..<?n] s2 w2" for s2 w2
    using Suc.hyps(1) [OF k0(3) that(1)] that(2)
    by (metis Suc_leD Suc_leI le_neq_implies_less list.set_intros(1,2))
  show ?case
  proof (cases paused)
    case True
    with Suc.prems show ?thesis
      by (intro skip [of s1 w1]) (simp_all add: k0(2) now p)
  next
    case False
    then obtain processed e s2 w2 where f: "findAndProcessExecutionBatch rt str sv (caps ! ((start + k0) mod ?n)) s1 w1 =
        Some ((processed, e), s2, w2)"
      using Suc.prems by (auto simp: k0(2) now p Let_def split: option.splits)
    show ?thesis
    proof (cases "e \<noteq> None \<or> processed")
      case True
      then show ?thesis
        using Suc.prems False k0(1) by (intro exI [of _ k0]) (auto simp: k0(2) now p f)
    next
      case e: False
      with Suc.prems False show ?thesis
        by (intro skip [of s2 w2]) (simp_all add: k0(2) now p f)
    qed
  qed
qed

section \<open>Many calls\<close>

text \<open>Calls of one worker that each processed a batch, with anything happening in between: the
  capabilities they served, in order, and those they passed over.\<close>

inductive batch_runs ::
  "'w runtime \<Rightarrow> (uuid \<Rightarrow> string) \<Rightarrow> 'w Service \<Rightarrow> JobCapability list \<Rightarrow> nat \<Rightarrow> nat list \<Rightarrow> nat set \<Rightarrow> bool"
  for rt str sv capabilities where
  no_call: "batch_runs rt str sv capabilities cursor [] {}"
| call: "processOneAvailableBatch rt str sv capabilities cursor s w = Some ((True, err), cursor', s', w') \<Longrightarrow>
    index < length capabilities \<Longrightarrow> cursor' = (index + 1) mod length capabilities \<Longrightarrow>
    batch_runs rt str sv capabilities cursor' served passed \<Longrightarrow>
    batch_runs rt str sv capabilities cursor (index # served)
      (set (passed_over rt str sv capabilities (cursor mod length capabilities) [0..<length capabilities] s w) \<union> passed)"

lemma distance_unique:
  fixes n :: nat
  assumes "e < n" "y < n" "(y + e) mod n = j"
  shows "(j + n - y) mod n = e"
proof (cases "y + e < n")
  case False
  then have "j + n - y = e"
    using assms by (simp add: le_mod_geq)
  then show ?thesis
    using assms(1) by simp
qed (use assms in auto)

lemma distance_reached: "j < n \<Longrightarrow> (c mod n + (j + n - c mod n) mod n) mod n = j" for n :: nat
proof -
  assume "j < n"
  then have "c mod n \<le> n"
    by (intro less_imp_le mod_less_divisor) auto
  then have "c mod n + (j + n - c mod n) = j + n"
    by simp
  with \<open>j < n\<close> show ?thesis
    by (simp add: mod_add_right_eq)
qed

lemma successor_unique:
  fixes n :: nat
  assumes "i < n" "k < n" "(i + 1) mod n = (k + 1) mod n"
  shows "i = k"
  using assms by (auto simp: mod_Suc split: if_splits)

lemma cursor_shift: "(((a + k) mod n + 1) mod n + e) mod n = (a + (k + 1 + e)) mod n" for n :: nat
  by (simp add: mod_simps ac_simps)

lemma batch_runs_reach:
  assumes "batch_runs rt str sv caps c served passed" "j < length caps"
    and "(j + length caps - c mod length caps) mod length caps < length served"
  shows "j \<in> set served \<or> j \<in> passed"
  using assms
proof (induction rule: batch_runs.induct)
  case (call c s w err c' s' w' i served passed)
  let ?n = "length caps"
  let ?d = "(j + ?n - c mod ?n) mod ?n"
  have j: "(c mod ?n + ?d) mod ?n = j"
    by (rule distance_reached [OF call.prems(1)])
  have d: "?d < ?n"
    using call.prems(1) by (intro mod_less_divisor) auto
  have "caps \<noteq> []"
    using call.hyps(2) by auto
  then obtain k where k: "k < ?n" "c' = ((c mod ?n + k) mod ?n + 1) mod ?n"
    and passed: "\<And>k'. k' < k \<Longrightarrow> (c mod ?n + k') mod ?n \<in>
      set (passed_over rt str sv caps (c mod ?n) [0..<?n] s w)"
    using call.hyps(1) try_batches_served [of rt str sv caps "c mod ?n" 0 c s w err c' s' w']
    by (auto simp: processOneAvailableBatch_def)
  have i: "i = (c mod ?n + k) mod ?n"
    using successor_unique [OF call.hyps(2) _ trans [OF call.hyps(3) [symmetric] k(2)]] \<open>caps \<noteq> []\<close> by simp
  consider "?d < k" | "?d = k" | "k < ?d"
    by linarith
  then show ?case
  proof cases
    case 1
    then show ?thesis
      using passed [of ?d] j by simp
  next
    case 2
    then show ?thesis
      using i j by simp
  next
    case 3
    then obtain e where e: "?d = k + 1 + e"
      using less_iff_Suc_add [of k ?d] by auto
    have "(c' + e) mod ?n = (c mod ?n + (k + 1 + e)) mod ?n"
      unfolding k(2) by (rule cursor_shift)
    then have "(c' + e) mod ?n = j"
      using j unfolding e by simp
    moreover have "c' < ?n" "e < ?n"
      using k(2) d e \<open>caps \<noteq> []\<close> by auto
    ultimately have "(j + ?n - c') mod ?n = e"
      by (intro distance_unique)
    then have "(j + ?n - c' mod ?n) mod ?n < length served"
      using \<open>c' < ?n\<close> call.prems(2) e by simp
    then show ?thesis
      using call.IH call.prems(1) by auto
  qed
qed simp

text \<open>C36. No batch capability is starved: as many processed batches in a row as there are batch
  capabilities, whichever they are and whatever happens in between, serve every capability that is not
  found paused or without work when its turn comes.\<close>

theorem batch_rotation_fair:
  assumes "batch_runs rt str sv capabilities cursor served passed"
    and "length capabilities \<le> length served" "index < length capabilities"
  shows "index \<in> set served \<or> index \<in> passed"
proof (rule batch_runs_reach [OF assms(1,3)])
  have "(index + length capabilities - cursor mod length capabilities) mod length capabilities < length capabilities"
    using assms(3) by (intro mod_less_divisor) auto
  then show "(index + length capabilities - cursor mod length capabilities) mod length capabilities < length served"
    using assms(2) by simp
qed

text \<open>A worker with one batch capability and two jobs of it, one per batch.\<close>

definition batch_config :: BatchConfig where
  "batch_config = \<lparr>bc_MaxMessages = 1, bc_MaxBytes = 100, bc_MaxWait = 0\<rparr>"

definition batch_service :: "host Service" where
  "batch_service = host_service (\<lambda>_. ''boom'') sample_str default_Options []
     [(mail, batch_config, 1, second, \<lambda>_ items _. Returns (map (\<lambda>x. \<lparr>br_JobID = bi_JobID x, br_Err = None\<rparr>) items, None))]"

lemma sample_batch_call:
  "case processOneAvailableBatch (host_runtime (\<lambda>_. ''boom'')) sample_str batch_service [mail] 0 no_state (sample_host [0, 5]) of
     Some ((processed, err), cursor, s, w) \<Rightarrow> processed \<and> cursor = 0 \<and> summary w = ([], [], {JobID 7})
   | None \<Rightarrow> False"
  by code_simp

theorem batch_rotation_fair_witness:
  "\<exists>passed. batch_runs (host_runtime (\<lambda>_. ''boom'')) sample_str batch_service [mail] 0 [0] passed \<and>
     (0 \<in> set [0::nat] \<or> 0 \<in> passed)"
proof -
  obtain err s w where c: "processOneAvailableBatch (host_runtime (\<lambda>_. ''boom'')) sample_str batch_service [mail] 0 no_state
      (sample_host [0, 5]) = Some ((True, err), 0, s, w)"
    using sample_batch_call by (auto split: option.splits prod.splits)
  have "\<exists>passed. batch_runs (host_runtime (\<lambda>_. ''boom'')) sample_str batch_service [mail] 0 [0] passed"
    by (rule exI, rule batch_runs.call [OF c _ _ batch_runs.no_call]) simp_all
  then obtain passed where b: "batch_runs (host_runtime (\<lambda>_. ''boom'')) sample_str batch_service [mail] 0 [0] passed" ..
  have "0 \<in> set [0::nat] \<or> 0 \<in> passed"
    by (rule batch_rotation_fair [OF b]) simp_all
  with b show ?thesis
    by blast
qed

end
