(* ===== verification/Sqlite_Fleet.thy ===== *)
theory Sqlite_Fleet
  imports Lease_Soundness
begin

text \<open>
  Any number of workers, producers and operators on one SQLite database. A step is a call of the
  repository by any of them, with whatever result, and the state records, beside the database and the
  clock, the leases the workers were told they have. Every step is a step of the abstract protocol of
  \<open>Lease_Store\<close>, which gives mutual exclusion on the code's own calls.
\<close>

section \<open>Calls on a shared database\<close>








section \<open>Claims and new jobs in the abstract store\<close>




section \<open>Runs of the abstract protocol\<close>






section \<open>Every call is a run of the protocol\<close>

















section \<open>Mutual exclusion\<close>








end
