(* ===== verification/Mysql_Jobs.thy ===== *)
theory Mysql_Jobs
  imports Sqlite_Jobs Sqlite_Failed
begin

text \<open>
  The MySQL repositories, src/backends/mysql/repositories/jobsrepo/api.go and jobsfailedrepo/api.go,
  with src/backends/mysql/storage/transaction/manager.go. The tables and their constraints are those of
  \<open>Sqlite_Base\<close>. What is MySQL's own: times are DATETIME(6) columns, whose rounding belongs to server and
  driver and is a parameter; an update counts changed rows unless the driver asks for matched rows; and a
  claim chooses its candidates outside the transaction that takes them, so that other sessions may come
  in between and the claim tries again. The answer to a commit may be lost, as in \<open>Sqlite_Base\<close>.
\<close>

section \<open>The session\<close>

text \<open>How the driver writes and reads a time column, whether \<open>RowsAffected\<close> counts matched rows, and the
  text form of a UUID.\<close>

record mysql_driver =
  md_store :: "time \<Rightarrow> int"
  md_load :: "int \<Rightarrow> time"
  md_found_rows :: bool
  md_String :: "uuid \<Rightarrow> string"

text \<open>The changes other sessions commit before a claim looks for its candidates and between its look and
  its transaction.\<close>

record mysql = sqlite +
  my_others :: "(job_row list \<Rightarrow> job_row list) list"

definition my_gap :: "'a mysql_scheme \<Rightarrow> 'a mysql_scheme" where
  "my_gap w = (case my_others w of
     [] \<Rightarrow> w | f # fs \<Rightarrow> w\<lparr>my_others := fs, db_jobs := f (db_jobs w)\<rparr>)"

text \<open>\<open>tx.Rollback()\<close>: when its answer is lost the server ends the transaction the same way.\<close>

definition my_rollback :: "'a mysql_scheme \<Rightarrow> 'a mysql_scheme \<Rightarrow> error option \<times> 'a mysql_scheme" where
  "my_rollback old w = (case control_stmt w of (err, w) \<Rightarrow> (err, with_tables old w))"

text \<open>\<open>Manager.RunInTx\<close>, for a callback that leaves a result in a variable of its caller.\<close>

definition mysql_RunInTx ::
  "('a mysql_scheme \<Rightarrow> (error + 'b) \<times> 'a mysql_scheme) \<Rightarrow> 'a mysql_scheme \<Rightarrow> (error + 'b) \<times> 'a mysql_scheme" where
  "mysql_RunInTx fn w =
     (if db_in_tx w then fn w
      else case control_stmt w of
             (Some err, w) \<Rightarrow> (Inl (ErrWrap ''begin tx: %w'' [err]), w)
           | (None, w1) \<Rightarrow>
               (case fn (w1\<lparr>db_in_tx := True\<rparr>) of
                  (Inr x, w2) \<Rightarrow>
                    (case commit_tx w1 w2 of
                       (None, w3) \<Rightarrow> (Inr x, w3)
                     | (Some err, w3) \<Rightarrow> (Inl (ErrWrap ''commit: %w'' [err]), w3))
                | (Inl err, w2) \<Rightarrow>
                    (case my_rollback w1 w2 of
                       (None, w3) \<Rightarrow> (Inl err, w3)
                     | (Some rb, w3) \<Rightarrow>
                         (Inl (the (errors_Join [Some err, Some (ErrWrap ''rollback: %w'' [rb])])), w3))))"

section \<open>Statements\<close>

definition my_update_jobs ::
  "mysql_driver \<Rightarrow> (job_row \<Rightarrow> bool) \<Rightarrow> (job_row \<Rightarrow> job_row) \<Rightarrow> 'a mysql_scheme \<Rightarrow> (error + int) \<times> 'a mysql_scheme" where
  "my_update_jobs d p f =
     exec_stmt (\<lambda>w. (Inr (sql_count (\<lambda>r. p r \<and> (md_found_rows d \<or> f r \<noteq> r)) (db_jobs w)),
       w\<lparr>db_jobs := sql_update p f (db_jobs w)\<rparr>))"

text \<open>\<open>available_at <= ? AND (reserved_at IS NULL OR reserved_at <= ?)\<close>, and
  \<open>lease_token = ? AND reserved_at > ?\<close>.\<close>

definition my_claimable :: "mysql_driver \<Rightarrow> time \<Rightarrow> job_row \<Rightarrow> bool" where
  "my_claimable d now r \<longleftrightarrow> r_available_at r \<le> md_store d now \<and>
     (case r_reserved_at r of None \<Rightarrow> True | Some u \<Rightarrow> u \<le> md_store d now)"

definition my_leased :: "mysql_driver \<Rightarrow> LeaseToken \<Rightarrow> time \<Rightarrow> job_row \<Rightarrow> bool" where
  "my_leased d token now r \<longleftrightarrow> r_lease_token r = token \<and>
     (case r_reserved_at r of None \<Rightarrow> False | Some u \<Rightarrow> u > md_store d now)"

definition my_take_lease :: "mysql_driver \<Rightarrow> time \<Rightarrow> LeaseToken \<Rightarrow> job_row \<Rightarrow> job_row" where
  "my_take_lease d until token r =
     r\<lparr>r_attempts := r_attempts r + 1, r_reserved_at := Some (md_store d until), r_lease_token := token\<rparr>"

definition my_new_row ::
  "mysql_driver \<Rightarrow> JobID \<Rightarrow> string \<Rightarrow> SchemaVersion \<Rightarrow> string \<Rightarrow> string option \<Rightarrow> time \<Rightarrow> time \<Rightarrow> job_row" where
  "my_new_row d i nm version payload key availableAt createdAt =
     \<lparr>r_id = i, r_queue = ''queue'', r_name = nm, r_schema_version = version, r_payload = payload,
      r_attempts = 0, r_reserved_at = None, r_lease_token = LeaseTokenNil,
      r_deduplication_key = key, r_available_at = md_store d availableAt,
      r_created_at = md_store d createdAt\<rparr>"

definition mysql_scanJob :: "mysql_driver \<Rightarrow> job_row \<Rightarrow> Job" where
  "mysql_scanJob d r =
     \<lparr>job_ID = r_id r, job_Queue = r_queue r, job_Name = r_name r,
      job_SchemaVersion = r_schema_version r, job_Payload = r_payload r,
      job_Attempts = r_attempts r, job_ReservedAt = map_option (md_load d) (r_reserved_at r),
      job_LeaseToken = r_lease_token r, job_DeduplicationKey = r_deduplication_key r,
      job_AvailableAt = md_load d (r_available_at r), job_CreatedAt = md_load d (r_created_at r)\<rparr>"

section \<open>Creating\<close>

definition mysql_CreateJobVersioned ::
  "mysql_driver \<Rightarrow> 'a mysql_scheme runtime \<Rightarrow> string \<Rightarrow> SchemaVersion \<Rightarrow> string \<Rightarrow> time \<Rightarrow> 'a mysql_scheme \<Rightarrow>
   (error + JobID) \<times> 'a mysql_scheme" where
  "mysql_CreateJobVersioned d rt nm schemaVersion payload availableAt w =
     (case JobCapability_Validate \<lparr>cap_Name = nm, cap_SchemaVersion = schemaVersion\<rparr> of
        Some err \<Rightarrow> (Inl (ErrWrap ''validate capability: %w'' [err]), w)
      | None \<Rightarrow>
          (let (u, w) = uuid_New rt w; (now, w) = time_Now rt w
           in case insert_jobs [my_new_row d (JobID u) nm schemaVersion payload None availableAt now] w of
                (Inl err, w) \<Rightarrow> (Inl err, w)
              | (Inr _, w) \<Rightarrow> (Inr (JobID u), w)))"

section \<open>Claiming\<close>

text \<open>The first occurrences of the requested capabilities, and the candidates: for each of them its
  earliest claimable rows up to the limit, joined by \<open>UNION ALL\<close>, ordered and cut again.\<close>

fun unique_capabilities :: "JobCapability list \<Rightarrow> JobCapability list \<Rightarrow> JobCapability list" where
  "unique_capabilities seen [] = seen"
| "unique_capabilities seen (c # cs) =
     (if c \<in> set seen then unique_capabilities seen cs else unique_capabilities (seen @ [c]) cs)"

definition buildBatchCandidateQuery ::
  "mysql_driver \<Rightarrow> time \<Rightarrow> JobCapability list \<Rightarrow> int \<Rightarrow> job_row list \<Rightarrow> JobID list" where
  "buildBatchCandidateQuery d now capabilities limit js =
     (let queries = map (\<lambda>c. sql_select (\<lambda>r. r_name r = cap_Name c \<and> r_schema_version r = cap_SchemaVersion c \<and>
              my_claimable d now r) (claim_key (md_String d)) (nat limit) js) (unique_capabilities [] capabilities)
      in map r_id (take (nat limit) (sort_key (claim_key (md_String d)) (concat queries))))"

definition findBatchCandidateIDs ::
  "mysql_driver \<Rightarrow> time \<Rightarrow> JobCapability list \<Rightarrow> int \<Rightarrow> 'a mysql_scheme \<Rightarrow> (error + JobID list) \<times> 'a mysql_scheme" where
  "findBatchCandidateIDs d now capabilities limit w =
     (case exec_stmt (\<lambda>w. (Inr (buildBatchCandidateQuery d now capabilities limit (db_jobs w)), w)) w of
        (Inl err, w) \<Rightarrow> (Inl (ErrWrap ''select batch claim candidates: %w'' [err]), w)
      | (Inr jobIDs, w) \<Rightarrow> (Inr jobIDs, w))"

definition findBoundedBatchCandidateIDs ::
  "mysql_driver \<Rightarrow> time \<Rightarrow> JobCapability \<Rightarrow> BatchClaimLimits \<Rightarrow> 'a mysql_scheme \<Rightarrow> (error + JobID list) \<times> 'a mysql_scheme" where
  "findBoundedBatchCandidateIDs d now capability limits w =
     (case exec_stmt (\<lambda>w. (Inr (map (\<lambda>r. (r_id r, int (length (r_payload r))))
              (sql_select (\<lambda>r. r_name r = cap_Name capability \<and> r_schema_version r = cap_SchemaVersion capability \<and>
                 my_claimable d now r) (claim_key (md_String d)) (nat (bl_MaxMessages limits)) (db_jobs w))), w)) w of
        (Inl err, w) \<Rightarrow> (Inl (ErrWrap ''select bounded batch claim candidates: %w'' [err]), w)
      | (Inr rows, w) \<Rightarrow> (Inr (bounded_claim_loop (bl_MaxBytes limits) [] 0 False rows), w))"

text \<open>The transaction that takes the candidates that are still free. Its result is the claimed jobs, or
  None when other sessions were faster. The update locks the rows it takes, so the rows the
  transaction then reads are the ones it wrote.\<close>

definition reserveBatchCandidates ::
  "mysql_driver \<Rightarrow> time \<Rightarrow> time \<Rightarrow> LeaseToken \<Rightarrow> JobID list \<Rightarrow> 'a mysql_scheme \<Rightarrow>
   (error + Job list option) \<times> 'a mysql_scheme" where
  "reserveBatchCandidates d now until leaseToken jobIDs w =
     (case control_stmt w of
        (Some err, w) \<Rightarrow> (Inl (ErrWrap ''begin batch claim tx: %w'' [err]), w)
      | (None, w1) \<Rightarrow>
     (case my_update_jobs d (\<lambda>r. r_id r \<in> set jobIDs \<and> my_claimable d now r) (my_take_lease d until leaseToken)
             (w1\<lparr>db_in_tx := True\<rparr>) of
        (Inl err, w) \<Rightarrow> (Inl (ErrWrap ''reserve batch claim candidates: %w'' [err]), snd (my_rollback w1 w))
      | (Inr updated, w) \<Rightarrow>
          if updated = 0 then (Inr None, snd (my_rollback w1 w))
          else if updated > int (length jobIDs)
          then (Inl (ErrNew ''batch claim invariant: updated %d jobs from %d candidates''), snd (my_rollback w1 w))
          else
     (case exec_stmt (\<lambda>w. (Inr (sort_key (claim_key (md_String d))
              (filter (\<lambda>r. r_id r \<in> set jobIDs \<and> r_lease_token r = leaseToken) (db_jobs w))), w)) w of
        (Inl err, w) \<Rightarrow> (Inl (ErrWrap ''load reserved batch claim candidates: %w'' [err]), snd (my_rollback w1 w))
      | (Inr rows, w) \<Rightarrow>
          if int (length rows) \<noteq> updated
          then (Inl (ErrNew ''batch claim invariant: loaded %d of %d updated jobs''), snd (my_rollback w1 w))
          else
            (case commit_tx w1 w of
               (Some err, w) \<Rightarrow> (Inl (ErrWrap ''commit batch claim tx: %w'' [err]), w)
             | (None, w) \<Rightarrow> (Inr (Some (map (mysql_scanJob d) rows)), w)))))"

text \<open>One round of the claim loops, with \<open>candidates\<close> as their query and \<open>err\<close> as \<open>ctx.Err()\<close>: a
  result, or None when the loop goes on.\<close>

definition claim_round ::
  "mysql_driver \<Rightarrow> ('a mysql_scheme \<Rightarrow> error option \<times> 'a mysql_scheme) \<Rightarrow>
   ('a mysql_scheme \<Rightarrow> (error + JobID list) \<times> 'a mysql_scheme) \<Rightarrow> time \<Rightarrow> time \<Rightarrow> LeaseToken \<Rightarrow> 'a mysql_scheme \<Rightarrow>
   (error + Job list) option \<times> 'a mysql_scheme" where
  "claim_round d ctx_Err candidates now until leaseToken w =
     (case ctx_Err w of
        (Some err, w) \<Rightarrow> (Some (Inl err), w)
      | (None, w) \<Rightarrow>
     (case candidates (my_gap w) of
        (Inl err, w) \<Rightarrow> (Some (Inl err), w)
      | (Inr jobIDs, w) \<Rightarrow>
          if jobIDs = [] then (Some (Inl (Sentinel ErrNoJobs)), w)
          else
            (case reserveBatchCandidates d now until leaseToken jobIDs (my_gap w) of
               (Inl err, w) \<Rightarrow> (Some (Inl err), w)
             | (Inr (Some jobs), w) \<Rightarrow> (Some (Inr jobs), w)
             | (Inr None, w) \<Rightarrow> (None, w))))"

partial_function (option) claim_loop ::
  "mysql_driver \<Rightarrow> ('a mysql_scheme \<Rightarrow> error option \<times> 'a mysql_scheme) \<Rightarrow>
   ('a mysql_scheme \<Rightarrow> (error + JobID list) \<times> 'a mysql_scheme) \<Rightarrow> time \<Rightarrow> time \<Rightarrow> LeaseToken \<Rightarrow> 'a mysql_scheme \<Rightarrow>
   ((error + Job list) \<times> 'a mysql_scheme) option" where
  "claim_loop d ctx_Err candidates now until leaseToken w =
     (case claim_round d ctx_Err candidates now until leaseToken w of
        (Some res, w) \<Rightarrow> Some (res, w)
      | (None, w) \<Rightarrow> claim_loop d ctx_Err candidates now until leaseToken w)"

declare claim_loop.simps [code]

definition mysql_FindAndReserveJobsForCapabilities ::
  "mysql_driver \<Rightarrow> ('a mysql_scheme \<Rightarrow> error option \<times> 'a mysql_scheme) \<Rightarrow> time \<Rightarrow> time \<Rightarrow> LeaseToken \<Rightarrow>
   JobCapability list \<Rightarrow> int \<Rightarrow> 'a mysql_scheme \<Rightarrow> ((error + Job list) \<times> 'a mysql_scheme) option" where
  "mysql_FindAndReserveJobsForCapabilities d ctx_Err now until leaseToken capabilities limit w =
     (if capabilities = [] then Some (Inl (Sentinel ErrNoJobs), w)
      else case first_some JobCapability_Validate capabilities of
             Some err \<Rightarrow> Some (Inl (ErrWrap ''invalid capability: %w'' [err]), w)
           | None \<Rightarrow>
               (case validateBatchClaim leaseToken limit of
                  Some err \<Rightarrow> Some (Inl err, w)
                | None \<Rightarrow> claim_loop d ctx_Err (findBatchCandidateIDs d now capabilities limit) now until leaseToken w))"

definition mysql_FindAndReserveJobsForCapability ::
  "mysql_driver \<Rightarrow> ('a mysql_scheme \<Rightarrow> error option \<times> 'a mysql_scheme) \<Rightarrow> time \<Rightarrow> time \<Rightarrow> LeaseToken \<Rightarrow>
   JobCapability \<Rightarrow> int \<Rightarrow> 'a mysql_scheme \<Rightarrow> ((error + Job list) \<times> 'a mysql_scheme) option" where
  "mysql_FindAndReserveJobsForCapability d ctx_Err now until leaseToken capability limit w =
     mysql_FindAndReserveJobsForCapabilities d ctx_Err now until leaseToken [capability] limit w"

definition mysql_FindAndReserveJobsForCapabilityBounded ::
  "mysql_driver \<Rightarrow> ('a mysql_scheme \<Rightarrow> error option \<times> 'a mysql_scheme) \<Rightarrow> time \<Rightarrow> time \<Rightarrow> LeaseToken \<Rightarrow>
   JobCapability \<Rightarrow> BatchClaimLimits \<Rightarrow> 'a mysql_scheme \<Rightarrow> ((error + Job list) \<times> 'a mysql_scheme) option" where
  "mysql_FindAndReserveJobsForCapabilityBounded d ctx_Err now until leaseToken capability limits w =
     (case validateBatchClaim leaseToken (bl_MaxMessages limits) of
        Some err \<Rightarrow> Some (Inl err, w)
      | None \<Rightarrow>
          if bl_MaxBytes limits < 1 then Some (Inl (ErrNew ''max bytes must be positive: %d''), w)
          else case JobCapability_Validate capability of
                 Some err \<Rightarrow> Some (Inl (ErrWrap ''invalid capability: %w'' [err]), w)
               | None \<Rightarrow> claim_loop d ctx_Err (findBoundedBatchCandidateIDs d now capability limits) now until leaseToken w)"

section \<open>Leases\<close>

definition mysql_ExtendJobLeases ::
  "mysql_driver \<Rightarrow> JobID list \<Rightarrow> LeaseToken \<Rightarrow> time \<Rightarrow> time \<Rightarrow> 'a mysql_scheme \<Rightarrow> (error + int) \<times> 'a mysql_scheme" where
  "mysql_ExtendJobLeases d jobIDs leaseToken now until w =
     (case validateBatchLease jobIDs leaseToken of
        Some err \<Rightarrow> (Inl err, w)
      | None \<Rightarrow> my_update_jobs d (\<lambda>r. r_id r \<in> set jobIDs \<and> my_leased d leaseToken now r)
                  (\<lambda>r. r\<lparr>r_reserved_at := Some (md_store d until)\<rparr>) w)"

definition mysql_ReleaseUnstartedJobsWithLease ::
  "mysql_driver \<Rightarrow> JobID list \<Rightarrow> LeaseToken \<Rightarrow> time \<Rightarrow> 'a mysql_scheme \<Rightarrow> (error + int) \<times> 'a mysql_scheme" where
  "mysql_ReleaseUnstartedJobsWithLease d jobIDs leaseToken now w =
     (case validateBatchLease jobIDs leaseToken of
        Some err \<Rightarrow> (Inl err, w)
      | None \<Rightarrow> my_update_jobs d (\<lambda>r. r_id r \<in> set jobIDs \<and> my_leased d leaseToken now r \<and> r_attempts r > 0)
                  (\<lambda>r. r\<lparr>r_attempts := r_attempts r - 1, r_reserved_at := None, r_lease_token := LeaseTokenNil\<rparr>) w)"

definition mysql_DeleteJobWithLease ::
  "mysql_driver \<Rightarrow> JobID \<Rightarrow> LeaseToken \<Rightarrow> time \<Rightarrow> 'a mysql_scheme \<Rightarrow> (error + int) \<times> 'a mysql_scheme" where
  "mysql_DeleteJobWithLease d jobID leaseToken now w =
     (if JobID_IsZero jobID then (Inl (ErrNew ''invalid job id''), w)
      else case LeaseToken_Validate leaseToken of
             Some err \<Rightarrow> (Inl (ErrWrap ''invalid lease token: %w'' [err]), w)
           | None \<Rightarrow> delete_jobs (\<lambda>r. r_id r = jobID \<and> my_leased d leaseToken now r) w)"

definition mysql_RescheduleJobWithLease ::
  "mysql_driver \<Rightarrow> JobID \<Rightarrow> LeaseToken \<Rightarrow> time \<Rightarrow> time \<Rightarrow> 'a mysql_scheme \<Rightarrow> (error + int) \<times> 'a mysql_scheme" where
  "mysql_RescheduleJobWithLease d jobID leaseToken now availableAt w =
     (if JobID_IsZero jobID then (Inl (ErrNew ''invalid job id''), w)
      else case LeaseToken_Validate leaseToken of
             Some err \<Rightarrow> (Inl (ErrWrap ''invalid lease token: %w'' [err]), w)
           | None \<Rightarrow> my_update_jobs d (\<lambda>r. r_id r = jobID \<and> my_leased d leaseToken now r)
                       (\<lambda>r. r\<lparr>r_available_at := md_store d availableAt, r_reserved_at := None,
                              r_lease_token := LeaseTokenNil\<rparr>) w)"

section \<open>Batch outcomes\<close>

text \<open>The joins with the \<open>input\<close> rows of \<open>mysqlBatchOutcomeInput\<close>; validation makes their identifiers
  unique.\<close>

definition mysql_deleteBatchTerminalOutcomes ::
  "mysql_driver \<Rightarrow> LeaseToken \<Rightarrow> time \<Rightarrow> BatchJobOutcome list \<Rightarrow> 'a mysql_scheme \<Rightarrow> (error + int) \<times> 'a mysql_scheme" where
  "mysql_deleteBatchTerminalOutcomes d leaseToken now outcomes =
     delete_jobs (\<lambda>r. r_id r \<in> outcome_ids is_terminal outcomes \<and> my_leased d leaseToken now r)"

definition my_apply_delay :: "mysql_driver \<Rightarrow> BatchJobOutcome list \<Rightarrow> job_row \<Rightarrow> job_row" where
  "my_apply_delay d outcomes r =
     (case outcome_of outcomes (r_id r) of
        None \<Rightarrow> r
      | Some x \<Rightarrow> r\<lparr>r_attempts := (if bo_Kind x = BatchJobOutcomeDefer then r_attempts r - 1 else r_attempts r),
                   r_available_at := md_store d (bo_AvailableAt x), r_reserved_at := None,
                   r_lease_token := LeaseTokenNil\<rparr>)"

definition mysql_updateBatchRetryOutcomes ::
  "mysql_driver \<Rightarrow> LeaseToken \<Rightarrow> time \<Rightarrow> BatchJobOutcome list \<Rightarrow> 'a mysql_scheme \<Rightarrow> (error + int) \<times> 'a mysql_scheme" where
  "mysql_updateBatchRetryOutcomes d leaseToken now outcomes =
     my_update_jobs d (\<lambda>r. r_id r \<in> outcome_ids is_delayed outcomes \<and> my_leased d leaseToken now r \<and> r_attempts r > 0)
       (my_apply_delay d outcomes)"

definition mysql_apply_outcomes_tx ::
  "mysql_driver \<Rightarrow> LeaseToken \<Rightarrow> time \<Rightarrow> BatchJobOutcome list \<Rightarrow> 'a mysql_scheme \<Rightarrow> (error + int) \<times> 'a mysql_scheme" where
  "mysql_apply_outcomes_tx d leaseToken now outcomes w =
     (case mysql_deleteBatchTerminalOutcomes d leaseToken now outcomes w of
        (Inl err, w) \<Rightarrow> (Inl err, w)
      | (Inr deleted, w) \<Rightarrow>
      (case mysql_updateBatchRetryOutcomes d leaseToken now outcomes w of
         (Inl err, w) \<Rightarrow> (Inl err, w)
       | (Inr updated, w) \<Rightarrow>
           if deleted + updated \<noteq> int (length outcomes)
           then (Inl (ErrWrap ''%w: finalized %d of %d batch jobs'' [Sentinel ErrLeaseLost]), w)
           else (Inr (deleted + updated), w)))"

definition mysql_ApplyBatchJobOutcomes ::
  "mysql_driver \<Rightarrow> LeaseToken \<Rightarrow> time \<Rightarrow> BatchJobOutcome list \<Rightarrow> 'a mysql_scheme \<Rightarrow> (error + int) \<times> 'a mysql_scheme" where
  "mysql_ApplyBatchJobOutcomes d leaseToken now outcomes w =
     (case validateBatchOutcomes leaseToken outcomes of
        Some err \<Rightarrow> (Inl err, w)
      | None \<Rightarrow>
          (case mysql_RunInTx (mysql_apply_outcomes_tx d leaseToken now outcomes) w of
             (Inl err, w) \<Rightarrow> (Inl (ErrWrap ''apply batch job outcomes: %w'' [err]), w)
           | (Inr affected, w) \<Rightarrow> (Inr affected, w)))"

definition mysql_DeferJobWithLease ::
  "mysql_driver \<Rightarrow> JobID \<Rightarrow> LeaseToken \<Rightarrow> time \<Rightarrow> time \<Rightarrow> 'a mysql_scheme \<Rightarrow> (error + int) \<times> 'a mysql_scheme" where
  "mysql_DeferJobWithLease d jobID leaseToken now availableAt w =
     mysql_ApplyBatchJobOutcomes d leaseToken now
       [\<lparr>bo_JobID = jobID, bo_Kind = BatchJobOutcomeDefer, bo_AvailableAt = availableAt, bo_Reason = []\<rparr>] w"

end
