(* ===== verification/Mysql_Claims.thy ===== *)
theory Mysql_Claims
  imports Mysql_Jobs Sqlite_Leases
begin

text \<open>
  What a MySQL claim guarantees although it chooses its candidates before it takes them: the query by
  capability is the plain query, every claimed job was free when it was taken, and the claim returns
  as soon as the other sessions stop taking its candidates away.
\<close>

section \<open>The candidate query\<close>

text \<open>Cutting a sorted superset of the wanted prefix gives the prefix.\<close>

lemma sort_key_filter_eq:
  fixes k :: "'r \<Rightarrow> 'k::linorder"
  assumes "distinct (map k L)" "set U \<subseteq> set L" "distinct U"
  shows "sort_key k U = filter (\<lambda>x. x \<in> set U) (sort_key k L)"
proof -
  have inj: "inj_on k (set L)"
    using assms(1) by (simp add: distinct_map)
  have "map k (sort_key k U) = map k (filter (\<lambda>x. x \<in> set U) (sort_key k L))"
  proof (rule sorted_distinct_set_unique)
    show "distinct (map k (sort_key k U))"
      using assms inj by (simp add: distinct_map inj_on_subset)
    show "sorted (map k (filter (\<lambda>x. x \<in> set U) (sort_key k L)))"
      by (simp add: filter_sort)
    show "distinct (map k (filter (\<lambda>x. x \<in> set U) (sort_key k L)))"
      using assms(1) by (intro distinct_map_filter) (simp add: distinct_map)
    show "set (map k (sort_key k U)) = set (map k (filter (\<lambda>x. x \<in> set U) (sort_key k L)))"
      using assms(2) by auto
  qed simp
  then show ?thesis
    using assms(2) by (intro map_inj_on [OF _ inj_on_subset [OF inj]]) auto
qed

lemma take_sorted_superset:
  fixes k :: "'r \<Rightarrow> 'k::linorder"
  assumes "distinct (map k L)" "set U \<subseteq> set L" "distinct U" "set (take n (sort_key k L)) \<subseteq> set U"
  shows "take n (sort_key k U) = take n (sort_key k L)"
proof -
  let ?S = "sort_key k L"
  have "sort_key k U = filter (\<lambda>x. x \<in> set U) (take n ?S) @ filter (\<lambda>x. x \<in> set U) (drop n ?S)"
    using sort_key_filter_eq [OF assms(1-3)] by (metis append_take_drop_id filter_append)
  then have eq: "sort_key k U = take n ?S @ filter (\<lambda>x. x \<in> set U) (drop n ?S)"
    using assms(4) by (simp add: filter_id_conv subset_iff)
  show ?thesis
  proof (cases "length ?S \<le> n")
    case True
    then show ?thesis
      unfolding eq by simp
  next
    case False
    then have "length (take n ?S) = n"
      by simp
    then show ?thesis
      unfolding eq by (metis append_eq_conv_conj)
  qed
qed

lemma unique_capabilities_facts:
  "distinct seen \<Longrightarrow> distinct (unique_capabilities seen cs) \<and> set (unique_capabilities seen cs) = set seen \<union> set cs"
  by (induction seen cs rule: unique_capabilities.induct) auto

lemma capability_rows_disjoint:
  fixes cs :: "JobCapability list"
  assumes "distinct cs" "\<And>c. distinct (g c)" "\<And>c r. r \<in> set (g c) \<Longrightarrow> r_name r = cap_Name c \<and> r_schema_version r = cap_SchemaVersion c"
  shows "distinct (concat (map g cs))"
  using assms(1)
proof (induction cs)
  case (Cons c cs)
  have "set (g c) \<inter> set (g c') = {}" if "c' \<in> set cs" for c'
  proof (rule ccontr)
    assume "set (g c) \<inter> set (g c') \<noteq> {}"
    then obtain r where "r \<in> set (g c)" "r \<in> set (g c')"
      by blast
    then have "c = c'"
      using assms(3) [of r c] assms(3) [of r c'] by (intro JobCapability.equality) simp_all
    then show False
      using that Cons.prems by simp
  qed
  then show ?case
    using Cons assms(2) by auto
qed simp

lemma take_filter_member: "r \<in> set (take n xs) \<Longrightarrow> P r \<Longrightarrow> r \<in> set (take n (filter P xs))"
proof (induction xs arbitrary: n)
  case (Cons x xs)
  show ?case
  proof (cases n)
    case (Suc m)
    have "set (take m (filter P xs)) \<subseteq> set (take n (filter P xs))"
      using Suc by (simp add: set_take_subset_set_take)
    then show ?thesis
      using Cons Suc by auto
  qed (use Cons.prems in simp)
qed simp

text \<open>The rows a claim asks for, in one query.\<close>

definition my_claim_rows ::
  "mysql_driver \<Rightarrow> time \<Rightarrow> JobCapability list \<Rightarrow> int \<Rightarrow> job_row list \<Rightarrow> job_row list" where
  "my_claim_rows d now capabilities limit js =
     sql_select (\<lambda>r. my_claimable d now r \<and> has_capability capabilities r) (claim_key (md_String d)) (nat limit) js"

lemma candidate_query_eq:
  assumes "distinct (map (claim_key (md_String d)) js)"
  shows "buildBatchCandidateQuery d now caps limit js = map r_id (my_claim_rows d now caps limit js)"
proof -
  let ?k = "claim_key (md_String d)" and ?n = "nat limit" and ?cs = "unique_capabilities [] caps"
  let ?of = "\<lambda>c r. r_name r = cap_Name c \<and> r_schema_version r = cap_SchemaVersion c \<and> my_claimable d now r"
  let ?L = "filter (\<lambda>r. my_claimable d now r \<and> has_capability caps r) js"
  let ?U = "concat (map (\<lambda>c. sql_select (?of c) ?k ?n js) ?cs)"
  have cs: "distinct ?cs" "set ?cs = set caps"
    using unique_capabilities_facts [of "[]" caps] by simp_all
  have js: "distinct js"
    using assms by (simp add: distinct_map)
  have L: "distinct (map ?k ?L)"
    using assms by (rule distinct_map_filter)
  have cap: "?of c r \<Longrightarrow> c \<in> set caps \<Longrightarrow> has_capability caps r" for c r
    by (auto simp: has_capability_def list_ex_iff)
  have U: "set ?U \<subseteq> set ?L"
    using cs(2) cap by (auto dest!: sql_select_sat)
  have dU: "distinct ?U"
  proof (rule capability_rows_disjoint [OF cs(1)])
    show "distinct (sql_select (?of c) ?k ?n js)" for c
      using distinct_sql_select [of "\<lambda>r. r" js "?of c" ?k ?n] js by simp
  qed (auto dest!: sql_select_sat)
  have "set (take ?n (sort_key ?k ?L)) \<subseteq> set ?U"
  proof
    fix r
    assume r: "r \<in> set (take ?n (sort_key ?k ?L))"
    then have "r \<in> set ?L"
      by (metis in_set_takeD set_sort)
    then obtain c where c: "c \<in> set caps" "?of c r" and rj: "r \<in> set js"
      by (auto simp: has_capability_def list_ex_iff)
    have "filter (?of c) ?L = filter (?of c) js"
      using cap [OF _ c(1)] by (auto simp: filter_filter intro!: filter_cong)
    then have "r \<in> set (sql_select (?of c) ?k ?n js)"
      using take_filter_member [OF r, of "?of c"] c(2) by (simp add: sql_select_def filter_sort)
    then show "r \<in> set ?U"
      using c(1) cs(2) by auto
  qed
  then have "take ?n (sort_key ?k ?U) = take ?n (sort_key ?k ?L)"
    by (rule take_sorted_superset [OF L U dU])
  then show ?thesis
    by (simp add: buildBatchCandidateQuery_def my_claim_rows_def sql_select_def)
qed

section \<open>Taking the candidates\<close>

lemma my_take_lease_simps [simp]:
  "r_id (my_take_lease d until token r) = r_id r"
  "r_lease_token (my_take_lease d until token r) = token"
  "claim_key str (my_take_lease d until token r) = claim_key str r"
  "my_take_lease d until token r \<noteq> r"
proof -
  show "my_take_lease d until token r \<noteq> r"
    by (rule notI, drule arg_cong [where f = r_attempts]) (simp add: my_take_lease_def)
qed (simp_all add: my_take_lease_def claim_key_def)

lemma my_update_jobs_cases:
  assumes "my_update_jobs d p f w = (r, w')"
  obtains (failed) e F where "r = Inl e" "w' = w\<lparr>db_faults := F\<rparr>"
    | (ran) F where "r = Inr (sql_count (\<lambda>r. p r \<and> (md_found_rows d \<or> f r \<noteq> r)) (db_jobs w))"
        "w' = w\<lparr>db_faults := F, db_jobs := sql_update p f (db_jobs w)\<rparr>"
  using assms unfolding my_update_jobs_def by (cases rule: exec_stmt_cases) (auto intro: that)

lemma my_rollback_frame:
  "my_rollback old w = (r, w') \<Longrightarrow> tables w' = tables old \<and> my_others w' = my_others w \<and> \<not> db_in_tx w'"
  by (auto simp: my_rollback_def with_tables_def tables_def split: prod.splits elim!: control_stmt_cases)

lemma commit_tx_frame:
  "commit_tx old w = (r, w') \<Longrightarrow> my_others w' = my_others w \<and> \<not> db_in_tx w' \<and>
   (tables w' = tables w \<or> r \<noteq> None \<and> tables w' = tables old)"
  by (erule commit_tx_cases) (auto simp: with_tables_def tables_def)

text \<open>What the transaction of a claim does: nothing, or it takes the rows it asks for that are free.\<close>

lemma reserve_cases:
  assumes "reserveBatchCandidates d now until token ids w = (res, w')"
  defines "p \<equiv> \<lambda>r. r_id r \<in> set ids \<and> my_claimable d now r"
  defines "taken \<equiv> sql_update p (my_take_lease d until token) (db_jobs w)"
  shows "my_others w' = my_others w \<and> db_keys w' = db_keys w \<and> db_failed w' = db_failed w \<and>
    (case res of
       Inl e \<Rightarrow> db_jobs w' = db_jobs w \<or> db_jobs w' = taken
     | Inr None \<Rightarrow> db_jobs w' = db_jobs w \<and> sql_count p (db_jobs w) = 0
     | Inr (Some jobs) \<Rightarrow> db_jobs w' = taken \<and> 0 < sql_count p (db_jobs w) \<and>
         (\<exists>rows. jobs = map (mysql_scanJob d) rows \<and> int (length rows) = sql_count p (db_jobs w) \<and>
           rows = sort_key (claim_key (md_String d)) (filter (\<lambda>r. r_id r \<in> set ids \<and> r_lease_token r = token) taken)))"
proof -
  obtain e1 w1 where start: "control_stmt w = (e1, w1)"
    by fastforce
  obtain F where w1: "w1 = w\<lparr>db_faults := F\<rparr>"
    using start by (rule control_stmt_cases)
  obtain u w2 where update: "my_update_jobs d p (my_take_lease d until token) (w1\<lparr>db_in_tx := True\<rparr>) = (u, w2)"
    by fastforce
  have rb: "my_others (snd (my_rollback w1 v)) = my_others v \<and> tables (snd (my_rollback w1 v)) = tables w" for v
    using my_rollback_frame [of w1 v] by (cases "my_rollback w1 v") (simp add: w1 tables_def)
  have w1_tables: "tables w1 = tables w"
    by (simp add: w1 tables_def)
  note run = assms(1) [unfolded reserveBatchCandidates_def, folded p_def]
  show ?thesis
  proof (cases e1)
    case (Some e)
    then show ?thesis
      using run by (auto simp: start w1)
  next
    case None
    from update show ?thesis
    proof (cases rule: my_update_jobs_cases)
      case (failed e G)
      then have "my_others w2 = my_others w"
        by (simp add: w1)
      then show ?thesis
        using run rb [of w2] None failed(1) by (auto simp: start update tables_def)
    next
      case (ran G)
      have u: "u = Inr (sql_count p (db_jobs w))" and w2: "db_jobs w2 = taken" "my_others w2 = my_others w"
        "db_keys w2 = db_keys w" "db_failed w2 = db_failed w"
        using ran by (simp_all add: w1 taken_def)
      obtain s w3 where select: "exec_stmt (\<lambda>w. (Inr (sort_key (claim_key (md_String d))
          (filter (\<lambda>r. r_id r \<in> set ids \<and> r_lease_token r = token) (db_jobs w))), w)) w2 = (s, w3)"
        by fastforce
      show ?thesis
      proof (cases "sql_count p (db_jobs w) = 0 \<or> sql_count p (db_jobs w) > int (length ids)")
        case True
        then show ?thesis
          using run rb [of w2] None w2 by (auto simp: start update u tables_def split: if_splits)
      next
        case False
        from select have w3: "db_jobs w3 = taken \<and> my_others w3 = my_others w \<and> db_keys w3 = db_keys w \<and> db_failed w3 = db_failed w"
          by (cases rule: exec_stmt_cases) (auto simp: w2)
        from select have rows: "s = Inr rows \<Longrightarrow> rows = sort_key (claim_key (md_String d))
            (filter (\<lambda>r. r_id r \<in> set ids \<and> r_lease_token r = token) taken)" for rows
          by (cases rule: exec_stmt_cases) (auto simp: w2)
        obtain c w4 where commit: "commit_tx w1 w3 = (c, w4)"
          by fastforce
        show ?thesis
          using run None False rb [of w3] w3 rows commit_tx_frame [OF commit] sql_count_nonneg [of p "db_jobs w"]
            w1_tables
          by (cases s; cases c) (auto simp: start update u select commit tables_def split: if_splits)
      qed
    qed
  qed
qed

section \<open>The claimed rows\<close>

lemma sql_count_updated:
  "(\<And>r. p r \<Longrightarrow> q (f r)) \<Longrightarrow> sql_count p js \<le> int (length (filter q (sql_update p f js)))"
  by (induction js) auto

lemma loaded_rows:
  assumes "\<And>r. p r \<Longrightarrow> q (f r)" "int (length (filter q (sql_update p f js))) = sql_count p js"
  shows "filter q (sql_update p f js) = map f (filter p js)"
  using assms(2)
proof (induction js)
  case (Cons r js)
  then show ?case
    using assms(1) sql_count_updated [of p q f js, OF assms(1)] by (auto split: if_splits)
qed simp

lemma update_by_id:
  assumes "distinct (map r_id js)"
  shows "sql_update p f js = sql_update (\<lambda>r. r_id r \<in> r_id ` set (filter p js)) f js"
  unfolding sql_update_def
  by (rule map_cong) (auto dest: distinct_map_same [OF assms])

text \<open>Jobs claimed from the rows \<open>js\<close>: wanted free rows in claim order, at most \<open>n\<close>, now under the token until
  the deadline; no other row changed.\<close>

definition claimed_from ::
  "mysql_driver \<Rightarrow> time \<Rightarrow> time \<Rightarrow> LeaseToken \<Rightarrow> (job_row \<Rightarrow> bool) \<Rightarrow> nat \<Rightarrow> job_row list \<Rightarrow> Job list \<Rightarrow> job_row list \<Rightarrow> bool" where
  "claimed_from d now until token wanted n js jobs js' \<longleftrightarrow>
     (\<exists>rows. rows \<noteq> [] \<and> length rows \<le> n \<and> distinct (map r_id rows) \<and> set rows \<subseteq> set js \<and>
       sorted (map (claim_key (md_String d)) rows) \<and>
       (\<forall>r \<in> set rows. my_claimable d now r \<and> wanted r) \<and>
       jobs = map (\<lambda>r. mysql_scanJob d (my_take_lease d until token r)) rows \<and>
       js' = sql_update (\<lambda>r. r_id r \<in> r_id ` set rows) (my_take_lease d until token) js)"

lemma claimed_from_mono:
  assumes "claimed_from d now until token p n js jobs js'"
    and "\<And>r. r \<in> set js \<Longrightarrow> p r \<Longrightarrow> q r" "n \<le> m"
  shows "claimed_from d now until token q m js jobs js'"
  using assms(1) unfolding claimed_from_def
  by (elim exE, intro exI) (use assms(2,3) in auto)

lemma reserve_claims:
  assumes "reserveBatchCandidates d now until token ids w = (Inr (Some jobs), w')" "distinct (map r_id (db_jobs w))"
  shows "claimed_from d now until token (\<lambda>r. r_id r \<in> set ids) (length ids) (db_jobs w) jobs (db_jobs w')"
proof -
  let ?p = "\<lambda>r. r_id r \<in> set ids \<and> my_claimable d now r" and ?k = "claim_key (md_String d)"
  let ?f = "my_take_lease d until token"
  obtain rows where jobs: "jobs = map (mysql_scanJob d) rows" "int (length rows) = sql_count ?p (db_jobs w)"
    "rows = sort_key ?k (filter (\<lambda>r. r_id r \<in> set ids \<and> r_lease_token r = token) (sql_update ?p ?f (db_jobs w)))"
    and w': "db_jobs w' = sql_update ?p ?f (db_jobs w)" "0 < sql_count ?p (db_jobs w)"
    using reserve_cases [OF assms(1)] by auto
  have "filter (\<lambda>r. r_id r \<in> set ids \<and> r_lease_token r = token) (sql_update ?p ?f (db_jobs w)) =
      map ?f (filter ?p (db_jobs w))"
    using jobs(2,3) by (intro loaded_rows) simp_all
  then have rows: "rows = map ?f (sort_key ?k (filter ?p (db_jobs w)))"
    by (simp add: jobs(3) sort_key_map)
  have ids: "distinct (map r_id (filter ?p (db_jobs w)))"
    using assms(2) by (rule distinct_map_filter)
  show ?thesis
    unfolding claimed_from_def
  proof (intro exI [of _ "sort_key ?k (filter ?p (db_jobs w))"] conjI)
    have "set (filter ?p (db_jobs w)) \<noteq> {}"
      using w'(2) sql_count_0_iff [of ?p "db_jobs w"] by (auto simp: filter_empty_conv)
    then show "sort_key ?k (filter ?p (db_jobs w)) \<noteq> []"
      by (metis set_empty set_sort)
    have "card (set (map r_id (filter ?p (db_jobs w)))) \<le> card (set ids)"
      by (rule card_mono) auto
    then have "length (filter ?p (db_jobs w)) \<le> card (set ids)"
      using distinct_card [OF ids] by simp
    then show "length (sort_key ?k (filter ?p (db_jobs w))) \<le> length ids"
      using card_length [of ids] by (simp del: length_filter_le)
    show "distinct (map r_id (sort_key ?k (filter ?p (db_jobs w))))"
      using ids by (simp add: distinct_map)
    show "db_jobs w' = sql_update (\<lambda>r. r_id r \<in> r_id ` set (sort_key ?k (filter ?p (db_jobs w)))) ?f (db_jobs w)"
      using update_by_id [OF assms(2), of ?p ?f] by (simp add: w'(1))
  qed (auto simp: jobs(1) rows)
qed

section \<open>The loop\<close>

text \<open>The jobs table after the first \<open>k\<close> commits of other sessions.\<close>

definition others_after :: "nat \<Rightarrow> 'a mysql_scheme \<Rightarrow> job_row list" where
  "others_after k w = fold (\<lambda>f js. f js) (take k (my_others w)) (db_jobs w)"

text \<open>What the other sessions do to the table: identifiers stay unique and the message of a job is
  never rewritten.\<close>

fun others_keep :: "(job_row list \<Rightarrow> job_row list) list \<Rightarrow> job_row list \<Rightarrow> bool" where
  "others_keep [] js \<longleftrightarrow> distinct (map r_id js)"
| "others_keep (f # fs) js \<longleftrightarrow> distinct (map r_id js) \<and>
     (\<forall>r \<in> set js. \<forall>s \<in> set (f js). r_id s = r_id r \<longrightarrow> same_content r s) \<and> others_keep fs (f js)"

lemma others_keep_distinct: "others_keep fs js \<Longrightarrow> distinct (map r_id js)"
  by (cases fs) simp_all

text \<open>The part of the world that a claim and the other sessions share.\<close>

definition sees :: "'a mysql_scheme \<Rightarrow> job_row list \<times> (job_row list \<Rightarrow> job_row list) list" where
  "sees w = (db_jobs w, my_others w)"

lemma sees_my_gap: "sees v = sees w \<Longrightarrow> sees (my_gap v) = sees (my_gap w)"
  by (auto simp: sees_def my_gap_def split: list.splits)

lemma my_gap_shorter: "length (my_others (my_gap w)) = length (my_others w) - 1"
  by (cases "my_others w") (simp_all add: my_gap_def)

lemma others_after_gap: "others_after k (my_gap w) = others_after (Suc k) w"
  by (cases "my_others w") (simp_all add: others_after_def my_gap_def)

lemma others_after_sees: "sees v = sees w \<Longrightarrow> others_after k v = others_after k w"
  by (simp add: others_after_def sees_def)

lemma others_keep_gap:
  "others_keep (my_others w) (db_jobs w) \<Longrightarrow> others_keep (my_others (my_gap w)) (db_jobs (my_gap w))"
  by (cases "my_others w") (auto simp: my_gap_def)

lemma others_keep_content:
  assumes "others_keep (my_others w) (db_jobs w)" "r \<in> set (db_jobs w)" "s \<in> set (db_jobs (my_gap w))" "r_id s = r_id r"
  shows "same_content r s"
proof (cases "my_others w")
  case Nil
  then have "s = r"
    using assms by (simp add: my_gap_def) (metis distinct_map_same)
  then show ?thesis
    by (simp add: same_content_def)
next
  case (Cons f fs)
  then show ?thesis
    using assms by (simp add: my_gap_def)
qed

text \<open>Asking a context touches neither the tables nor the other sessions.\<close>

definition quiet_ctx :: "('a mysql_scheme \<Rightarrow> error option \<times> 'a mysql_scheme) \<Rightarrow> bool" where
  "quiet_ctx ctx_Err \<longleftrightarrow> (\<forall>w. tables (snd (ctx_Err w)) = tables w \<and> my_others (snd (ctx_Err w)) = my_others w)"

lemma quiet_ctxD:
  "quiet_ctx ctx_Err \<Longrightarrow> ctx_Err w = (e, w') \<Longrightarrow> db_jobs w' = db_jobs w \<and> my_others w' = my_others w"
  unfolding quiet_ctx_def tables_def by (metis prod.inject snd_conv)

text \<open>Where a claim takes its candidates from: at most \<open>n\<close> rows it wants that are claimable when it looks,
  where it wants rows by their messages.\<close>

locale claim_source =
  fixes d :: mysql_driver and now :: time and wanted :: "job_row \<Rightarrow> bool" and n :: nat
    and candidates :: "'a mysql_scheme \<Rightarrow> (error + JobID list) \<times> 'a mysql_scheme"
  assumes candidates_frame: "candidates w = (res, w') \<Longrightarrow> db_jobs w' = db_jobs w \<and> my_others w' = my_others w"
    and candidates_free: "candidates w = (Inr ids, w') \<Longrightarrow> i \<in> set ids \<Longrightarrow>
      \<exists>r \<in> set (db_jobs w). r_id r = i \<and> my_claimable d now r \<and> wanted r"
    and candidates_length: "candidates w = (Inr ids, w') \<Longrightarrow> length ids \<le> n"
    and wanted_content: "same_content r s \<Longrightarrow> wanted r \<Longrightarrow> wanted s"
begin

lemma round_cases:
  assumes "claim_round d ctx_Err candidates now until token w = (res, w')" "quiet_ctx ctx_Err" "\<forall>e. res \<noteq> Some (Inl e)"
  obtains ids w1 w2 where "ids \<noteq> []" "candidates w1 = (Inr ids, w2)" "sees w1 = sees (my_gap w)" "sees w2 = sees (my_gap w)"
    "sees (my_gap w2) = sees (my_gap (my_gap w))"
    "reserveBatchCandidates d now until token ids (my_gap w2) = (Inr (map_option projr res), w')"
proof -
  obtain w0 where c: "ctx_Err w = (None, w0)"
    using assms(1,3) by (auto simp: claim_round_def split: prod.splits option.splits)
  then obtain ids w2 where ids: "candidates (my_gap w0) = (Inr ids, w2)" "ids \<noteq> []"
    and res: "reserveBatchCandidates d now until token ids (my_gap w2) = (Inr (map_option projr res), w')"
    using assms(1,3) by (auto simp: claim_round_def split: prod.splits option.splits sum.splits if_splits)
  have "sees (my_gap w0) = sees (my_gap w)"
    using quiet_ctxD [OF assms(2) c] by (intro sees_my_gap) (simp add: sees_def)
  moreover from this have "sees w2 = sees (my_gap w)"
    using candidates_frame [OF ids(1)] by (simp add: sees_def)
  moreover from this have "sees (my_gap w2) = sees (my_gap (my_gap w))"
    by (rule sees_my_gap)
  ultimately show thesis
    using ids res by (intro that [of ids "my_gap w0" w2])
qed

lemma round_retries:
  assumes "claim_round d ctx_Err candidates now until token w = (None, w')" "quiet_ctx ctx_Err"
  shows "my_others w \<noteq> [] \<and> sees w' = sees (my_gap (my_gap w))"
  using assms
proof (rule round_cases)
  fix ids w1 w2
  assume ids: "ids \<noteq> []" "candidates w1 = (Inr ids, w2)" and s: "sees w1 = sees (my_gap w)"
    "sees w2 = sees (my_gap w)" "sees (my_gap w2) = sees (my_gap (my_gap w))"
    and res: "reserveBatchCandidates d now until token ids (my_gap w2) = (Inr (map_option projr None), w')"
  note done_nothing = reserve_cases [OF res]
  have "my_others w \<noteq> []"
  proof
    assume "my_others w = []"
    then have "my_gap (my_gap w) = my_gap w"
      by (simp add: my_gap_def)
    then have same: "db_jobs (my_gap w2) = db_jobs w1"
      using s by (simp add: sees_def)
    obtain r where "r \<in> set (db_jobs w1)" "r_id r \<in> set ids" "my_claimable d now r"
      using candidates_free [OF ids(2), of "hd ids"] ids(1) by auto
    then show False
      using done_nothing by (auto simp: same sql_count_0_iff)
  qed
  moreover have "sees w' = sees (my_gap (my_gap w))"
    unfolding s(3) [symmetric] using done_nothing by (simp add: sees_def)
  ultimately show ?thesis
    by simp
qed simp

lemma round_claims:
  assumes "claim_round d ctx_Err candidates now until token w = (Some (Inr jobs), w')" "quiet_ctx ctx_Err"
    and "others_keep (my_others w) (db_jobs w)"
  shows "claimed_from d now until token wanted n (others_after 2 w) jobs (db_jobs w')"
  using assms(1,2)
proof (rule round_cases)
  fix ids w1 w2
  assume ids: "candidates w1 = (Inr ids, w2)" and s: "sees w1 = sees (my_gap w)" "sees w2 = sees (my_gap w)"
    "sees (my_gap w2) = sees (my_gap (my_gap w))"
    and "reserveBatchCandidates d now until token ids (my_gap w2) = (Inr (map_option projr (Some (Inr jobs))), w')"
  then have res: "reserveBatchCandidates d now until token ids (my_gap w2) = (Inr (Some jobs), w')"
    by simp
  have two: "db_jobs (my_gap w2) = others_after 2 w"
    using s(3) others_after_gap [of 0 "my_gap w"] others_after_gap [of 1 w]
    by (simp add: sees_def others_after_def numeral_2_eq_2)
  have keep: "others_keep (my_others (my_gap w)) (db_jobs (my_gap w))"
    "others_keep (my_others (my_gap (my_gap w))) (db_jobs (my_gap (my_gap w)))"
    using assms(3) by (simp_all add: others_keep_gap)
  have "claimed_from d now until token (\<lambda>r. r_id r \<in> set ids) (length ids) (others_after 2 w) jobs (db_jobs w')"
    using reserve_claims [OF res] others_keep_distinct [OF keep(2)] s(3) by (simp add: two [symmetric] sees_def)
  then show ?thesis
  proof (rule claimed_from_mono)
    fix r
    assume r: "r \<in> set (others_after 2 w)" "r_id r \<in> set ids"
    obtain r0 where r0: "r0 \<in> set (db_jobs (my_gap w))" "r_id r0 = r_id r" "wanted r0"
      using candidates_free [OF ids r(2)] s(1) by (auto simp: sees_def)
    have "same_content r0 r"
      using others_keep_content [OF keep(1) r0(1), of r] r(1) r0(2) s(3) by (simp add: two [symmetric] sees_def)
    then show "wanted r"
      using r0(3) by (rule wanted_content)
  qed (rule candidates_length [OF ids])
qed simp

lemma loop_returns:
  "quiet_ctx ctx_Err \<Longrightarrow> \<exists>res w'. claim_loop d ctx_Err candidates now until token w = Some (res, w')"
proof (induction "length (my_others w)" arbitrary: w rule: less_induct)
  case less
  obtain res w1 where round: "claim_round d ctx_Err candidates now until token w = (res, w1)"
    by fastforce
  show ?case
  proof (cases res)
    case (Some r)
    then show ?thesis
      by (simp add: claim_loop.simps round)
  next
    case None
    then have "length (my_others w1) < length (my_others w)"
      using round_retries [OF round [unfolded None] less.prems] my_gap_shorter [of w] my_gap_shorter [of "my_gap w"]
      by (simp add: sees_def)
    from less.hyps [OF this less.prems] show ?thesis
      using None by (subst claim_loop.simps) (simp add: round)
  qed
qed

lemma loop_claims:
  assumes "quiet_ctx ctx_Err"
  shows "claim_loop d ctx_Err candidates now until token w = Some (Inr jobs, w') \<Longrightarrow>
    others_keep (my_others w) (db_jobs w) \<Longrightarrow>
    \<exists>k. claimed_from d now until token wanted n (others_after k w) jobs (db_jobs w')"
proof (induction "length (my_others w)" arbitrary: w rule: less_induct)
  case less
  obtain res w1 where round: "claim_round d ctx_Err candidates now until token w = (res, w1)"
    by fastforce
  show ?case
  proof (cases res)
    case (Some r)
    then have "r = Inr jobs" "w1 = w'"
      using less.prems(1) by (simp_all add: claim_loop.simps round)
    then show ?thesis
      using round_claims [OF round [unfolded Some \<open>r = Inr jobs\<close>] assms less.prems(2)] by blast
  next
    case None
    note step = round_retries [OF round [unfolded None] assms]
    have later: "others_after k w1 = others_after (Suc (Suc k)) w" for k
      using step others_after_sees [of w1 "my_gap (my_gap w)" k] by (simp add: others_after_gap)
    have "claim_loop d ctx_Err candidates now until token w1 = Some (Inr jobs, w')"
      using less.prems(1) None by (simp add: claim_loop.simps [of _ _ _ _ _ _ w] round)
    moreover have "others_keep (my_others w1) (db_jobs w1)"
      using step others_keep_gap [OF others_keep_gap [OF less.prems(2)]] by (simp add: sees_def)
    moreover have "length (my_others w1) < length (my_others w)"
      using step my_gap_shorter [of w] my_gap_shorter [of "my_gap w"] by (simp add: sees_def)
    ultimately have "\<exists>k. claimed_from d now until token wanted n (others_after k w1) jobs (db_jobs w')"
      by (intro less.hyps)
    then show ?thesis
      by (auto simp: later)
  qed
qed

end

lemma exec_select_cases:
  "exec_stmt (\<lambda>w. (Inr (q (db_jobs w)), w)) w = (res, w') \<Longrightarrow>
   db_jobs w' = db_jobs w \<and> my_others w' = my_others w \<and> (\<forall>x. res = Inr x \<longrightarrow> x = q (db_jobs w))"
  by (auto simp: exec_stmt_def split: list.splits option.splits)

lemma findBatchCandidateIDs_cases:
  "findBatchCandidateIDs d now caps limit w = (res, w') \<Longrightarrow>
   db_jobs w' = db_jobs w \<and> my_others w' = my_others w \<and>
   (\<forall>ids. res = Inr ids \<longrightarrow> ids = buildBatchCandidateQuery d now caps limit (db_jobs w))"
  by (auto simp: findBatchCandidateIDs_def split: prod.splits sum.splits dest: exec_select_cases)

lemma findBoundedBatchCandidateIDs_cases:
  assumes "findBoundedBatchCandidateIDs d now cap limits w = (res, w')"
  shows "db_jobs w' = db_jobs w \<and> my_others w' = my_others w \<and>
    (\<forall>ids. res = Inr ids \<longrightarrow> (\<exists>k. ids = take k (map r_id (my_claim_rows d now [cap] (bl_MaxMessages limits) (db_jobs w)))))"
proof -
  let ?q = "\<lambda>js. map (\<lambda>r. (r_id r, int (length (r_payload r))))
    (sql_select (\<lambda>r. r_name r = cap_Name cap \<and> r_schema_version r = cap_SchemaVersion cap \<and> my_claimable d now r)
      (claim_key (md_String d)) (nat (bl_MaxMessages limits)) js)"
  obtain r1 w1 where e: "exec_stmt (\<lambda>w. (Inr (?q (db_jobs w)), w)) w = (r1, w1)"
    by fastforce
  have rows: "map fst (?q js) = map r_id (my_claim_rows d now [cap] (bl_MaxMessages limits) js)" for js
    by (simp add: my_claim_rows_def has_capability_def conj_ac)
  obtain k where "bounded_claim_loop (bl_MaxBytes limits) [] 0 False (?q (db_jobs w)) = map fst (take k (?q (db_jobs w)))"
  proof (cases "?q (db_jobs w) = []")
    case True
    then show thesis
      by (intro that [of 0]) simp
  next
    case False
    then show thesis
      by (rule bounded_claim_loop_longest [of "?q (db_jobs w)" "bl_MaxBytes limits"]) (auto intro: that)
  qed
  then have "bounded_claim_loop (bl_MaxBytes limits) [] 0 False (?q (db_jobs w)) =
      take k (map r_id (my_claim_rows d now [cap] (bl_MaxMessages limits) (db_jobs w)))"
    by (simp only: rows [symmetric] take_map)
  then show ?thesis
    using assms exec_select_cases [OF e]
    by (auto simp: findBoundedBatchCandidateIDs_def e split: sum.splits)
qed

lemma candidate_query_rows:
  assumes "i \<in> set (buildBatchCandidateQuery d now caps limit js)"
  shows "\<exists>r \<in> set js. r_id r = i \<and> my_claimable d now r \<and> has_capability caps r"
proof -
  obtain r c where "r_id r = i" "c \<in> set (unique_capabilities [] caps)"
    "r \<in> set (sql_select (\<lambda>r. r_name r = cap_Name c \<and> r_schema_version r = cap_SchemaVersion c \<and>
       my_claimable d now r) (claim_key (md_String d)) (nat limit) js)"
    using assms by (auto simp: buildBatchCandidateQuery_def dest!: in_set_takeD)
  then show ?thesis
    using unique_capabilities_facts [of "[]" caps]
    by (intro bexI [of _ r]) (auto simp: has_capability_def list_ex_iff dest!: sql_select_sat)
qed

lemma has_capability_content: "same_content r s \<Longrightarrow> has_capability caps r \<Longrightarrow> has_capability caps s"
  by (simp add: has_capability_def same_content_def)

interpretation by_capabilities: claim_source d now "has_capability caps" "nat limit" "findBatchCandidateIDs d now caps limit"
  for d now caps limit
proof unfold_locales
  show "length ids \<le> nat limit" if "findBatchCandidateIDs d now caps limit w = (Inr ids, w')" for w ids w'
    using findBatchCandidateIDs_cases [OF that] by (simp add: buildBatchCandidateQuery_def)
qed (auto dest!: findBatchCandidateIDs_cases candidate_query_rows intro: has_capability_content)

interpretation by_bytes: claim_source d now "has_capability [cap]" "nat (bl_MaxMessages limits)"
  "findBoundedBatchCandidateIDs d now cap limits" for d now cap limits
proof unfold_locales
  fix w :: "'a mysql_scheme" and ids w' i
  assume run: "findBoundedBatchCandidateIDs d now cap limits w = (Inr ids, w')"
  then obtain k where k: "ids = take k (map r_id (my_claim_rows d now [cap] (bl_MaxMessages limits) (db_jobs w)))"
    using findBoundedBatchCandidateIDs_cases by blast
  have "length (my_claim_rows d now [cap] (bl_MaxMessages limits) (db_jobs w)) \<le> nat (bl_MaxMessages limits)"
    by (simp add: my_claim_rows_def length_sql_select)
  then show "length ids \<le> nat (bl_MaxMessages limits)"
    by (simp add: k)
  show "\<exists>r \<in> set (db_jobs w). r_id r = i \<and> my_claimable d now r \<and> has_capability [cap] r" if "i \<in> set ids"
    using that by (auto simp: k my_claim_rows_def dest!: in_set_takeD sql_select_sat)
qed (auto dest!: findBoundedBatchCandidateIDs_cases intro: has_capability_content)

section \<open>Claims\<close>

text \<open>The claims of the repository, with the jobs they ask for.\<close>

inductive mysql_claim ::
  "mysql_driver \<Rightarrow> ('a mysql_scheme \<Rightarrow> error option \<times> 'a mysql_scheme) \<Rightarrow> time \<Rightarrow> time \<Rightarrow> LeaseToken \<Rightarrow>
   JobCapability list \<Rightarrow> int \<Rightarrow> 'a mysql_scheme \<Rightarrow> ((error + Job list) \<times> 'a mysql_scheme) option \<Rightarrow> bool"
  for d ctx_Err now until token where
  claim_capabilities: "mysql_FindAndReserveJobsForCapabilities d ctx_Err now until token caps limit w = res \<Longrightarrow>
    mysql_claim d ctx_Err now until token caps limit w res"
| claim_capability: "mysql_FindAndReserveJobsForCapability d ctx_Err now until token cap limit w = res \<Longrightarrow>
    mysql_claim d ctx_Err now until token [cap] limit w res"
| claim_bounded: "mysql_FindAndReserveJobsForCapabilityBounded d ctx_Err now until token cap limits w = res \<Longrightarrow>
    mysql_claim d ctx_Err now until token [cap] (bl_MaxMessages limits) w res"

lemma mysql_claim_cases:
  assumes "mysql_claim d ctx_Err now until token caps limit w res"
  obtains (rejected) e where "res = Some (Inl e, w)"
    | (plain) "res = claim_loop d ctx_Err (findBatchCandidateIDs d now caps limit) now until token w"
    | (bounded) cap limits where "caps = [cap]" "limit = bl_MaxMessages limits"
        "res = claim_loop d ctx_Err (findBoundedBatchCandidateIDs d now cap limits) now until token w"
  using assms
  by cases (auto simp: mysql_FindAndReserveJobsForCapabilities_def mysql_FindAndReserveJobsForCapability_def
      mysql_FindAndReserveJobsForCapabilityBounded_def split: if_splits option.splits)

lemma map_sum_eq_Inr: "map_sum f g x = Inr y \<Longrightarrow> (\<And>z. x = Inr z \<Longrightarrow> g z = y \<Longrightarrow> P) \<Longrightarrow> P"
  by (cases x) simp_all

text \<open>A server with microsecond columns. While the claim chooses job 1, another session takes it and
  stores job 4.\<close>

definition sample_driver :: mysql_driver where
  "sample_driver = \<lparr>md_store = (\<lambda>t. t div 1000), md_load = (\<lambda>u. u * 1000), md_found_rows = False, md_String = sample_str\<rparr>"

definition sample_other :: "job_row list \<Rightarrow> job_row list" where
  "sample_other js = map (\<lambda>r. if r_id r = JobID 1 then my_take_lease sample_driver 80000 (LeaseToken 9) r else r) js @
     [sample_row 4 None LeaseTokenNil 20]"

definition sample_mysql :: mysql where
  "sample_mysql =
     \<lparr>db_jobs = [sample_row 1 None LeaseTokenNil 10, sample_row 2 (Some 90) (LeaseToken 7) 10,
                 sample_row 3 None LeaseTokenNil 70],
      db_keys = [], db_failed = [], db_in_tx = False, db_faults = [], db_lost_commits = [],
      my_others = [\<lambda>js. js, sample_other]\<rparr>"

definition sample_ctx :: "mysql \<Rightarrow> error option \<times> mysql" where
  "sample_ctx w = (None, w)"

definition sample_mysql_claim :: "((error + Job list) \<times> mysql) option" where
  "sample_mysql_claim = mysql_FindAndReserveJobsForCapabilities sample_driver sample_ctx 50000 95000 (LeaseToken 8)
     [sample_cap] 10 sample_mysql"

lemma quiet_sample_ctx: "quiet_ctx sample_ctx"
  by (simp add: quiet_ctx_def sample_ctx_def)

lemma sample_others_keep: "others_keep (my_others sample_mysql) (db_jobs sample_mysql)"
  by code_simp

lemma sample_mysql_claim_eval:
  "map_option (map_sum id (map job_ID) \<circ> fst) sample_mysql_claim = Some (Inr [JobID 4])"
  by code_simp

text \<open>C21. A claim on MySQL chooses its candidates in one statement and takes them in a later transaction.
  Whatever other sessions commit in between, a claim that returns jobs returns rows that were
  available and unleased, of a requested capability and at most as many as asked for, in the state of
  the table its transaction worked on, each once and in claim order; the transaction put exactly these rows
  under the token until the deadline and changed no other row.\<close>

theorem mysql_claim_sound:
  assumes "mysql_claim d ctx_Err now until token caps limit w (Some (Inr jobs, w'))"
    and "quiet_ctx ctx_Err" "others_keep (my_others w) (db_jobs w)"
  shows "\<exists>k. claimed_from d now until token (has_capability caps) (nat limit) (others_after k w) jobs (db_jobs w')"
  using assms(1)
proof (cases rule: mysql_claim_cases)
  case plain
  then show ?thesis
    using by_capabilities.loop_claims [OF assms(2)] assms(3) by metis
next
  case (bounded cap limits)
  then show ?thesis
    using by_bytes.loop_claims [OF assms(2)] assms(3) by metis
qed simp

theorem mysql_claim_sound_witness:
  "\<exists>jobs w' k. sample_mysql_claim = Some (Inr jobs, w') \<and> map job_ID jobs = [JobID 4] \<and>
     claimed_from sample_driver 50000 95000 (LeaseToken 8) (has_capability [sample_cap]) 10
       (others_after k sample_mysql) jobs (db_jobs w')"
proof -
  obtain jobs w' where run: "sample_mysql_claim = Some (Inr jobs, w')" "map job_ID jobs = [JobID 4]"
    using sample_mysql_claim_eval by (auto elim!: map_sum_eq_Inr)
  have "mysql_claim sample_driver sample_ctx 50000 95000 (LeaseToken 8) [sample_cap] 10 sample_mysql (Some (Inr jobs, w'))"
    using run(1) by (intro claim_capabilities) (simp add: sample_mysql_claim_def)
  from mysql_claim_sound [OF this quiet_sample_ctx sample_others_keep]
  obtain k where "claimed_from sample_driver 50000 95000 (LeaseToken 8) (has_capability [sample_cap]) 10
      (others_after k sample_mysql) jobs (db_jobs w')"
    by auto
  with run show ?thesis
    by (intro exI conjI)
qed

text \<open>C25. A claim on MySQL returns: it goes round only after another session changed the table between
  its two steps, so it ends as soon as the other sessions stop, whatever the database answers.\<close>

theorem mysql_claim_returns:
  assumes "mysql_claim d ctx_Err now until token caps limit w res" "quiet_ctx ctx_Err"
  shows "\<exists>answer w'. res = Some (answer, w')"
  using assms(1)
proof (cases rule: mysql_claim_cases)
  case plain
  then show ?thesis
    using by_capabilities.loop_returns [OF assms(2)] by metis
next
  case (bounded cap limits)
  then show ?thesis
    using by_bytes.loop_returns [OF assms(2)] by metis
qed simp

theorem mysql_claim_returns_witness:
  "\<exists>answer w'. mysql_FindAndReserveJobsForCapabilityBounded sample_driver sample_ctx 50000 95000 (LeaseToken 8) sample_cap
     \<lparr>bl_MaxMessages = 10, bl_MaxBytes = 1\<rparr> sample_mysql = Some (answer, w')"
  by (rule mysql_claim_returns [OF claim_bounded [OF refl] quiet_sample_ctx])

text \<open>C24. The candidate query joins one limited query per distinct capability by UNION ALL, orders the
  result and cuts it again. When rows have distinct identifier texts it selects what the plain
  query selects: the earliest claimable rows of all the capabilities, in order.\<close>

theorem mysql_candidates_plain_query:
  assumes "distinct (map (JobID_String (md_String d) \<circ> r_id) js)"
  shows "buildBatchCandidateQuery d now caps limit js =
    map r_id (sql_select (\<lambda>r. my_claimable d now r \<and> has_capability caps r) (claim_key (md_String d)) (nat limit) js)"
proof -
  have "distinct (map (claim_key (md_String d)) js)"
    using assms by (auto simp: distinct_map inj_on_def claim_key_def)
  then show ?thesis
    by (simp add: candidate_query_eq my_claim_rows_def)
qed

theorem mysql_candidates_plain_query_witness:
  "distinct (map (JobID_String (md_String sample_driver) \<circ> r_id) (db_jobs sample_mysql)) \<and>
   buildBatchCandidateQuery sample_driver 80000 [sample_cap, sample_cap] 2 (db_jobs sample_mysql) = [JobID 1, JobID 3]"
proof -
  have "distinct (map (JobID_String (md_String sample_driver) \<circ> r_id) (db_jobs sample_mysql))"
    by code_simp
  moreover have "map r_id (sql_select (\<lambda>r. my_claimable sample_driver 80000 r \<and> has_capability [sample_cap, sample_cap] r)
      (claim_key (md_String sample_driver)) (nat 2) (db_jobs sample_mysql)) = [JobID 1, JobID 3]"
    by code_simp
  ultimately show ?thesis
    using mysql_candidates_plain_query [of sample_driver "db_jobs sample_mysql" 80000 "[sample_cap, sample_cap]" 2] by simp
qed

end
