(* ===== verification/Mysql_Leases.thy ===== *)
theory Mysql_Leases
  imports Mysql_Claims
begin

text \<open>
  The lease operations of the MySQL repository. On the common table model they are the SQLite
  operations at the times MySQL stores, so both backends make the same promises; what differs is the
  count of an extension, and a batch of outcomes whose commit was answered by an error. The fence
  holds for all of them.
\<close>

section \<open>Agreement with SQLite\<close>

text \<open>The time whose SQLite column value is the MySQL column value of \<open>t\<close>.\<close>

definition column_time :: "mysql_driver \<Rightarrow> time \<Rightarrow> time" where
  "column_time d t = time_UnixMilli (md_store d t)"

lemma UnixMilli_column_time [simp]: "UnixMilli (column_time d t) = md_store d t"
  by (simp add: column_time_def)

lemma my_leased_column: "my_leased d token now = leased token (column_time d now)"
  by (rule ext) (simp add: my_leased_def leased_def split: option.splits)

lemma my_claimable_column: "my_claimable d now r \<longleftrightarrow> claimable (column_time d now) r"
  by (simp add: my_claimable_def claimable_def split: option.splits)

lemma my_take_lease_column: "my_take_lease d until token = take_lease (column_time d until) token"
  by (rule ext) (simp add: my_take_lease_def take_lease_def)

text \<open>An update counts like SQLite when it changes every row it matches.\<close>

lemma my_update_jobs_counted:
  assumes "md_found_rows d \<or> (\<forall>r. p r \<longrightarrow> f r \<noteq> r)"
  shows "my_update_jobs d p f = update_jobs p f"
proof -
  have "(\<lambda>r. p r \<and> (md_found_rows d \<or> f r \<noteq> r)) = p"
    using assms by auto
  then show ?thesis
    by (simp add: my_update_jobs_def update_jobs_def)
qed

lemma my_update_jobs_world: "snd (my_update_jobs d p f w) = snd (update_jobs p f w)"
  by (simp add: my_update_jobs_def update_jobs_def exec_stmt_def split: list.splits option.splits)

lemma drops_lease:
  assumes "my_leased d token now r"
  shows "r\<lparr>r_attempts := a, r_reserved_at := None, r_lease_token := t\<rparr> \<noteq> r"
    "r\<lparr>r_available_at := u, r_reserved_at := None, r_lease_token := t\<rparr> \<noteq> r"
proof -
  have "s \<noteq> r" if "r_reserved_at s = None" for s
    using assms that by (auto simp: my_leased_def)
  then show "r\<lparr>r_attempts := a, r_reserved_at := None, r_lease_token := t\<rparr> \<noteq> r"
    "r\<lparr>r_available_at := u, r_reserved_at := None, r_lease_token := t\<rparr> \<noteq> r"
    by simp_all
qed

lemma drop_counted:
  assumes "\<And>r. p r \<Longrightarrow> my_leased d token now r"
  shows "my_update_jobs d p (\<lambda>r. r\<lparr>r_attempts := g r, r_reserved_at := None, r_lease_token := t\<rparr>) =
      update_jobs p (\<lambda>r. r\<lparr>r_attempts := g r, r_reserved_at := None, r_lease_token := t\<rparr>)"
    "my_update_jobs d p (\<lambda>r. r\<lparr>r_available_at := g r, r_reserved_at := None, r_lease_token := t\<rparr>) =
      update_jobs p (\<lambda>r. r\<lparr>r_available_at := g r, r_reserved_at := None, r_lease_token := t\<rparr>)"
  by (rule my_update_jobs_counted, use assms drops_lease in blast)+

lemma mysql_release_eq:
  "mysql_ReleaseUnstartedJobsWithLease d ids token now w =
   sqlite_ReleaseUnstartedJobsWithLease ids token (column_time d now) w"
proof -
  let ?p = "\<lambda>r. r_id r \<in> set ids \<and> my_leased d token now r \<and> 0 < r_attempts r"
  note count = drop_counted(1) [of ?p d token now]
  show ?thesis
    unfolding mysql_ReleaseUnstartedJobsWithLease_def sqlite_ReleaseUnstartedJobsWithLease_def my_leased_column [symmetric]
    by (subst count) simp_all
qed

lemma mysql_delete_eq:
  "mysql_DeleteJobWithLease d i token now w = sqlite_DeleteJobWithLease i token (column_time d now) w"
  by (simp only: mysql_DeleteJobWithLease_def sqlite_DeleteJobWithLease_def my_leased_column)

lemma mysql_reschedule_eq:
  "mysql_RescheduleJobWithLease d i token now at w =
   sqlite_RescheduleJobWithLease i token (column_time d now) (column_time d at) w"
proof -
  let ?p = "\<lambda>r. r_id r = i \<and> my_leased d token now r"
  note count = drop_counted(2) [of ?p d token now]
  show ?thesis
    unfolding mysql_RescheduleJobWithLease_def sqlite_RescheduleJobWithLease_def my_leased_column [symmetric]
      UnixMilli_column_time
    by (subst count) simp_all
qed

lemma mysql_extend_world:
  "snd (mysql_ExtendJobLeases d ids token now until w) =
   snd (sqlite_ExtendJobLeases ids token (column_time d now) (column_time d until) w)"
  by (auto simp: mysql_ExtendJobLeases_def sqlite_ExtendJobLeases_def my_update_jobs_world my_leased_column
      split: option.splits)

lemma same_deadline: "r_reserved_at r = Some u \<longleftrightarrow> r\<lparr>r_reserved_at := Some u\<rparr> = r"
  by (cases r) auto

text \<open>The leases an extension has to move.\<close>

lemma mysql_extend_count:
  assumes "\<not> md_found_rows d" "mysql_ExtendJobLeases d ids token now until w = (Inr n, w')"
  shows "n = sql_count (\<lambda>r. r_id r \<in> set ids \<and> my_leased d token now r \<and> r_reserved_at r \<noteq> Some (md_store d until)) (db_jobs w)"
  using assms
  by (auto simp: mysql_ExtendJobLeases_def same_deadline conj_assoc split: option.splits elim!: my_update_jobs_cases)

lemma mysql_extend_eq:
  assumes "md_found_rows d \<or> (\<forall>r \<in> set (db_jobs w). r_reserved_at r \<noteq> Some (md_store d until))"
  shows "mysql_ExtendJobLeases d ids token now until w =
    sqlite_ExtendJobLeases ids token (column_time d now) (column_time d until) w"
proof (cases "validateBatchLease ids token")
  case None
  let ?p = "\<lambda>r. r_id r \<in> set ids \<and> my_leased d token now r"
  have "sql_count (\<lambda>r. ?p r \<and> (md_found_rows d \<or> r\<lparr>r_reserved_at := Some (md_store d until)\<rparr> \<noteq> r)) (db_jobs w) =
      sql_count ?p (db_jobs w)"
    using assms by (auto simp: sql_count_def same_deadline [symmetric] intro!: arg_cong [where f = length] filter_cong)
  then show ?thesis
    using None by (simp add: mysql_ExtendJobLeases_def sqlite_ExtendJobLeases_def my_leased_column [symmetric]
        my_update_jobs_def update_jobs_def exec_stmt_def split: list.splits option.splits)
qed (simp add: mysql_ExtendJobLeases_def sqlite_ExtendJobLeases_def)

text \<open>C23. MySQL and SQLite agree on the lease operations: releasing, deleting and rescheduling are the same
  function of the table when times are taken as the column stores them. Extending leaves the same
  table, and reports the same count if the driver counts matched rows or every lease gets a new deadline.\<close>

theorem mysql_lease_ops_agree:
  "mysql_ReleaseUnstartedJobsWithLease d ids token now w =
     sqlite_ReleaseUnstartedJobsWithLease ids token (column_time d now) w \<and>
   mysql_DeleteJobWithLease d i token now w = sqlite_DeleteJobWithLease i token (column_time d now) w \<and>
   mysql_RescheduleJobWithLease d i token now at w =
     sqlite_RescheduleJobWithLease i token (column_time d now) (column_time d at) w \<and>
   snd (mysql_ExtendJobLeases d ids token now until w) =
     snd (sqlite_ExtendJobLeases ids token (column_time d now) (column_time d until) w) \<and>
   (md_found_rows d \<or> (\<forall>r \<in> set (db_jobs w). r_reserved_at r \<noteq> Some (md_store d until)) \<longrightarrow>
     mysql_ExtendJobLeases d ids token now until w =
       sqlite_ExtendJobLeases ids token (column_time d now) (column_time d until) w)"
  by (intro conjI impI mysql_release_eq mysql_delete_eq mysql_reschedule_eq mysql_extend_world mysql_extend_eq)

theorem mysql_lease_ops_agree_witness:
  "fst (mysql_ExtendJobLeases sample_driver [JobID 1, JobID 2] (LeaseToken 7) 50000 120000 sample_mysql) = Inr 1"
proof -
  have "\<forall>r \<in> set (db_jobs sample_mysql). r_reserved_at r \<noteq> Some (md_store sample_driver 120000)"
    by code_simp
  then have "mysql_ExtendJobLeases sample_driver [JobID 1, JobID 2] (LeaseToken 7) 50000 120000 sample_mysql =
      sqlite_ExtendJobLeases [JobID 1, JobID 2] (LeaseToken 7) (column_time sample_driver 50000)
        (column_time sample_driver 120000) sample_mysql"
    using mysql_lease_ops_agree [of sample_driver "[JobID 1, JobID 2]" "LeaseToken 7" 50000 sample_mysql] by blast
  moreover have "fst (sqlite_ExtendJobLeases [JobID 1, JobID 2] (LeaseToken 7) (column_time sample_driver 50000)
        (column_time sample_driver 120000) sample_mysql) = Inr 1"
    by code_simp
  ultimately show ?thesis
    by simp
qed

section \<open>The fence\<close>

text \<open>A call changed only rows of the jobs \<open>I\<close> that were under the token, and no message.\<close>

definition my_fenced ::
  "mysql_driver \<Rightarrow> LeaseToken \<Rightarrow> time \<Rightarrow> JobID set \<Rightarrow> job_row list \<Rightarrow> job_row list \<Rightarrow> bool" where
  "my_fenced d token now I js js' \<longleftrightarrow>
     (\<forall>r \<in> set js. r_id r \<in> I \<and> my_leased d token now r \<or> r \<in> set js') \<and>
     (\<forall>r' \<in> set js'. \<exists>r \<in> set js. same_content r r' \<and> (r' = r \<or> r_id r \<in> I \<and> my_leased d token now r)) \<and>
     (lease_wf js \<longrightarrow> lease_wf js')"

lemma my_fenced_column: "my_fenced d token now I js js' \<longleftrightarrow> fenced token (column_time d now) I js js'"
  by (simp add: my_fenced_def fenced_def my_leased_column)

inductive mysql_owner_op ::
  "mysql_driver \<Rightarrow> LeaseToken \<Rightarrow> time \<Rightarrow> JobID set \<Rightarrow> 'a mysql_scheme \<Rightarrow> 'a mysql_scheme \<Rightarrow> bool" for d where
  my_extend: "mysql_ExtendJobLeases d ids token now until w = (res, w') \<Longrightarrow> mysql_owner_op d token now (set ids) w w'"
| my_release: "mysql_ReleaseUnstartedJobsWithLease d ids token now w = (res, w') \<Longrightarrow> mysql_owner_op d token now (set ids) w w'"
| my_delete: "mysql_DeleteJobWithLease d i token now w = (res, w') \<Longrightarrow> mysql_owner_op d token now {i} w w'"
| my_reschedule: "mysql_RescheduleJobWithLease d i token now at w = (res, w') \<Longrightarrow> mysql_owner_op d token now {i} w w'"
| my_defer: "mysql_DeferJobWithLease d i token now at w = (res, w') \<Longrightarrow> mysql_owner_op d token now {i} w w'"
| my_outcomes: "mysql_ApplyBatchJobOutcomes d token now xs w = (res, w') \<Longrightarrow> mysql_owner_op d token now (bo_JobID ` set xs) w w'"

lemma mysql_extend_fenced:
  assumes "mysql_ExtendJobLeases d ids token now until w = (res, w')"
  shows "world_fenced token (column_time d now) (set ids) w w'"
proof -
  have "sqlite_ExtendJobLeases ids token (column_time d now) (column_time d until) w =
      (fst (sqlite_ExtendJobLeases ids token (column_time d now) (column_time d until) w), w')"
    using mysql_extend_world [of d ids token now until w] assms by (metis prod.collapse snd_conv)
  then show ?thesis
    by (rule extend_fenced)
qed

lemma my_update_jobs_fenced:
  assumes "my_update_jobs d p f w = (res, w')" "\<And>r. p r \<Longrightarrow> r_id r \<in> I \<and> leased token now r"
    and "\<And>r. same_content r (f r)" "\<And>r. row_ok r \<Longrightarrow> p r \<Longrightarrow> row_ok (f r)"
  shows "world_fenced token now I w w'"
proof -
  have "update_jobs p f w = (fst (update_jobs p f w), w')"
    using my_update_jobs_world [of d p f w] assms(1) by (metis prod.collapse snd_conv)
  then show ?thesis
    by (rule update_jobs_fenced) (fact assms)+
qed

lemma my_apply_delay_facts:
  "same_content r (my_apply_delay d outcomes r)"
  "row_ok r \<Longrightarrow> 0 < r_attempts r \<Longrightarrow> row_ok (my_apply_delay d outcomes r)"
  by (auto simp: same_content_def row_ok_def my_apply_delay_def split: option.splits)

lemma mysql_outcomes_tx_fenced:
  assumes "mysql_apply_outcomes_tx d token now outcomes w = (res, w')"
  shows "world_fenced token (column_time d now) (bo_JobID ` set outcomes) w w'"
proof -
  let ?ok = "world_fenced token (column_time d now) (bo_JobID ` set outcomes)"
  obtain r1 w1 where d: "mysql_deleteBatchTerminalOutcomes d token now outcomes w = (r1, w1)"
    by fastforce
  have ok1: "?ok w w1"
    using d unfolding mysql_deleteBatchTerminalOutcomes_def my_leased_column
    by (rule delete_jobs_fenced) (auto simp: outcome_ids_def)
  obtain r2 w2 where u: "mysql_updateBatchRetryOutcomes d token now outcomes w1 = (r2, w2)"
    by fastforce
  have ok2: "?ok w1 w2"
    using u unfolding mysql_updateBatchRetryOutcomes_def my_leased_column
    by (rule my_update_jobs_fenced) (auto simp: outcome_ids_def my_apply_delay_facts)
  have "w' = w1 \<or> w' = w2"
    using assms d u by (auto simp: mysql_apply_outcomes_tx_def split: sum.splits if_splits)
  then show ?thesis
    using ok1 ok2 fenced_trans by (auto simp: world_fenced_def)
qed

text \<open>A transaction leaves the tables of its start or those of its callback, lost answers included.\<close>

lemma mysql_RunInTx_tables:
  assumes "mysql_RunInTx fn w = (res, w')" "\<And>v r v'. tables v = tables w \<Longrightarrow> fn v = (r, v') \<Longrightarrow> P (tables v')" "P (tables w)"
  shows "P (tables w')"
proof (cases "db_in_tx w")
  case True
  then show ?thesis
    using assms(1,2) by (simp add: mysql_RunInTx_def)
next
  case False
  obtain e1 w1 where start: "control_stmt w = (e1, w1)"
    by fastforce
  have w1: "tables w1 = tables w" "tables (w1\<lparr>db_in_tx := True\<rparr>) = tables w"
    using control_stmt_frame [OF start] by (simp_all add: tables_def)
  obtain r w2 where run: "fn (w1\<lparr>db_in_tx := True\<rparr>) = (r, w2)"
    by fastforce
  have "P (tables w2)"
    using w1(2) run by (rule assms(2))
  then show ?thesis
    using False assms(1,3) w1(1) commit_tx_frame [of w1 w2] my_rollback_frame [of w1 w2]
    by (auto simp: mysql_RunInTx_def start run split: option.splits sum.splits prod.splits)
qed

lemma mysql_outcomes_fenced:
  assumes "mysql_ApplyBatchJobOutcomes d token now outcomes w = (res, w')"
  shows "world_fenced token (column_time d now) (bo_JobID ` set outcomes) w w'"
proof (cases "validateBatchOutcomes token outcomes")
  case None
  then obtain r where run: "mysql_RunInTx (mysql_apply_outcomes_tx d token now outcomes) w = (r, w')"
    using assms by (auto simp: mysql_ApplyBatchJobOutcomes_def split: prod.splits sum.splits)
  define P where "P = (\<lambda>(js, ks, fs). fenced token (column_time d now) (bo_JobID ` set outcomes) (db_jobs w) js \<and>
    ks = db_keys w \<and> fs = db_failed w)"
  have "P (tables w')"
    using run
  proof (rule mysql_RunInTx_tables)
    fix v :: "'a mysql_scheme" and r v'
    assume "tables v = tables w" "mysql_apply_outcomes_tx d token now outcomes v = (r, v')"
    then show "P (tables v')"
      using mysql_outcomes_tx_fenced [of d token now outcomes v r v'] by (auto simp: P_def tables_def world_fenced_def)
  qed (simp add: P_def tables_def fenced_refl)
  then show ?thesis
    by (simp add: P_def tables_def world_fenced_def)
next
  case (Some e)
  then show ?thesis
    using assms by (auto simp: mysql_ApplyBatchJobOutcomes_def world_fenced_refl)
qed

text \<open>C22. Fencing on MySQL. A call made with a token, at a time, for some jobs changes no row but those of
  the named jobs whose stored lease still runs under that token, and on those neither the message nor
  the identity; it keeps the invariant of the table and touches neither the deduplication keys nor the
  failed jobs. This holds for every result, also when the answer to a commit was lost.\<close>

theorem mysql_owner_ops_fenced:
  assumes "mysql_owner_op d token now I w w'"
  shows "my_fenced d token now I (db_jobs w) (db_jobs w') \<and> db_keys w' = db_keys w \<and> db_failed w' = db_failed w"
proof -
  have "world_fenced token (column_time d now) I w w'"
    using assms
  proof cases
    case (my_defer i at res)
    then show ?thesis
      using mysql_outcomes_fenced [of d token now "[\<lparr>bo_JobID = i, bo_Kind = BatchJobOutcomeDefer, bo_AvailableAt = at, bo_Reason = []\<rparr>]"]
      by (simp add: mysql_DeferJobWithLease_def)
  qed (auto simp: mysql_release_eq mysql_delete_eq mysql_reschedule_eq
      intro: mysql_extend_fenced release_fenced delete_fenced reschedule_fenced mysql_outcomes_fenced)
  then show ?thesis
    by (simp add: world_fenced_def my_fenced_column)
qed

text \<open>A batch whose commit is answered by an error although it took effect.\<close>

definition sample_lost_commit :: mysql where
  "sample_lost_commit = sample_mysql\<lparr>db_faults := [None, None, None, Some (ErrNew ''bad connection'')], db_lost_commits := [True]\<rparr>"

definition sample_success :: "BatchJobOutcome list" where
  "sample_success = [\<lparr>bo_JobID = JobID 2, bo_Kind = BatchJobOutcomeSuccess, bo_AvailableAt = 0, bo_Reason = []\<rparr>]"

theorem mysql_owner_ops_fenced_witness:
  "my_fenced sample_driver (LeaseToken 7) 50000 {JobID 2} (db_jobs sample_lost_commit)
     (db_jobs (snd (mysql_ApplyBatchJobOutcomes sample_driver (LeaseToken 7) 50000 sample_success sample_lost_commit))) \<and>
   isl (fst (mysql_ApplyBatchJobOutcomes sample_driver (LeaseToken 7) 50000 sample_success sample_lost_commit)) \<and>
   map r_id (db_jobs (snd (mysql_ApplyBatchJobOutcomes sample_driver (LeaseToken 7) 50000 sample_success sample_lost_commit))) =
     [JobID 1, JobID 3]"
proof -
  let ?r = "mysql_ApplyBatchJobOutcomes sample_driver (LeaseToken 7) 50000 sample_success sample_lost_commit"
  have "mysql_owner_op sample_driver (LeaseToken 7) 50000 (bo_JobID ` set sample_success) sample_lost_commit (snd ?r)"
    by (rule my_outcomes [of _ _ _ _ _ "fst ?r"]) simp
  moreover have "bo_JobID ` set sample_success = {JobID 2}"
    by (simp add: sample_success_def)
  moreover have "isl (fst ?r)" "map r_id (db_jobs (snd ?r)) = [JobID 1, JobID 3]"
    by code_simp+
  ultimately show ?thesis
    using mysql_owner_ops_fenced [of sample_driver "LeaseToken 7" 50000 "{JobID 2}" sample_lost_commit "snd ?r"] by simp
qed

end
