(* ===== verification/Spec2Isabelle.thy ===== *)
theory Spec2Isabelle
  imports Sqlite_Failed Service_API Service_Lifecycle Sqlite_Termination Sqlite_Idempotency Sqlite_Reports
    Service_Fairness Sqlite_Fleet Mysql_Leases
begin

text \<open>
  A verification development for the outbox library, a transactional job queue in Go. Producers write
  jobs into a table of their database, in the transaction of their business change. Workers claim due
  rows under leases, run the handlers registered for the jobs' capabilities, and acknowledge,
  reschedule, defer or dead-letter them, renewing the leases while they work. The two questions the
  development answers are whether two workers can act on one job at a time, and whether a job can be
  lost.

  \<^bold>\<open>The parts and their theories.\<close> Each theory opens with a summary and follows the order of its source.

  \<^item> \<open>Prelude\<close>: list, table and map lemmas, the \<open>sql_*\<close> functions that statements are written with, the
    collection \<open>table_simps\<close>.
  \<^item> \<open>Go_Base\<close>: times and durations as unbounded nanoseconds with \<open>int64\<close> wrap-around where the code
    multiplies; errors as trees with \<open>errors.Is\<close>; contexts; the record \<open>runtime\<close> of everything the process
    asks its environment (clock, UUIDs, timers, cancellation, drain channel, heartbeat ticker).
    \<open>Go_Format\<close>: decimal numbers, RFC 3339 instants, SHA-256 and hexadecimal, with injectivity lemmas.
  \<^item> \<open>Outbox_Types\<close> (src/shared/types, src/outbox/models, capability.go), \<open>Disposition\<close> (disposition.go),
    \<open>Retry_Policy\<close> (retry_policy.go), \<open>Batch_Model\<close> (batch.go and the pure helpers of
    service_execution_batch.go).
  \<^item> \<open>Repository\<close>: the interfaces of contract.go and batch.go as records of operations. \<open>Lease_Store\<close>: what
    they promise, as an abstract map from jobs to leases, and an abstract protocol of any number of
    workers on it.
  \<^item> \<open>Lease_Manager\<close>: the lease ledger of service_batch.go (\<open>batchLeaseManager\<close>) with its heartbeat; every
    method takes the mutex, so a method is one step, and \<open>preempt\<close> runs pending heartbeats wherever the
    code waits for the mutex. \<open>Lease_Ledger\<close>: its invariant and what admission and finalization guarantee,
    in a locale over the repository's answers.
  \<^item> \<open>Sqlite_Base\<close>: the three tables with their constraints, statements that may fail at any point (the
    pending driver failures are part of the state), and transactions with rollback, whose commit may take
    effect although it is answered by an error (so is, for each such commit, whether it did). \<open>Sqlite_Jobs\<close>,
    \<open>Sqlite_Claims\<close>, \<open>Sqlite_Leases\<close>: creation, claims, lease operations and batch outcomes of
    src/backends/sqlite/repositories/jobsrepo/api.go, with the refinement of \<open>Lease_Store\<close>.
    \<open>Sqlite_Unique\<close>, \<open>Sqlite_Idempotency\<close>: unique puts. \<open>Sqlite_Queries\<close>, \<open>Sqlite_Reports\<close>: listings, pages,
    statistics. \<open>Sqlite_Failed\<close>: the dead letters.
  \<^item> \<open>Mysql_Jobs\<close>: creation, claims, lease operations and batch outcomes of
    src/backends/mysql/repositories/jobsrepo/api.go and its transactions, on the same tables. Rounding of
    times and counting of rows are parameters of the driver; commits of other sessions during a claim
    are part of the state. \<open>Mysql_Claims\<close>, \<open>Mysql_Leases\<close>: what they promise.
  \<^item> \<open>Service_Options\<close> (service_options.go, registration in service.go), \<open>Service_State\<close> (observer.go,
    pauses, streaks, context.go), \<open>Service_Claim\<close> (service_claim.go), \<open>Service_Single\<close> (reservation batches of
    service_batch.go), \<open>Service_Execution\<close> (service_execution_batch.go), \<open>Service_Worker\<close> (the worker loop of
    service.go), \<open>Service_API\<close> (api.go), \<open>Service_Lifecycle\<close> (Run, BeginDrain, Readiness and the claim lock as
    interleaved steps).
  \<^item> \<open>Lease_Soundness\<close>, \<open>Sqlite_Fleet\<close>, \<open>Service_Delivery\<close>, \<open>Sqlite_Delivery\<close>, \<open>Service_Termination\<close>,
    \<open>Sqlite_Termination\<close>, \<open>Service_Fairness\<close>: the composition of service and store.

  \<^bold>\<open>What is shown.\<close>

  \<^item> Leases. Claims on SQLite take only free rows and the owner's operations touch only owned rows, whatever
    statement fails; each is all or nothing, also when the answer to its commit is lost, and on the
    abstraction of the jobs table it is the claim or the owner's change of \<open>Lease_Store\<close> (\<open>Sqlite_Claims\<close>,
    \<open>Sqlite_Leases\<close>). \<open>Sqlite_Fleet\<close> lets any number of workers and producers call the repositories on one
    database and proves that every call is a run of the abstract protocol; hence two unexpired leases on a
    job belong to one token. The ledger never claims more than it was granted: every unexpired deadline
    is backed by the row up to the millisecond, also with other processes on the same database, and
    handlers and finalizations run only under such a deadline (\<open>Lease_Ledger\<close>, \<open>Lease_Soundness\<close>).
  \<^item> MySQL. A claim that looks first and takes later takes only rows that are free when it takes them,
    and it returns; its query by capability is the plain query; the owner's operations are fenced and
    agree with SQLite (\<open>Mysql_Claims\<close>, \<open>Mysql_Leases\<close>).
  \<^item> Delivery. \<open>Service_Delivery\<close> proves once, for any store that satisfies its locale, that a worker loses
    no job: it stays stored until a handler has returned success for it or it is a dead letter.
    \<open>Sqlite_Delivery\<close> interprets the locale on the SQLite repositories.
  \<^item> Progress. Every turn of a worker returns (\<open>Service_Termination\<close>, \<open>Sqlite_Termination\<close>), the rotation of
    batch capabilities starves none (\<open>Service_Fairness\<close>), and after BeginDrain no claim starts
    (\<open>Service_Lifecycle\<close>).
  \<^item> Idempotent puts. All answered puts of a key name one job, a batch is all or nothing, and pruning
    removes the oldest keys first and keeps those of stored jobs (\<open>Sqlite_Idempotency\<close>).
  \<^item> Configuration, retry and results: validated options and registries, exact backoff, retry times that
    are never in the past, keyed batch results that cover the batch exactly.

  \<^bold>\<open>State, loops and time.\<close> Stateful code passes its state and the world \<open>'w\<close> explicitly and returns it.
  What another goroutine or process may do in between is an argument of the model, the runtime or the
  world, so theorems hold for every interleaving it can express. The loop that fills an execution batch
  and the worker loop are \<open>partial_function (option)\<close> over a total round; that the fill loop returns is
  proved with a measure on the remaining waiting time, and that a MySQL claim returns with one on the
  commits of other sessions, so no fuel is needed. The worker loop runs until
  drained, as intended. SQLite keeps Unix milliseconds; the loss of the nanoseconds is part of the
  model.

  \<^bold>\<open>Parameters.\<close> The UUID library is the function that spells an identifier and \<open>uuid_New\<close>. Handlers, retry
  policies, jitter and the observer's channel are arguments. Where a property needs more than totality of
  these, it is a named hypothesis and its witness shows an instance. That the clock of a process is not
  turned back is such a hypothesis (\<open>clock_runs\<close>).

  \<^bold>\<open>Assumption on the engines.\<close> A single statement that is answered by an error had no effect; SQLite and MySQL
  back out the changes of a failed statement. The uncertainty of a lost answer is modelled where a whole
  transaction depends on it, at the commit. It matters only for conclusions that an error of a
  single-statement operation left the table unchanged; the fence, mutual exclusion and delivery do not
  rest on it.

  \<^bold>\<open>Not modelled.\<close> \<open>runtime.Goexit\<close> in a handler and the error group that joins the workers of Run; SQL
  text and scanning errors other than as failing statements; logging; database clients, migration
  runners and example programs, which are wiring around drivers. Fan-out, the unique puts, listings and
  dead letters of MySQL, and the PostgreSQL and Picodata backends, which implement the same storage
  contract, are not part of this development.
\<close>

end
